theory Spec2Isabelle
  imports Main "HOL-Library.Word"
begin

unbundle bit_operations_syntax

section \<open>Machine types\<close>

type_synonym u8 = "8 word"
type_synonym u16 = "16 word"
type_synonym u32 = "32 word"

section \<open>Register indices (enum reg)\<close>

text \<open>
  The C enumeration \<^verbatim>\<open>enum reg\<close> is used as an integer (\<^verbatim>\<open>index + 1\<close>,
  \<^verbatim>\<open>C_CAN_IFACE(DATA1_REG, iface) + i / 2\<close>), so a register index is a natural number.
  The two offset tables \<^verbatim>\<open>reg_map_c_can\<close> and \<^verbatim>\<open>reg_map_d_can\<close> and the two
  alignment strategies only turn an index into a bus address; the device model below is
  addressed by the index itself.
\<close>

definition C_CAN_CTRL_REG :: nat where "C_CAN_CTRL_REG = 0"
definition C_CAN_CTRL_EX_REG :: nat where "C_CAN_CTRL_EX_REG = 1"
definition C_CAN_STS_REG :: nat where "C_CAN_STS_REG = 2"
definition C_CAN_ERR_CNT_REG :: nat where "C_CAN_ERR_CNT_REG = 3"
definition C_CAN_BTR_REG :: nat where "C_CAN_BTR_REG = 4"
definition C_CAN_INT_REG :: nat where "C_CAN_INT_REG = 5"
definition C_CAN_TEST_REG :: nat where "C_CAN_TEST_REG = 6"
definition C_CAN_BRPEXT_REG :: nat where "C_CAN_BRPEXT_REG = 7"
definition C_CAN_IF1_COMREQ_REG :: nat where "C_CAN_IF1_COMREQ_REG = 8"
definition C_CAN_IF1_COMMSK_REG :: nat where "C_CAN_IF1_COMMSK_REG = 9"
definition C_CAN_IF1_MASK1_REG :: nat where "C_CAN_IF1_MASK1_REG = 10"
definition C_CAN_IF1_MASK2_REG :: nat where "C_CAN_IF1_MASK2_REG = 11"
definition C_CAN_IF1_ARB1_REG :: nat where "C_CAN_IF1_ARB1_REG = 12"
definition C_CAN_IF1_ARB2_REG :: nat where "C_CAN_IF1_ARB2_REG = 13"
definition C_CAN_IF1_MSGCTRL_REG :: nat where "C_CAN_IF1_MSGCTRL_REG = 14"
definition C_CAN_IF1_DATA1_REG :: nat where "C_CAN_IF1_DATA1_REG = 15"
definition C_CAN_IF1_DATA2_REG :: nat where "C_CAN_IF1_DATA2_REG = 16"
definition C_CAN_IF1_DATA3_REG :: nat where "C_CAN_IF1_DATA3_REG = 17"
definition C_CAN_IF1_DATA4_REG :: nat where "C_CAN_IF1_DATA4_REG = 18"
definition C_CAN_IF2_COMREQ_REG :: nat where "C_CAN_IF2_COMREQ_REG = 19"
definition C_CAN_TXRQST1_REG :: nat where "C_CAN_TXRQST1_REG = 30"
definition C_CAN_TXRQST2_REG :: nat where "C_CAN_TXRQST2_REG = 31"
definition C_CAN_NEWDAT1_REG :: nat where "C_CAN_NEWDAT1_REG = 32"
definition C_CAN_NEWDAT2_REG :: nat where "C_CAN_NEWDAT2_REG = 33"
definition C_CAN_INTPND1_REG :: nat where "C_CAN_INTPND1_REG = 34"
definition C_CAN_INTPND2_REG :: nat where "C_CAN_INTPND2_REG = 35"
definition C_CAN_MSGVAL1_REG :: nat where "C_CAN_MSGVAL1_REG = 36"
definition C_CAN_MSGVAL2_REG :: nat where "C_CAN_MSGVAL2_REG = 37"

text \<open>\<^verbatim>\<open>#define C_CAN_IFACE(reg, iface) (C_CAN_IF1_##reg + (iface) * IF_ENUM_REG_LEN)\<close>;
  the first argument is the index of the register in the first interface group.\<close>

definition IF_ENUM_REG_LEN :: nat where "IF_ENUM_REG_LEN = 11"

definition C_CAN_IFACE :: "nat \<Rightarrow> nat \<Rightarrow> nat" where
  "C_CAN_IFACE reg iface = reg + iface * IF_ENUM_REG_LEN"

lemmas reg_defs =
  C_CAN_CTRL_REG_def C_CAN_CTRL_EX_REG_def C_CAN_STS_REG_def C_CAN_ERR_CNT_REG_def
  C_CAN_BTR_REG_def C_CAN_INT_REG_def C_CAN_TEST_REG_def C_CAN_BRPEXT_REG_def
  C_CAN_IF1_COMREQ_REG_def C_CAN_IF1_COMMSK_REG_def C_CAN_IF1_MASK1_REG_def
  C_CAN_IF1_MASK2_REG_def C_CAN_IF1_ARB1_REG_def C_CAN_IF1_ARB2_REG_def
  C_CAN_IF1_MSGCTRL_REG_def C_CAN_IF1_DATA1_REG_def C_CAN_IF1_DATA2_REG_def
  C_CAN_IF1_DATA3_REG_def C_CAN_IF1_DATA4_REG_def C_CAN_IF2_COMREQ_REG_def
  C_CAN_TXRQST1_REG_def C_CAN_TXRQST2_REG_def C_CAN_NEWDAT1_REG_def C_CAN_NEWDAT2_REG_def
  C_CAN_INTPND1_REG_def C_CAN_INTPND2_REG_def C_CAN_MSGVAL1_REG_def C_CAN_MSGVAL2_REG_def
  IF_ENUM_REG_LEN_def C_CAN_IFACE_def

section \<open>Register bits and driver constants\<close>

text \<open>control register\<close>

definition CONTROL_TEST :: u16 where "CONTROL_TEST = 0x80"
definition CONTROL_CCE :: u16 where "CONTROL_CCE = 0x40"
definition CONTROL_ENABLE_AR :: u16 where "CONTROL_ENABLE_AR = 0"
definition CONTROL_EIE :: u16 where "CONTROL_EIE = 0x08"
definition CONTROL_SIE :: u16 where "CONTROL_SIE = 0x04"
definition CONTROL_IE :: u16 where "CONTROL_IE = 0x02"
definition CONTROL_INIT :: u16 where "CONTROL_INIT = 0x01"

text \<open>test register\<close>

definition TEST_LBACK :: u16 where "TEST_LBACK = 0x10"
definition TEST_SILENT :: u16 where "TEST_SILENT = 0x08"

text \<open>status register\<close>

definition STATUS_BOFF :: u32 where "STATUS_BOFF = 0x80"
definition STATUS_EWARN :: u32 where "STATUS_EWARN = 0x40"
definition STATUS_EPASS :: u32 where "STATUS_EPASS = 0x20"
definition STATUS_RXOK :: u32 where "STATUS_RXOK = 0x10"
definition STATUS_TXOK :: u32 where "STATUS_TXOK = 0x08"

text \<open>error counter register\<close>

definition ERR_CNT_TEC_MASK :: u32 where "ERR_CNT_TEC_MASK = 0xff"
definition ERR_CNT_REC_SHIFT :: nat where "ERR_CNT_REC_SHIFT = 8"
definition ERR_CNT_REC_MASK :: u32 where "ERR_CNT_REC_MASK = push_bit ERR_CNT_REC_SHIFT 0x7f"
definition ERR_CNT_RP_SHIFT :: nat where "ERR_CNT_RP_SHIFT = 15"
definition ERR_CNT_RP_MASK :: u32 where "ERR_CNT_RP_MASK = push_bit ERR_CNT_RP_SHIFT 0x1"

text \<open>bit-timing register and brp extension register\<close>

definition BTR_BRP_MASK :: u32 where "BTR_BRP_MASK = 0x3f"
definition BTR_BRP_SHIFT :: nat where "BTR_BRP_SHIFT = 0"
definition BTR_SJW_SHIFT :: nat where "BTR_SJW_SHIFT = 6"
definition BTR_SJW_MASK :: u32 where "BTR_SJW_MASK = push_bit BTR_SJW_SHIFT 0x3"
definition BTR_TSEG1_SHIFT :: nat where "BTR_TSEG1_SHIFT = 8"
definition BTR_TSEG1_MASK :: u32 where "BTR_TSEG1_MASK = push_bit BTR_TSEG1_SHIFT 0xf"
definition BTR_TSEG2_SHIFT :: nat where "BTR_TSEG2_SHIFT = 12"
definition BTR_TSEG2_MASK :: u32 where "BTR_TSEG2_MASK = push_bit BTR_TSEG2_SHIFT 0x7"
definition BRP_EXT_BRPE_MASK :: u32 where "BRP_EXT_BRPE_MASK = 0x0f"
definition BRP_EXT_BRPE_SHIFT :: nat where "BRP_EXT_BRPE_SHIFT = 0"

lemmas btr_defs =
  BTR_BRP_MASK_def BTR_BRP_SHIFT_def BTR_SJW_SHIFT_def BTR_SJW_MASK_def BTR_TSEG1_SHIFT_def
  BTR_TSEG1_MASK_def BTR_TSEG2_SHIFT_def BTR_TSEG2_MASK_def BRP_EXT_BRPE_MASK_def
  BRP_EXT_BRPE_SHIFT_def

text \<open>IFx command request and command mask\<close>

definition IF_COMR_BUSY :: u16 where "IF_COMR_BUSY = 0x8000"

definition IF_COMM_WR :: u16 where "IF_COMM_WR = 0x80"
definition IF_COMM_MASK :: u16 where "IF_COMM_MASK = 0x40"
definition IF_COMM_ARB :: u16 where "IF_COMM_ARB = 0x20"
definition IF_COMM_CONTROL :: u16 where "IF_COMM_CONTROL = 0x10"
definition IF_COMM_CLR_INT_PND :: u16 where "IF_COMM_CLR_INT_PND = 0x08"
definition IF_COMM_TXRQST :: u16 where "IF_COMM_TXRQST = 0x04"
definition IF_COMM_DATAA :: u16 where "IF_COMM_DATAA = 0x02"
definition IF_COMM_DATAB :: u16 where "IF_COMM_DATAB = 0x01"
definition IF_COMM_ALL :: u16 where
  "IF_COMM_ALL = IF_COMM_MASK OR IF_COMM_ARB OR IF_COMM_CONTROL OR IF_COMM_TXRQST OR
     IF_COMM_DATAA OR IF_COMM_DATAB"

lemmas comm_defs =
  IF_COMM_WR_def IF_COMM_MASK_def IF_COMM_ARB_def IF_COMM_CONTROL_def IF_COMM_CLR_INT_PND_def
  IF_COMM_TXRQST_def IF_COMM_DATAA_def IF_COMM_DATAB_def IF_COMM_ALL_def

text \<open>IFx arbitration\<close>

definition IF_ARB_MSGVAL :: u16 where "IF_ARB_MSGVAL = 0x8000"
definition IF_ARB_MSGXTD :: u16 where "IF_ARB_MSGXTD = 0x4000"
definition IF_ARB_TRANSMIT :: u16 where "IF_ARB_TRANSMIT = 0x2000"

lemmas arb_defs = IF_ARB_MSGVAL_def IF_ARB_MSGXTD_def IF_ARB_TRANSMIT_def

text \<open>IFx message control\<close>

definition IF_MCONT_NEWDAT :: u16 where "IF_MCONT_NEWDAT = 0x8000"
definition IF_MCONT_MSGLST :: u16 where "IF_MCONT_MSGLST = 0x4000"
definition IF_MCONT_CLR_MSGLST :: u16 where "IF_MCONT_CLR_MSGLST = push_bit 14 0"
definition IF_MCONT_INTPND :: u16 where "IF_MCONT_INTPND = 0x2000"
definition IF_MCONT_UMASK :: u16 where "IF_MCONT_UMASK = 0x1000"
definition IF_MCONT_TXIE :: u16 where "IF_MCONT_TXIE = 0x0800"
definition IF_MCONT_RXIE :: u16 where "IF_MCONT_RXIE = 0x0400"
definition IF_MCONT_RMTEN :: u16 where "IF_MCONT_RMTEN = 0x0200"
definition IF_MCONT_TXRQST :: u16 where "IF_MCONT_TXRQST = 0x0100"
definition IF_MCONT_EOB :: u16 where "IF_MCONT_EOB = 0x0080"
definition IF_MCONT_DLC_MASK :: u16 where "IF_MCONT_DLC_MASK = 0xf"

lemmas mcont_defs =
  IF_MCONT_NEWDAT_def IF_MCONT_MSGLST_def IF_MCONT_CLR_MSGLST_def IF_MCONT_INTPND_def
  IF_MCONT_UMASK_def IF_MCONT_TXIE_def IF_MCONT_RXIE_def IF_MCONT_RMTEN_def
  IF_MCONT_TXRQST_def IF_MCONT_EOB_def IF_MCONT_DLC_MASK_def

text \<open>\<^verbatim>\<open>IFX_WRITE_LOW_16BIT(x)\<close> is \<^verbatim>\<open>(x) & 0xFFFF\<close> and
  \<^verbatim>\<open>IFX_WRITE_HIGH_16BIT(x)\<close> is \<^verbatim>\<open>((x) & 0xFFFF0000) >> 16\<close>; the result is passed
  as the 16-bit argument of \<^verbatim>\<open>write_reg\<close>.\<close>

definition IFX_WRITE_LOW_16BIT :: "u32 \<Rightarrow> u16" where
  "IFX_WRITE_LOW_16BIT x = ucast (x AND 0xFFFF)"

definition IFX_WRITE_HIGH_16BIT :: "u32 \<Rightarrow> u16" where
  "IFX_WRITE_HIGH_16BIT x = ucast (drop_bit 16 (x AND 0xFFFF0000))"

text \<open>message object split\<close>

definition C_CAN_NO_OF_OBJECTS :: nat where "C_CAN_NO_OF_OBJECTS = 32"
definition C_CAN_MSG_OBJ_RX_NUM :: nat where "C_CAN_MSG_OBJ_RX_NUM = 16"
definition C_CAN_MSG_OBJ_TX_NUM :: nat where "C_CAN_MSG_OBJ_TX_NUM = 16"
definition C_CAN_MSG_OBJ_RX_FIRST :: nat where "C_CAN_MSG_OBJ_RX_FIRST = 1"
definition C_CAN_MSG_OBJ_RX_LAST :: nat where
  "C_CAN_MSG_OBJ_RX_LAST = C_CAN_MSG_OBJ_RX_FIRST + C_CAN_MSG_OBJ_RX_NUM - 1"
definition C_CAN_MSG_OBJ_TX_FIRST :: nat where
  "C_CAN_MSG_OBJ_TX_FIRST = C_CAN_MSG_OBJ_RX_LAST + 1"
definition C_CAN_MSG_OBJ_TX_LAST :: nat where
  "C_CAN_MSG_OBJ_TX_LAST = C_CAN_MSG_OBJ_TX_FIRST + C_CAN_MSG_OBJ_TX_NUM - 1"
definition C_CAN_MSG_OBJ_RX_SPLIT :: nat where "C_CAN_MSG_OBJ_RX_SPLIT = 9"
definition C_CAN_MSG_RX_LOW_LAST :: nat where
  "C_CAN_MSG_RX_LOW_LAST = C_CAN_MSG_OBJ_RX_SPLIT - 1"
definition C_CAN_NEXT_MSG_OBJ_MASK :: u32 where
  "C_CAN_NEXT_MSG_OBJ_MASK = of_nat (C_CAN_MSG_OBJ_TX_NUM - 1)"

lemmas obj_defs =
  C_CAN_NO_OF_OBJECTS_def C_CAN_MSG_OBJ_RX_NUM_def C_CAN_MSG_OBJ_TX_NUM_def
  C_CAN_MSG_OBJ_RX_FIRST_def C_CAN_MSG_OBJ_RX_LAST_def C_CAN_MSG_OBJ_TX_FIRST_def
  C_CAN_MSG_OBJ_TX_LAST_def C_CAN_MSG_OBJ_RX_SPLIT_def C_CAN_MSG_RX_LOW_LAST_def
  C_CAN_NEXT_MSG_OBJ_MASK_def

definition STATUS_INTERRUPT :: u16 where "STATUS_INTERRUPT = 0x8000"
definition ENABLE_ALL_INTERRUPTS :: nat where "ENABLE_ALL_INTERRUPTS = 1"
definition DISABLE_ALL_INTERRUPTS :: nat where "DISABLE_ALL_INTERRUPTS = 0"
definition MIN_TIMEOUT_VALUE :: nat where "MIN_TIMEOUT_VALUE = 6"

lemmas ctrl_defs =
  CONTROL_TEST_def CONTROL_CCE_def CONTROL_ENABLE_AR_def CONTROL_EIE_def CONTROL_SIE_def
  CONTROL_IE_def CONTROL_INIT_def ENABLE_ALL_INTERRUPTS_def DISABLE_ALL_INTERRUPTS_def

text \<open>\<^verbatim>\<open>enum c_can_lec_type\<close>, used as an integer (\<^verbatim>\<open>current_status & LEC_UNUSED\<close>).\<close>

definition LEC_NO_ERROR :: u32 where "LEC_NO_ERROR = 0"
definition LEC_STUFF_ERROR :: u32 where "LEC_STUFF_ERROR = 1"
definition LEC_FORM_ERROR :: u32 where "LEC_FORM_ERROR = 2"
definition LEC_ACK_ERROR :: u32 where "LEC_ACK_ERROR = 3"
definition LEC_BIT1_ERROR :: u32 where "LEC_BIT1_ERROR = 4"
definition LEC_BIT0_ERROR :: u32 where "LEC_BIT0_ERROR = 5"
definition LEC_CRC_ERROR :: u32 where "LEC_CRC_ERROR = 6"
definition LEC_UNUSED :: u32 where "LEC_UNUSED = 7"

datatype c_can_bus_error_types =
  C_CAN_NO_ERROR | C_CAN_BUS_OFF | C_CAN_ERROR_WARNING | C_CAN_ERROR_PASSIVE


section \<open>Constants and types of the RTCAN framework\<close>

text \<open>
  The driver includes \<^verbatim>\<open>rtdm/rtcan.h\<close>, \<^verbatim>\<open>rtcan_dev.h\<close>, \<^verbatim>\<open>rtcan_raw.h\<close> and
  \<^verbatim>\<open>rtcan_internal.h\<close>, which are not among the sources. The frame flags, error classes and
  structure fields used by the driver are given here with the values of the CAN device
  profile; no result below depends on more than the frame flags and masks being the
  usual disjoint bit fields.
\<close>

definition CAN_EFF_FLAG :: u32 where "CAN_EFF_FLAG = 0x80000000"
definition CAN_RTR_FLAG :: u32 where "CAN_RTR_FLAG = 0x40000000"
definition CAN_SFF_MASK :: u32 where "CAN_SFF_MASK = 0x000007FF"
definition CAN_EFF_MASK :: u32 where "CAN_EFF_MASK = 0x1FFFFFFF"
definition CAN_MAX_DLC :: u8 where "CAN_MAX_DLC = 8"

lemmas can_defs =
  CAN_EFF_FLAG_def CAN_RTR_FLAG_def CAN_SFF_MASK_def CAN_EFF_MASK_def CAN_MAX_DLC_def

definition CAN_ERR_CRTL :: u32 where "CAN_ERR_CRTL = 0x00000004"
definition CAN_ERR_PROT :: u32 where "CAN_ERR_PROT = 0x00000008"
definition CAN_ERR_BUSOFF :: u32 where "CAN_ERR_BUSOFF = 0x00000040"
definition CAN_ERR_BUSERROR :: u32 where "CAN_ERR_BUSERROR = 0x00000080"
definition CAN_ERR_CRTL_RX_OVERFLOW :: u8 where "CAN_ERR_CRTL_RX_OVERFLOW = 0x01"
definition CAN_ERR_CRTL_RX_WARNING :: u8 where "CAN_ERR_CRTL_RX_WARNING = 0x04"
definition CAN_ERR_CRTL_TX_WARNING :: u8 where "CAN_ERR_CRTL_TX_WARNING = 0x08"
definition CAN_ERR_CRTL_RX_PASSIVE :: u8 where "CAN_ERR_CRTL_RX_PASSIVE = 0x10"
definition CAN_ERR_CRTL_TX_PASSIVE :: u8 where "CAN_ERR_CRTL_TX_PASSIVE = 0x20"
definition CAN_ERR_PROT_UNSPEC :: u8 where "CAN_ERR_PROT_UNSPEC = 0x00"
definition CAN_ERR_PROT_FORM :: u8 where "CAN_ERR_PROT_FORM = 0x02"
definition CAN_ERR_PROT_STUFF :: u8 where "CAN_ERR_PROT_STUFF = 0x04"
definition CAN_ERR_PROT_BIT0 :: u8 where "CAN_ERR_PROT_BIT0 = 0x08"
definition CAN_ERR_PROT_BIT1 :: u8 where "CAN_ERR_PROT_BIT1 = 0x10"
definition CAN_ERR_PROT_LOC_CRC_SEQ :: u8 where "CAN_ERR_PROT_LOC_CRC_SEQ = 0x08"
definition CAN_ERR_PROT_LOC_CRC_DEL :: u8 where "CAN_ERR_PROT_LOC_CRC_DEL = 0x18"
definition CAN_ERR_PROT_LOC_ACK :: u8 where "CAN_ERR_PROT_LOC_ACK = 0x19"
definition CAN_ERR_PROT_LOC_ACK_DEL :: u8 where "CAN_ERR_PROT_LOC_ACK_DEL = 0x1B"
definition CAN_ERR_DLC :: nat where "CAN_ERR_DLC = 8"
definition EMPTY_RB_FRAME_SIZE :: nat where "EMPTY_RB_FRAME_SIZE = 6"
definition CAN_CTRLMODE_LISTENONLY :: u32 where "CAN_CTRLMODE_LISTENONLY = 0x1"
definition CAN_CTRLMODE_LOOPBACK :: u32 where "CAN_CTRLMODE_LOOPBACK = 0x2"

text \<open>\<^verbatim>\<open>can_state_t\<close>: the driver names the first state both \<^verbatim>\<open>CAN_STATE_ACTIVE\<close> and
  \<^verbatim>\<open>CAN_STATE_ERROR_ACTIVE\<close>, the second both \<^verbatim>\<open>CAN_STATE_BUS_WARNING\<close> and
  \<^verbatim>\<open>CAN_STATE_ERROR_WARNING\<close>, the third both \<^verbatim>\<open>CAN_STATE_BUS_PASSIVE\<close> and
  \<^verbatim>\<open>CAN_STATE_ERROR_PASSIVE\<close>.\<close>

datatype can_state =
  CAN_STATE_ACTIVE | CAN_STATE_BUS_WARNING | CAN_STATE_BUS_PASSIVE | CAN_STATE_BUS_OFF |
  CAN_STATE_SCANNING_BAUDRATE | CAN_STATE_STOPPED | CAN_STATE_SLEEPING

abbreviation CAN_STATE_ERROR_ACTIVE :: can_state where
  "CAN_STATE_ERROR_ACTIVE \<equiv> CAN_STATE_ACTIVE"
abbreviation CAN_STATE_ERROR_WARNING :: can_state where
  "CAN_STATE_ERROR_WARNING \<equiv> CAN_STATE_BUS_WARNING"
abbreviation CAN_STATE_ERROR_PASSIVE :: can_state where
  "CAN_STATE_ERROR_PASSIVE \<equiv> CAN_STATE_BUS_PASSIVE"

datatype irq_return = RTDM_IRQ_NONE | RTDM_IRQ_HANDLED

text \<open>\<^verbatim>\<open>struct can_frame\<close> and \<^verbatim>\<open>struct rtcan_rb_frame\<close> share the fields the driver
  touches: the identifier word with its flags, the data length code and the payload. The
  payload is indexed memory: the encoder reads \<^verbatim>\<open>data[i + 1]\<close> one byte past an odd length.\<close>

record can_frame =
  can_id :: u32
  can_dlc :: u8
  data :: "nat \<Rightarrow> u8"

record rtcan_skb =
  rb_frame :: can_frame
  rb_frame_size :: nat

text \<open>\<^verbatim>\<open>struct can_bittime_std\<close>.\<close>

record can_bittime_std =
  brp :: u32
  prop_seg :: u8
  phase_seg1 :: u8
  phase_seg2 :: u8
  sjw :: u8

section \<open>Driver state\<close>

text \<open>\<^verbatim>\<open>struct c_can_priv\<close>, the fields the modelled functions read or write. \<open>device\<close> and
  \<open>raminit\<close> say whether the respective pointer is non-null.\<close>

record c_can_priv =
  device :: bool
  bit_time :: can_bittime_std
  current_status :: u32
  last_status :: u32
  tx_next :: u32
  tx_echo :: u32
  irqstatus :: u16
  raminit :: bool

text \<open>\<^verbatim>\<open>struct rtcan_device\<close>, likewise; its semaphore, its interrupt handle and its lock
  appear as events of the trace.\<close>

record rtcan_device =
  state :: can_state
  ctrl_mode :: u32

section \<open>Calls into the environment\<close>

datatype lock = device_lock | rtcan_recv_list_lock | rtcan_socket_lock

text \<open>Every call that leaves the driver is recorded, in order: register writes, delays,
  error-level log lines (\<^verbatim>\<open>rtcandev_err\<close>; the info and debug lines are left out), frames
  handed to \<^verbatim>\<open>rtcan_rcv\<close>, semaphore, lock and interrupt-line operations, power management
  and message RAM initialisation.\<close>

datatype event =
    Reg_write nat u16
  | Udelay nat
  | Dev_err string
  | Rcv rtcan_skb
  | Sem_init nat
  | Sem_up
  | Sem_destroy
  | Lock_get lock
  | Lock_put lock
  | Irq_request
  | Pm_get_sync
  | Pm_put_sync
  | Raminit bool
  | Loopback

section \<open>The controller and its environment\<close>

text \<open>One message object of the message RAM: mask, arbitration, message control and the
  four data registers.\<close>

record msg_object =
  mo_mask1 :: u16
  mo_mask2 :: u16
  mo_arb1 :: u16
  mo_arb2 :: u16
  mo_mctrl :: u16
  mo_data1 :: u16
  mo_data2 :: u16
  mo_data3 :: u16
  mo_data4 :: u16

text \<open>
  The whole system the driver functions act on.
  \<^item> \<open>regs\<close>: the directly addressed registers, by index, including both interface groups;
  \<^item> \<open>msg_ram\<close>: the message objects, by number 1..32;
  \<^item> \<open>usec\<close>, \<open>busy_until\<close>, \<open>xfer_usec\<close>: a microsecond clock, the time until which each
    interface's command request reads busy, and the (arbitrary) time a transfer keeps
    the interface busy;
  \<^item> \<open>priv\<close>, \<open>dev\<close>: the driver's structures;
  \<^item> \<open>irq_request_result\<close>: what \<^verbatim>\<open>rtdm_irq_request\<close> returns; \<open>loopback_pending\<close>: what
    \<^verbatim>\<open>rtcan_loopback_pending\<close> returns;
  \<^item> \<open>stack_skb\<close>: the contents an uninitialised \<^verbatim>\<open>struct rtcan_skb\<close> local starts with
    (the source declares these locals without initialising them);
  \<^item> \<open>trace\<close>: the calls into the environment so far.
\<close>

record c_can =
  regs :: "nat \<Rightarrow> u16"
  msg_ram :: "nat \<Rightarrow> msg_object"
  usec :: nat
  busy_until :: "nat \<Rightarrow> nat"
  xfer_usec :: nat
  priv :: c_can_priv
  dev :: rtcan_device
  irq_request_result :: int
  loopback_pending :: bool
  stack_skb :: rtcan_skb
  trace :: "event list"

definition emit :: "event \<Rightarrow> c_can \<Rightarrow> c_can" where
  "emit e s = s\<lparr>trace := trace s @ [e]\<rparr>"

definition udelay :: "nat \<Rightarrow> c_can \<Rightarrow> c_can" where
  "udelay n s = emit (Udelay n) (s\<lparr>usec := usec s + n\<rparr>)"

subsection \<open>Device model\<close>

text \<open>
  The controller's side of the register interface, as the driver relies on it:
  \<^item> writing a message number 1..32 to an interface's command request register transfers
    the register groups selected by that interface's command mask between the interface
    registers and the message object: towards the message RAM when the write-direction bit
    is set (\<^verbatim>\<open>c_can_object_put\<close>), towards the interface registers otherwise
    (\<^verbatim>\<open>c_can_object_get\<close>); the interface then reads busy for \<open>xfer_usec\<close> microseconds;
  \<^item> bit \<open>n-1\<close> of the transmit-request, new-data, interrupt-pending and message-valid
    register pairs is the respective bit of message object \<open>n\<close>;
  \<^item> every other register holds what was last written to it.
  The controller changes nothing by itself while a driver function runs.
\<close>

definition obj_bits :: "(msg_object \<Rightarrow> bool) \<Rightarrow> (nat \<Rightarrow> msg_object) \<Rightarrow> nat \<Rightarrow> u16" where
  "obj_bits p ram base = horner_sum of_bool 2 (map (\<lambda>n. p (ram (base + n + 1))) [0..<16])"

definition mo_txrqst :: "msg_object \<Rightarrow> bool" where
  "mo_txrqst m = (mo_mctrl m AND IF_MCONT_TXRQST \<noteq> 0)"
definition mo_newdat :: "msg_object \<Rightarrow> bool" where
  "mo_newdat m = (mo_mctrl m AND IF_MCONT_NEWDAT \<noteq> 0)"
definition mo_intpnd :: "msg_object \<Rightarrow> bool" where
  "mo_intpnd m = (mo_mctrl m AND IF_MCONT_INTPND \<noteq> 0)"
definition mo_msgval :: "msg_object \<Rightarrow> bool" where
  "mo_msgval m = (mo_arb2 m AND IF_ARB_MSGVAL \<noteq> 0)"

definition read_reg :: "c_can \<Rightarrow> nat \<Rightarrow> u16" where
  "read_reg s index =
    (if index = C_CAN_IF1_COMREQ_REG \<or> index = C_CAN_IF2_COMREQ_REG then
       (regs s index AND NOT IF_COMR_BUSY) OR
       (if usec s < busy_until s index then IF_COMR_BUSY else 0)
     else if index = C_CAN_TXRQST1_REG then obj_bits mo_txrqst (msg_ram s) 0
     else if index = C_CAN_TXRQST2_REG then obj_bits mo_txrqst (msg_ram s) 16
     else if index = C_CAN_NEWDAT1_REG then obj_bits mo_newdat (msg_ram s) 0
     else if index = C_CAN_NEWDAT2_REG then obj_bits mo_newdat (msg_ram s) 16
     else if index = C_CAN_INTPND1_REG then obj_bits mo_intpnd (msg_ram s) 0
     else if index = C_CAN_INTPND2_REG then obj_bits mo_intpnd (msg_ram s) 16
     else if index = C_CAN_MSGVAL1_REG then obj_bits mo_msgval (msg_ram s) 0
     else if index = C_CAN_MSGVAL2_REG then obj_bits mo_msgval (msg_ram s) 16
     else regs s index)"

definition obj_store :: "u16 \<Rightarrow> (nat \<Rightarrow> u16) \<Rightarrow> msg_object \<Rightarrow> msg_object" where
  "obj_store cmd ifr m =
    \<lparr>mo_mask1 = (if cmd AND IF_COMM_MASK \<noteq> 0 then ifr C_CAN_IF1_MASK1_REG else mo_mask1 m),
     mo_mask2 = (if cmd AND IF_COMM_MASK \<noteq> 0 then ifr C_CAN_IF1_MASK2_REG else mo_mask2 m),
     mo_arb1 = (if cmd AND IF_COMM_ARB \<noteq> 0 then ifr C_CAN_IF1_ARB1_REG else mo_arb1 m),
     mo_arb2 = (if cmd AND IF_COMM_ARB \<noteq> 0 then ifr C_CAN_IF1_ARB2_REG else mo_arb2 m),
     mo_mctrl = (if cmd AND IF_COMM_CONTROL \<noteq> 0 then ifr C_CAN_IF1_MSGCTRL_REG else mo_mctrl m),
     mo_data1 = (if cmd AND IF_COMM_DATAA \<noteq> 0 then ifr C_CAN_IF1_DATA1_REG else mo_data1 m),
     mo_data2 = (if cmd AND IF_COMM_DATAA \<noteq> 0 then ifr C_CAN_IF1_DATA2_REG else mo_data2 m),
     mo_data3 = (if cmd AND IF_COMM_DATAB \<noteq> 0 then ifr C_CAN_IF1_DATA3_REG else mo_data3 m),
     mo_data4 = (if cmd AND IF_COMM_DATAB \<noteq> 0 then ifr C_CAN_IF1_DATA4_REG else mo_data4 m)\<rparr>"

definition obj_load :: "u16 \<Rightarrow> nat \<Rightarrow> msg_object \<Rightarrow> (nat \<Rightarrow> u16) \<Rightarrow> (nat \<Rightarrow> u16)" where
  "obj_load cmd iface m r =
    (\<lambda>i. if i = C_CAN_IFACE C_CAN_IF1_MASK1_REG iface \<and> cmd AND IF_COMM_MASK \<noteq> 0 then mo_mask1 m
         else if i = C_CAN_IFACE C_CAN_IF1_MASK2_REG iface \<and> cmd AND IF_COMM_MASK \<noteq> 0 then mo_mask2 m
         else if i = C_CAN_IFACE C_CAN_IF1_ARB1_REG iface \<and> cmd AND IF_COMM_ARB \<noteq> 0 then mo_arb1 m
         else if i = C_CAN_IFACE C_CAN_IF1_ARB2_REG iface \<and> cmd AND IF_COMM_ARB \<noteq> 0 then mo_arb2 m
         else if i = C_CAN_IFACE C_CAN_IF1_MSGCTRL_REG iface \<and> cmd AND IF_COMM_CONTROL \<noteq> 0
           then mo_mctrl m
         else if i = C_CAN_IFACE C_CAN_IF1_DATA1_REG iface \<and> cmd AND IF_COMM_DATAA \<noteq> 0 then mo_data1 m
         else if i = C_CAN_IFACE C_CAN_IF1_DATA2_REG iface \<and> cmd AND IF_COMM_DATAA \<noteq> 0 then mo_data2 m
         else if i = C_CAN_IFACE C_CAN_IF1_DATA3_REG iface \<and> cmd AND IF_COMM_DATAB \<noteq> 0 then mo_data3 m
         else if i = C_CAN_IFACE C_CAN_IF1_DATA4_REG iface \<and> cmd AND IF_COMM_DATAB \<noteq> 0 then mo_data4 m
         else r i)"

definition hw_transfer :: "nat \<Rightarrow> u16 \<Rightarrow> c_can \<Rightarrow> c_can" where
  "hw_transfer iface val s =
    (let comreq = C_CAN_IFACE C_CAN_IF1_COMREQ_REG iface;
         cmd = regs s (C_CAN_IFACE C_CAN_IF1_COMMSK_REG iface);
         objno = unat val;
         s1 = s\<lparr>regs := (regs s)(comreq := val)\<rparr>
     in if objno < 1 \<or> 32 < objno then s1
        else if cmd AND IF_COMM_WR \<noteq> 0 then
          s1\<lparr>msg_ram := (msg_ram s)(objno :=
                 obj_store cmd (\<lambda>r. regs s (C_CAN_IFACE r iface)) (msg_ram s objno)),
             busy_until := (busy_until s)(comreq := usec s + xfer_usec s)\<rparr>
        else
          s1\<lparr>regs := obj_load cmd iface (msg_ram s objno) (regs s1),
             busy_until := (busy_until s)(comreq := usec s + xfer_usec s)\<rparr>)"

definition write_reg :: "nat \<Rightarrow> u16 \<Rightarrow> c_can \<Rightarrow> c_can" where
  "write_reg index val s =
    (let s1 = emit (Reg_write index val) s
     in if index = C_CAN_IF1_COMREQ_REG then hw_transfer 0 val s1
        else if index = C_CAN_IF2_COMREQ_REG then hw_transfer 1 val s1
        else if C_CAN_TXRQST1_REG \<le> index \<and> index \<le> C_CAN_MSGVAL2_REG then s1
        else s1\<lparr>regs := (regs s1)(index := val)\<rparr>)"

text \<open>\<^verbatim>\<open>c_can_read_reg32\<close>: two consecutive 16-bit registers, low half first.\<close>

definition c_can_read_reg32 :: "c_can \<Rightarrow> nat \<Rightarrow> u32" where
  "c_can_read_reg32 s index =
    (let val = (ucast (read_reg s index) :: u32)
     in val OR push_bit 16 (ucast (read_reg s (index + 1)) :: u32))"

section \<open>Driver functions\<close>

definition get_tx_next_msg_obj :: "c_can_priv \<Rightarrow> nat" where
  "get_tx_next_msg_obj p = unat (tx_next p AND C_CAN_NEXT_MSG_OBJ_MASK) + C_CAN_MSG_OBJ_TX_FIRST"

definition get_tx_echo_msg_obj :: "c_can_priv \<Rightarrow> nat" where
  "get_tx_echo_msg_obj p = unat (tx_echo p AND C_CAN_NEXT_MSG_OBJ_MASK) + C_CAN_MSG_OBJ_TX_FIRST"

definition c_can_enable_all_interrupts :: "nat \<Rightarrow> c_can \<Rightarrow> c_can" where
  "c_can_enable_all_interrupts enable s =
    (let cntrl_save = read_reg s C_CAN_CTRL_REG;
         cntrl_save = (if enable \<noteq> 0 then cntrl_save OR (CONTROL_SIE OR CONTROL_EIE OR CONTROL_IE)
                       else cntrl_save AND NOT (CONTROL_EIE OR CONTROL_IE OR CONTROL_SIE))
     in write_reg C_CAN_CTRL_REG cntrl_save s)"

text \<open>\<^verbatim>\<open>c_can_msg_obj_is_busy\<close>: the loop over \<^verbatim>\<open>count\<close>, then the test of \<^verbatim>\<open>count\<close>.\<close>

fun busy_wait :: "nat \<Rightarrow> nat \<Rightarrow> c_can \<Rightarrow> nat \<times> c_can" where
  "busy_wait 0 iface s = (0, s)"
| "busy_wait (Suc count) iface s =
    (if read_reg s (C_CAN_IFACE C_CAN_IF1_COMREQ_REG iface) AND IF_COMR_BUSY \<noteq> 0
     then busy_wait count iface (udelay 1 s)
     else (Suc count, s))"

definition c_can_msg_obj_is_busy :: "nat \<Rightarrow> c_can \<Rightarrow> nat \<times> c_can" where
  "c_can_msg_obj_is_busy iface s =
    (case busy_wait MIN_TIMEOUT_VALUE iface s of
       (count, s') \<Rightarrow> (if count = 0 then 1 else 0, s'))"

definition c_can_object_get :: "nat \<Rightarrow> nat \<Rightarrow> u16 \<Rightarrow> c_can \<Rightarrow> c_can" where
  "c_can_object_get iface objno msk s =
    (let s = write_reg (C_CAN_IFACE C_CAN_IF1_COMMSK_REG iface) msk s;
         s = write_reg (C_CAN_IFACE C_CAN_IF1_COMREQ_REG iface) (of_nat objno) s
     in case c_can_msg_obj_is_busy iface s of
          (busy, s) \<Rightarrow> if busy \<noteq> 0 then emit (Dev_err ''timed out in object get'') s else s)"

definition c_can_object_put :: "nat \<Rightarrow> nat \<Rightarrow> u16 \<Rightarrow> c_can \<Rightarrow> c_can" where
  "c_can_object_put iface objno msk s =
    (let s = write_reg (C_CAN_IFACE C_CAN_IF1_COMMSK_REG iface) (IF_COMM_WR OR msk) s;
         s = write_reg (C_CAN_IFACE C_CAN_IF1_COMREQ_REG iface) (of_nat objno) s
     in case c_can_msg_obj_is_busy iface s of
          (busy, s) \<Rightarrow> if busy \<noteq> 0 then emit (Dev_err ''timed out in object put'') s else s)"

subsection \<open>Bit timing\<close>

text \<open>\<^verbatim>\<open>c_can_set_bittiming\<close>. The five fields are \<^verbatim>\<open>u8\<close> locals: each assignment
  truncates to eight bits.\<close>

definition bittiming_btr :: "can_bittime_std \<Rightarrow> u32" where
  "bittiming_btr bt =
    (let ten_bit_brp = brp bt - 1;
         brp8 = (ucast (ten_bit_brp AND BTR_BRP_MASK) :: u8);
         sjw8 = sjw bt - 1;
         tseg1 = prop_seg bt + phase_seg1 bt - 1;
         tseg2 = phase_seg2 bt - 1
     in ucast brp8 OR push_bit BTR_SJW_SHIFT (ucast sjw8) OR
        push_bit BTR_TSEG1_SHIFT (ucast tseg1) OR push_bit BTR_TSEG2_SHIFT (ucast tseg2))"

definition bittiming_brpe :: "can_bittime_std \<Rightarrow> u32" where
  "bittiming_brpe bt =
    (let ten_bit_brp = brp bt - 1;
         brpe = (ucast (drop_bit 6 ten_bit_brp) :: u8)
     in ucast brpe AND BRP_EXT_BRPE_MASK)"

definition c_can_set_bittiming :: "c_can \<Rightarrow> c_can" where
  "c_can_set_bittiming s =
    (let bt = bit_time (priv s);
         reg_btr = bittiming_btr bt;
         reg_brpe = bittiming_brpe bt;
         ctrl_save = read_reg s C_CAN_CTRL_REG;
         s = write_reg C_CAN_CTRL_REG (ctrl_save OR CONTROL_CCE OR CONTROL_INIT) s;
         s = write_reg C_CAN_BTR_REG (ucast reg_btr) s;
         s = write_reg C_CAN_BRPEXT_REG (ucast reg_brpe) s
     in write_reg C_CAN_CTRL_REG ctrl_save s)"

text \<open>Reading the fields back out of the two registers with the masks and shifts the
  source defines; the effective value of each parameter is its field plus one, and the
  prescaler is spread over the base field and the extension.\<close>

definition btr_field :: "u32 \<Rightarrow> nat \<Rightarrow> u16 \<Rightarrow> nat" where
  "btr_field msk shift r = unat (drop_bit shift (ucast r AND msk))"

definition bittiming_decode :: "u16 \<Rightarrow> u16 \<Rightarrow> nat \<times> nat \<times> nat \<times> nat" where
  "bittiming_decode btr brpe =
    (btr_field BTR_BRP_MASK BTR_BRP_SHIFT btr +
       64 * btr_field BRP_EXT_BRPE_MASK BRP_EXT_BRPE_SHIFT brpe + 1,
     btr_field BTR_SJW_MASK BTR_SJW_SHIFT btr + 1,
     btr_field BTR_TSEG1_MASK BTR_TSEG1_SHIFT btr + 1,
     btr_field BTR_TSEG2_MASK BTR_TSEG2_SHIFT btr + 1)"


subsection \<open>Frame codec\<close>

text \<open>\<^verbatim>\<open>c_can_write_msg_object\<close>. The data loop
  \<^verbatim>\<open>for (i = 0; i < frame->can_dlc; i += 2)\<close> writes one data register per byte pair.\<close>

function write_msg_object_data :: "nat \<Rightarrow> nat \<Rightarrow> can_frame \<Rightarrow> c_can \<Rightarrow> c_can" where
  "write_msg_object_data i iface frame s =
    (if i < unat (can_dlc frame) then
       write_msg_object_data (i + 2) iface frame
         (write_reg (C_CAN_IFACE C_CAN_IF1_DATA1_REG iface + i div 2)
            (ucast (data frame i) OR push_bit 8 (ucast (data frame (i + 1)))) s)
     else s)"
  by pat_completeness auto
termination
  by (relation "measure (\<lambda>(i, iface, frame, s). unat (can_dlc frame) - i)") auto

declare write_msg_object_data.simps [simp del]

definition write_msg_object_id :: "can_frame \<Rightarrow> u32" where
  "write_msg_object_id frame =
    (if can_id frame AND CAN_EFF_FLAG \<noteq> 0 then can_id frame AND CAN_EFF_MASK
     else push_bit 18 (can_id frame AND CAN_SFF_MASK))"

definition write_msg_object_flags :: "can_frame \<Rightarrow> u16" where
  "write_msg_object_flags frame =
    (let flags = 0;
         flags = (if can_id frame AND CAN_RTR_FLAG = 0 then flags OR IF_ARB_TRANSMIT else flags);
         flags = (if can_id frame AND CAN_EFF_FLAG \<noteq> 0 then flags OR IF_ARB_MSGXTD else flags)
     in flags OR IF_ARB_MSGVAL)"

definition c_can_write_msg_object :: "nat \<Rightarrow> can_frame \<Rightarrow> nat \<Rightarrow> c_can \<Rightarrow> c_can" where
  "c_can_write_msg_object iface frame objno s =
    (let flags = write_msg_object_flags frame;
         id = write_msg_object_id frame;
         s = write_reg (C_CAN_IFACE C_CAN_IF1_ARB1_REG iface) (IFX_WRITE_LOW_16BIT id) s;
         s = write_reg (C_CAN_IFACE C_CAN_IF1_ARB2_REG iface)
               (flags OR IFX_WRITE_HIGH_16BIT id) s;
         s = write_msg_object_data 0 iface frame s;
         s = write_reg (C_CAN_IFACE C_CAN_IF1_MSGCTRL_REG iface)
               (IF_MCONT_TXIE OR IF_MCONT_TXRQST OR IF_MCONT_EOB OR ucast (can_dlc frame)) s
     in c_can_object_put iface objno IF_COMM_ALL s)"

text \<open>\<^verbatim>\<open>c_can_read_msg_object\<close>. \<^verbatim>\<open>get_can_dlc(i)\<close> is \<^verbatim>\<open>min_t(__u8, (i), CAN_MAX_DLC)\<close>.
  The control word is passed as an \<^verbatim>\<open>int\<close> that holds a 16-bit register value.\<close>

definition get_can_dlc :: "u16 \<Rightarrow> u8" where
  "get_can_dlc i = min (ucast i) CAN_MAX_DLC"

function read_msg_object_data :: "nat \<Rightarrow> nat \<Rightarrow> c_can \<Rightarrow> can_frame \<Rightarrow> can_frame" where
  "read_msg_object_data i iface s frame =
    (if i < unat (can_dlc frame) then
       (let d = read_reg s (C_CAN_IFACE C_CAN_IF1_DATA1_REG iface + i div 2)
        in read_msg_object_data (i + 2) iface s
             (frame\<lparr>data := (data frame)(i := ucast d, i + 1 := ucast (drop_bit 8 d))\<rparr>))
     else frame)"
  by pat_completeness auto
termination
  by (relation "measure (\<lambda>(i, iface, s, frame). unat (can_dlc frame) - i)") auto

declare read_msg_object_data.simps [simp del]

definition c_can_read_msg_object :: "nat \<Rightarrow> u16 \<Rightarrow> rtcan_skb \<Rightarrow> c_can \<Rightarrow> rtcan_skb" where
  "c_can_read_msg_object iface ctrl skb s =
    (let frame = (rb_frame skb)\<lparr>can_dlc := get_can_dlc (ctrl AND 0x0F)\<rparr>;
         flags = read_reg s (C_CAN_IFACE C_CAN_IF1_ARB2_REG iface);
         val = (ucast (read_reg s (C_CAN_IFACE C_CAN_IF1_ARB1_REG iface)) :: u32) OR
               push_bit 16 (ucast flags);
         frame = (if flags AND IF_ARB_MSGXTD \<noteq> 0
                  then frame\<lparr>can_id := (val AND CAN_EFF_MASK) OR CAN_EFF_FLAG\<rparr>
                  else frame\<lparr>can_id := drop_bit 18 val AND CAN_SFF_MASK\<rparr>);
         frame = (if flags AND IF_ARB_TRANSMIT \<noteq> 0
                  then frame\<lparr>can_id := can_id frame OR CAN_RTR_FLAG\<rparr>
                  else read_msg_object_data 0 iface s frame)
     in \<lparr>rb_frame = frame, rb_frame_size = EMPTY_RB_FRAME_SIZE + CAN_ERR_DLC\<rparr>)"

text \<open>Encoding a frame into the interface registers and decoding those registers again:
  the control word handed to the decoder is the one the encoder wrote.\<close>

definition codec_roundtrip :: "nat \<Rightarrow> can_frame \<Rightarrow> nat \<Rightarrow> rtcan_skb \<Rightarrow> c_can \<Rightarrow> can_frame" where
  "codec_roundtrip iface frame objno skb s =
    (let s = c_can_write_msg_object iface frame objno s;
         ctrl = read_reg s (C_CAN_IFACE C_CAN_IF1_MSGCTRL_REG iface)
     in rb_frame (c_can_read_msg_object iface ctrl skb s))"

subsection \<open>Message objects\<close>

definition c_can_mark_rx_msg_obj :: "nat \<Rightarrow> u16 \<Rightarrow> nat \<Rightarrow> c_can \<Rightarrow> c_can" where
  "c_can_mark_rx_msg_obj iface ctrl_mask obj s =
    c_can_object_put iface obj IF_COMM_CONTROL
      (write_reg (C_CAN_IFACE C_CAN_IF1_MSGCTRL_REG iface)
         (ctrl_mask AND NOT (IF_MCONT_MSGLST OR IF_MCONT_INTPND)) s)"

text \<open>\<^verbatim>\<open>c_can_activate_all_lower_rx_msg_obj\<close>: the loop
  \<^verbatim>\<open>for (i = C_CAN_MSG_OBJ_RX_FIRST; i <= C_CAN_MSG_RX_LOW_LAST; i++)\<close>.\<close>

definition c_can_activate_all_lower_rx_msg_obj :: "nat \<Rightarrow> u16 \<Rightarrow> c_can \<Rightarrow> c_can" where
  "c_can_activate_all_lower_rx_msg_obj iface ctrl_mask s =
    fold (\<lambda>i s. c_can_object_put iface i IF_COMM_CONTROL
                  (write_reg (C_CAN_IFACE C_CAN_IF1_MSGCTRL_REG iface)
                     (ctrl_mask AND NOT (IF_MCONT_MSGLST OR IF_MCONT_INTPND OR IF_MCONT_NEWDAT)) s))
      [C_CAN_MSG_OBJ_RX_FIRST ..< C_CAN_MSG_RX_LOW_LAST + 1] s"

definition c_can_activate_rx_msg_obj :: "nat \<Rightarrow> u16 \<Rightarrow> nat \<Rightarrow> c_can \<Rightarrow> c_can" where
  "c_can_activate_rx_msg_obj iface ctrl_mask obj s =
    c_can_object_put iface obj IF_COMM_CONTROL
      (write_reg (C_CAN_IFACE C_CAN_IF1_MSGCTRL_REG iface)
         (ctrl_mask AND NOT (IF_MCONT_MSGLST OR IF_MCONT_INTPND OR IF_MCONT_NEWDAT)) s)"

text \<open>\<^verbatim>\<open>c_can_handle_lost_msg_obj\<close>. The local \<^verbatim>\<open>skb\<close> is not initialised; the function ors
  the error class into its identifier and sets one data byte. The put goes through
  interface 0 whatever \<^verbatim>\<open>iface\<close> is.\<close>

definition c_can_handle_lost_msg_obj :: "nat \<Rightarrow> nat \<Rightarrow> c_can \<Rightarrow> c_can" where
  "c_can_handle_lost_msg_obj iface objno s =
    (let skb = stack_skb s;
         s = emit (Dev_err ''msg lost in buffer %d'') s;
         s = c_can_object_get iface objno (IF_COMM_ALL AND NOT IF_COMM_TXRQST) s;
         s = write_reg (C_CAN_IFACE C_CAN_IF1_MSGCTRL_REG iface) IF_MCONT_CLR_MSGLST s;
         s = c_can_object_put 0 objno IF_COMM_CONTROL s;
         cf = rb_frame skb;
         cf = cf\<lparr>can_id := can_id cf OR CAN_ERR_CRTL\<rparr>;
         cf = cf\<lparr>data := (data cf)(1 := CAN_ERR_CRTL_RX_OVERFLOW)\<rparr>
     in emit (Rcv (skb\<lparr>rb_frame := cf\<rparr>)) s)"

definition c_can_setup_receive_object ::
    "nat \<Rightarrow> nat \<Rightarrow> u32 \<Rightarrow> u32 \<Rightarrow> u16 \<Rightarrow> c_can \<Rightarrow> c_can" where
  "c_can_setup_receive_object iface objno msk ident mcont s =
    (let s = write_reg (C_CAN_IFACE C_CAN_IF1_MASK1_REG iface) (IFX_WRITE_LOW_16BIT msk) s;
         s = write_reg (C_CAN_IFACE C_CAN_IF1_MASK2_REG iface)
               (IFX_WRITE_HIGH_16BIT msk OR 0x2000) s;
         s = write_reg (C_CAN_IFACE C_CAN_IF1_ARB1_REG iface) (IFX_WRITE_LOW_16BIT ident) s;
         s = write_reg (C_CAN_IFACE C_CAN_IF1_ARB2_REG iface)
               (IF_ARB_MSGVAL OR IFX_WRITE_HIGH_16BIT ident) s;
         s = write_reg (C_CAN_IFACE C_CAN_IF1_MSGCTRL_REG iface) mcont s
     in c_can_object_put iface objno (IF_COMM_ALL AND NOT IF_COMM_TXRQST) s)"

definition c_can_inval_msg_object :: "nat \<Rightarrow> nat \<Rightarrow> c_can \<Rightarrow> c_can" where
  "c_can_inval_msg_object iface objno s =
    (let s = write_reg (C_CAN_IFACE C_CAN_IF1_ARB1_REG iface) 0 s;
         s = write_reg (C_CAN_IFACE C_CAN_IF1_ARB2_REG iface) 0 s;
         s = write_reg (C_CAN_IFACE C_CAN_IF1_MSGCTRL_REG iface) 0 s
     in c_can_object_put iface objno (IF_COMM_ARB OR IF_COMM_CONTROL) s)"

text \<open>\<^verbatim>\<open>c_can_start_xmit\<close>; it returns 0 on every path.\<close>

definition c_can_start_xmit :: "can_frame \<Rightarrow> c_can \<Rightarrow> int \<times> c_can" where
  "c_can_start_xmit cf s =
    (let msg_obj_no = get_tx_next_msg_obj (priv s);
         s = c_can_write_msg_object 0 cf msg_obj_no s;
         s = s\<lparr>priv := (priv s)\<lparr>tx_next := tx_next (priv s) + 1\<rparr>\<rparr>
     in (0, s))"

definition c_can_configure_msg_objects :: "c_can \<Rightarrow> c_can" where
  "c_can_configure_msg_objects s =
    (let s = fold (\<lambda>i. c_can_inval_msg_object 0 i)
               [C_CAN_MSG_OBJ_RX_FIRST ..< C_CAN_NO_OF_OBJECTS + 1] s;
         s = fold (\<lambda>i. c_can_setup_receive_object 0 i 0 0
                          ((IF_MCONT_RXIE OR IF_MCONT_UMASK) AND NOT IF_MCONT_EOB))
               [C_CAN_MSG_OBJ_RX_FIRST ..< C_CAN_MSG_OBJ_RX_LAST] s
     in c_can_setup_receive_object 0 C_CAN_MSG_OBJ_RX_LAST 0 0
          (IF_MCONT_EOB OR IF_MCONT_RXIE OR IF_MCONT_UMASK) s)"

definition c_can_chip_config :: "c_can \<Rightarrow> c_can" where
  "c_can_chip_config s =
    (let s = write_reg C_CAN_CTRL_REG CONTROL_ENABLE_AR s;
         mode = ctrl_mode (dev s);
         s = (if mode AND CAN_CTRLMODE_LISTENONLY \<noteq> 0 \<and> mode AND CAN_CTRLMODE_LOOPBACK \<noteq> 0 then
                write_reg C_CAN_TEST_REG (TEST_LBACK OR TEST_SILENT)
                  (write_reg C_CAN_CTRL_REG
                     (CONTROL_EIE OR CONTROL_SIE OR CONTROL_IE OR CONTROL_TEST) s)
              else if mode AND CAN_CTRLMODE_LOOPBACK \<noteq> 0 then
                write_reg C_CAN_TEST_REG TEST_LBACK
                  (write_reg C_CAN_CTRL_REG
                     (CONTROL_EIE OR CONTROL_SIE OR CONTROL_IE OR CONTROL_TEST) s)
              else if mode AND CAN_CTRLMODE_LISTENONLY \<noteq> 0 then
                write_reg C_CAN_TEST_REG TEST_SILENT
                  (write_reg C_CAN_CTRL_REG
                     (CONTROL_EIE OR CONTROL_SIE OR CONTROL_IE OR CONTROL_TEST) s)
              else
                write_reg C_CAN_CTRL_REG (CONTROL_EIE OR CONTROL_SIE OR CONTROL_IE) s);
         s = c_can_configure_msg_objects s;
         s = write_reg C_CAN_STS_REG (ucast LEC_UNUSED) s
     in c_can_set_bittiming s)"

subsection \<open>Mode control\<close>

definition c_can_pm_runtime_get_sync :: "c_can \<Rightarrow> c_can" where
  "c_can_pm_runtime_get_sync s = (if device (priv s) then emit Pm_get_sync s else s)"

definition c_can_pm_runtime_put_sync :: "c_can \<Rightarrow> c_can" where
  "c_can_pm_runtime_put_sync s = (if device (priv s) then emit Pm_put_sync s else s)"

definition c_can_reset_ram :: "bool \<Rightarrow> c_can \<Rightarrow> c_can" where
  "c_can_reset_ram enable s = (if raminit (priv s) then emit (Raminit enable) s else s)"

text \<open>\<^verbatim>\<open>c_can_mode_start\<close>. The result is the returned error code (0 for success) and the
  new state. \<^verbatim>\<open>priv->tx_next = priv->tx_echo = 0\<close> assigns \<^verbatim>\<open>tx_echo\<close> first.\<close>

definition c_can_mode_start :: "c_can \<Rightarrow> int \<times> c_can" where
  "c_can_mode_start s =
    (case state (dev s) of
       CAN_STATE_ACTIVE \<Rightarrow> (0, s)
     | CAN_STATE_BUS_WARNING \<Rightarrow> (0, s)
     | CAN_STATE_BUS_PASSIVE \<Rightarrow> (0, s)
     | CAN_STATE_STOPPED \<Rightarrow>
         (let s = emit Irq_request s;
              err = irq_request_result s
          in if err \<noteq> 0 then
               (err, c_can_pm_runtime_put_sync (emit (Dev_err ''couldn't request irq %d'') s))
             else
               (let s = c_can_pm_runtime_get_sync s;
                    s = c_can_reset_ram True s;
                    s = c_can_chip_config s;
                    s = s\<lparr>dev := (dev s)\<lparr>state := CAN_STATE_ERROR_ACTIVE\<rparr>\<rparr>;
                    s = s\<lparr>priv := (priv s)\<lparr>tx_echo := 0\<rparr>\<rparr>;
                    s = s\<lparr>priv := (priv s)\<lparr>tx_next := 0\<rparr>\<rparr>;
                    s = c_can_enable_all_interrupts ENABLE_ALL_INTERRUPTS s;
                    s = emit (Sem_init C_CAN_MSG_OBJ_TX_NUM) s
                in (0, s)))
     | CAN_STATE_BUS_OFF \<Rightarrow>
         (let s = emit (Sem_init C_CAN_MSG_OBJ_TX_NUM) s;
              s = c_can_pm_runtime_get_sync s;
              s = c_can_reset_ram True s;
              s = c_can_chip_config s;
              s = s\<lparr>dev := (dev s)\<lparr>state := CAN_STATE_ERROR_ACTIVE\<rparr>\<rparr>;
              s = s\<lparr>priv := (priv s)\<lparr>tx_echo := 0\<rparr>\<rparr>;
              s = s\<lparr>priv := (priv s)\<lparr>tx_next := 0\<rparr>\<rparr>;
              s = c_can_enable_all_interrupts ENABLE_ALL_INTERRUPTS s
          in (0, s))
     | _ \<Rightarrow> (0, s))"

subsection \<open>What the register operations leave alone\<close>

lemma emit_fields [simp]:
  "regs (emit e s) = regs s" "msg_ram (emit e s) = msg_ram s" "usec (emit e s) = usec s"
  "busy_until (emit e s) = busy_until s" "xfer_usec (emit e s) = xfer_usec s"
  "priv (emit e s) = priv s" "dev (emit e s) = dev s"
  "irq_request_result (emit e s) = irq_request_result s"
  "loopback_pending (emit e s) = loopback_pending s" "stack_skb (emit e s) = stack_skb s"
  "trace (emit e s) = trace s @ [e]"
  by (simp_all add: emit_def)

lemma udelay_fields [simp]:
  "regs (udelay n s) = regs s" "msg_ram (udelay n s) = msg_ram s"
  "usec (udelay n s) = usec s + n"
  "busy_until (udelay n s) = busy_until s" "xfer_usec (udelay n s) = xfer_usec s"
  "priv (udelay n s) = priv s" "dev (udelay n s) = dev s"
  "irq_request_result (udelay n s) = irq_request_result s"
  "loopback_pending (udelay n s) = loopback_pending s" "stack_skb (udelay n s) = stack_skb s"
  "trace (udelay n s) = trace s @ [Udelay n]"
  by (simp_all add: udelay_def)

lemma hw_transfer_fields [simp]:
  "priv (hw_transfer iface val s) = priv s" "dev (hw_transfer iface val s) = dev s"
  "irq_request_result (hw_transfer iface val s) = irq_request_result s"
  "loopback_pending (hw_transfer iface val s) = loopback_pending s"
  "stack_skb (hw_transfer iface val s) = stack_skb s"
  "xfer_usec (hw_transfer iface val s) = xfer_usec s"
  "usec (hw_transfer iface val s) = usec s"
  "trace (hw_transfer iface val s) = trace s"
  by (simp_all add: hw_transfer_def Let_def)

lemma write_reg_fields [simp]:
  "priv (write_reg i v s) = priv s" "dev (write_reg i v s) = dev s"
  "irq_request_result (write_reg i v s) = irq_request_result s"
  "loopback_pending (write_reg i v s) = loopback_pending s"
  "stack_skb (write_reg i v s) = stack_skb s"
  "xfer_usec (write_reg i v s) = xfer_usec s"
  "usec (write_reg i v s) = usec s"
  "trace (write_reg i v s) = trace s @ [Reg_write i v]"
  by (simp_all add: write_reg_def Let_def)

lemma busy_wait_fields [simp]:
  "regs (snd (busy_wait n iface s)) = regs s"
  "msg_ram (snd (busy_wait n iface s)) = msg_ram s"
  "busy_until (snd (busy_wait n iface s)) = busy_until s"
  "xfer_usec (snd (busy_wait n iface s)) = xfer_usec s"
  "priv (snd (busy_wait n iface s)) = priv s" "dev (snd (busy_wait n iface s)) = dev s"
  "irq_request_result (snd (busy_wait n iface s)) = irq_request_result s"
  "loopback_pending (snd (busy_wait n iface s)) = loopback_pending s"
  "stack_skb (snd (busy_wait n iface s)) = stack_skb s"
  by (induction n arbitrary: s; simp)+

lemma c_can_msg_obj_is_busy_fields [simp]:
  "regs (snd (c_can_msg_obj_is_busy iface s)) = regs s"
  "msg_ram (snd (c_can_msg_obj_is_busy iface s)) = msg_ram s"
  "busy_until (snd (c_can_msg_obj_is_busy iface s)) = busy_until s"
  "xfer_usec (snd (c_can_msg_obj_is_busy iface s)) = xfer_usec s"
  "priv (snd (c_can_msg_obj_is_busy iface s)) = priv s"
  "dev (snd (c_can_msg_obj_is_busy iface s)) = dev s"
  "irq_request_result (snd (c_can_msg_obj_is_busy iface s)) = irq_request_result s"
  "loopback_pending (snd (c_can_msg_obj_is_busy iface s)) = loopback_pending s"
  "stack_skb (snd (c_can_msg_obj_is_busy iface s)) = stack_skb s"
  by (simp_all add: c_can_msg_obj_is_busy_def split: prod.split)
     (metis busy_wait_fields snd_conv)+

lemma c_can_object_put_fields [simp]:
  "priv (c_can_object_put iface objno msk s) = priv s"
  "dev (c_can_object_put iface objno msk s) = dev s"
  "irq_request_result (c_can_object_put iface objno msk s) = irq_request_result s"
  "loopback_pending (c_can_object_put iface objno msk s) = loopback_pending s"
  "stack_skb (c_can_object_put iface objno msk s) = stack_skb s"
  "xfer_usec (c_can_object_put iface objno msk s) = xfer_usec s"
  by (simp_all add: c_can_object_put_def Let_def split: prod.split)
     (metis c_can_msg_obj_is_busy_fields write_reg_fields snd_conv)+

lemma c_can_object_get_fields [simp]:
  "priv (c_can_object_get iface objno msk s) = priv s"
  "dev (c_can_object_get iface objno msk s) = dev s"
  "irq_request_result (c_can_object_get iface objno msk s) = irq_request_result s"
  "loopback_pending (c_can_object_get iface objno msk s) = loopback_pending s"
  "stack_skb (c_can_object_get iface objno msk s) = stack_skb s"
  "xfer_usec (c_can_object_get iface objno msk s) = xfer_usec s"
  by (simp_all add: c_can_object_get_def Let_def split: prod.split)
     (metis c_can_msg_obj_is_busy_fields write_reg_fields snd_conv)+

lemma c_can_inval_msg_object_fields [simp]:
  "priv (c_can_inval_msg_object iface objno s) = priv s"
  "dev (c_can_inval_msg_object iface objno s) = dev s"
  "irq_request_result (c_can_inval_msg_object iface objno s) = irq_request_result s"
  "loopback_pending (c_can_inval_msg_object iface objno s) = loopback_pending s"
  "stack_skb (c_can_inval_msg_object iface objno s) = stack_skb s"
  "xfer_usec (c_can_inval_msg_object iface objno s) = xfer_usec s"
  by (simp_all add: c_can_inval_msg_object_def Let_def)

lemma unat_dec: "1 \<le> unat (w::'a::len word) \<Longrightarrow> unat (w - 1) = unat w - 1"
  by (simp add: unat_sub word_le_nat_alt)

lemma word_dec_less: "0 < (a::'a::len word) - b \<Longrightarrow> unat (a - (b + 1)) < unat (a - b)"
proof -
  assume "0 < a - b"
  then have pos: "1 \<le> unat (a - b)" by (simp add: word_less_nat_alt)
  then have u: "unat (a - b - 1) = unat (a - b) - 1" by (rule unat_dec)
  have e: "a - (b + 1) = a - b - 1" by simp
  have "unat (a - b - 1) < unat (a - b)" using pos u by arith
  then show ?thesis by (simp only: e)
qed

subsection \<open>Transmit completion\<close>

text \<open>\<^verbatim>\<open>c_can_do_tx\<close>. The loop condition \<^verbatim>\<open>(priv->tx_next - priv->tx_echo) > 0\<close> is an
  unsigned comparison; \<^verbatim>\<open>rtdm_sem_up(&dev->tx_sem)\<close> is the event \<open>Sem_up\<close>. The test
  \<^verbatim>\<open>val & (1 << (msg_obj_no - 1))\<close> is taken on the 32-bit pattern.\<close>

function do_tx_loop :: "c_can \<Rightarrow> c_can" where
  "do_tx_loop s =
    (if 0 < tx_next (priv s) - tx_echo (priv s) then
       (let msg_obj_no = get_tx_echo_msg_obj (priv s);
            val = c_can_read_reg32 s C_CAN_TXRQST1_REG
        in if val AND push_bit (msg_obj_no - 1) 1 = 0 then
             (let s = c_can_inval_msg_object 0 msg_obj_no s
              in do_tx_loop (s\<lparr>priv := (priv s)\<lparr>tx_echo := tx_echo (priv s) + 1\<rparr>\<rparr>))
           else emit Sem_up s)
     else s)"
  by pat_completeness auto
termination
  by (relation "measure (\<lambda>s. unat (tx_next (priv s) - tx_echo (priv s)))")
     (auto simp add: word_dec_less)

declare do_tx_loop.simps [simp del]

definition c_can_do_tx :: "c_can \<Rightarrow> c_can" where
  "c_can_do_tx s =
    (let s = do_tx_loop s
     in if tx_next (priv s) AND C_CAN_NEXT_MSG_OBJ_MASK \<noteq> 0 \<or>
           tx_echo (priv s) AND C_CAN_NEXT_MSG_OBJ_MASK = 0
        then emit Sem_up s else s)"

subsection \<open>Receive poll\<close>

text \<open>\<^verbatim>\<open>c_can_do_rx_poll\<close>. \<open>rx_poll_body\<close> is the body of the \<^verbatim>\<open>for\<close> loop for a pending
  message object; its first component says whether the function returned from inside the
  loop (end of block). \<open>rx_poll_loop\<close> is the loop: a \<^verbatim>\<open>continue\<close> runs the loop's
  increment expression, which reads the interrupt-pending registers again. The local
  \<^verbatim>\<open>skb\<close> is declared once, uninitialised, and reused by every iteration.\<close>

definition rx_poll_body :: "nat \<Rightarrow> nat \<Rightarrow> rtcan_skb \<Rightarrow> c_can \<Rightarrow> bool \<times> nat \<times> rtcan_skb \<times> c_can" where
  "rx_poll_body msg_obj num_rx_pkts skb s =
    (let s = c_can_object_get 0 msg_obj (IF_COMM_ALL AND NOT IF_COMM_TXRQST) s;
         msg_ctrl_save = read_reg s (C_CAN_IFACE C_CAN_IF1_MSGCTRL_REG 0)
     in if msg_ctrl_save AND IF_MCONT_EOB \<noteq> 0 then (True, num_rx_pkts, skb, s)
        else if msg_ctrl_save AND IF_MCONT_MSGLST \<noteq> 0 then
          (False, num_rx_pkts + 1, skb, c_can_handle_lost_msg_obj 0 msg_obj s)
        else if msg_ctrl_save AND IF_MCONT_NEWDAT = 0 then (False, num_rx_pkts, skb, s)
        else
          (let skb = c_can_read_msg_object 0 msg_ctrl_save skb s;
               s = (if msg_obj < C_CAN_MSG_RX_LOW_LAST then
                      c_can_mark_rx_msg_obj 0 msg_ctrl_save msg_obj s
                    else if msg_obj > C_CAN_MSG_RX_LOW_LAST then
                      c_can_activate_rx_msg_obj 0 msg_ctrl_save msg_obj s
                    else if msg_obj = C_CAN_MSG_RX_LOW_LAST then
                      c_can_activate_all_lower_rx_msg_obj 0 msg_ctrl_save s
                    else s);
               s = emit (Rcv skb) s
           in (False, num_rx_pkts + 1, skb, s)))"

function rx_poll_loop :: "nat \<Rightarrow> u32 \<Rightarrow> nat \<Rightarrow> rtcan_skb \<Rightarrow> c_can \<Rightarrow> nat \<times> c_can" where
  "rx_poll_loop msg_obj val num_rx_pkts skb s =
    (if msg_obj \<le> C_CAN_MSG_OBJ_RX_LAST then
       if val AND push_bit (msg_obj - 1) 1 \<noteq> 0 then
         (case rx_poll_body msg_obj num_rx_pkts skb s of
            (returned, num_rx_pkts, skb, s) \<Rightarrow>
              if returned then (num_rx_pkts, s)
              else rx_poll_loop (msg_obj + 1) (c_can_read_reg32 s C_CAN_INTPND1_REG)
                     num_rx_pkts skb s)
       else rx_poll_loop (msg_obj + 1) (c_can_read_reg32 s C_CAN_INTPND1_REG) num_rx_pkts skb s
     else (num_rx_pkts, s))"
  by pat_completeness auto
termination
  by (relation "measure (\<lambda>(msg_obj, val, n, skb, s). C_CAN_MSG_OBJ_RX_LAST + 1 - msg_obj)") auto

declare rx_poll_loop.simps [simp del]

definition c_can_do_rx_poll :: "c_can \<Rightarrow> nat \<times> c_can" where
  "c_can_do_rx_poll s =
    rx_poll_loop C_CAN_MSG_OBJ_RX_FIRST (c_can_read_reg32 s C_CAN_INTPND1_REG) 0 (stack_skb s) s"

subsection \<open>Bus state and bus errors\<close>

text \<open>\<^verbatim>\<open>c_can_handle_state_change\<close>; it returns 1 on every path, so only the state is kept.
  The local \<^verbatim>\<open>skb\<close> is not initialised. \<^verbatim>\<open>rtdm_sem_destroy(&dev->tx_sem)\<close> is the event
  \<open>Sem_destroy\<close>.\<close>

definition c_can_handle_state_change :: "c_can_bus_error_types \<Rightarrow> c_can \<Rightarrow> c_can" where
  "c_can_handle_state_change error_type s =
    (let skb = stack_skb s;
         cf = rb_frame skb;
         reg_err_counter = (ucast (read_reg s C_CAN_ERR_CNT_REG) :: u32);
         rxerr = (ucast (drop_bit ERR_CNT_REC_SHIFT (reg_err_counter AND ERR_CNT_REC_MASK)) :: u8);
         txerr = (ucast (reg_err_counter AND ERR_CNT_TEC_MASK) :: u8);
         rx_err_passive = drop_bit ERR_CNT_RP_SHIFT (reg_err_counter AND ERR_CNT_RP_MASK)
     in case error_type of
          C_CAN_ERROR_WARNING \<Rightarrow>
            (let s = s\<lparr>dev := (dev s)\<lparr>state := CAN_STATE_ERROR_WARNING\<rparr>\<rparr>;
                 cf = cf\<lparr>can_id := can_id cf OR CAN_ERR_CRTL\<rparr>;
                 cf = cf\<lparr>data := (data cf)(1 := (if txerr > rxerr then CAN_ERR_CRTL_TX_WARNING
                                                   else CAN_ERR_CRTL_RX_WARNING))\<rparr>;
                 cf = cf\<lparr>data := (data cf)(6 := txerr)\<rparr>;
                 cf = cf\<lparr>data := (data cf)(7 := rxerr)\<rparr>
             in emit (Rcv \<lparr>rb_frame = cf, rb_frame_size = EMPTY_RB_FRAME_SIZE + CAN_ERR_DLC\<rparr>) s)
        | C_CAN_ERROR_PASSIVE \<Rightarrow>
            (let s = s\<lparr>dev := (dev s)\<lparr>state := CAN_STATE_ERROR_PASSIVE\<rparr>\<rparr>;
                 cf = cf\<lparr>can_id := can_id cf OR CAN_ERR_CRTL\<rparr>;
                 cf = (if rx_err_passive \<noteq> 0
                       then cf\<lparr>data := (data cf)(1 := data cf 1 OR CAN_ERR_CRTL_RX_PASSIVE)\<rparr>
                       else cf);
                 cf = (if txerr > 127
                       then cf\<lparr>data := (data cf)(1 := data cf 1 OR CAN_ERR_CRTL_TX_PASSIVE)\<rparr>
                       else cf);
                 cf = cf\<lparr>data := (data cf)(6 := txerr)\<rparr>;
                 cf = cf\<lparr>data := (data cf)(7 := rxerr)\<rparr>
             in emit (Rcv \<lparr>rb_frame = cf, rb_frame_size = EMPTY_RB_FRAME_SIZE + CAN_ERR_DLC\<rparr>) s)
        | C_CAN_BUS_OFF \<Rightarrow>
            (let s = s\<lparr>dev := (dev s)\<lparr>state := CAN_STATE_BUS_OFF\<rparr>\<rparr>;
                 cf = cf\<lparr>can_id := can_id cf OR CAN_ERR_BUSOFF\<rparr>;
                 s = c_can_enable_all_interrupts DISABLE_ALL_INTERRUPTS s;
                 s = emit Sem_destroy s
             in emit (Rcv \<lparr>rb_frame = cf, rb_frame_size = EMPTY_RB_FRAME_SIZE + CAN_ERR_DLC\<rparr>) s)
        | C_CAN_NO_ERROR \<Rightarrow> emit (Rcv skb) s)"

text \<open>\<^verbatim>\<open>c_can_handle_bus_err\<close>, with its return value.\<close>

definition c_can_handle_bus_err :: "u32 \<Rightarrow> c_can \<Rightarrow> int \<times> c_can" where
  "c_can_handle_bus_err lec_type s =
    (let cf = rb_frame (stack_skb s)
     in if lec_type = LEC_UNUSED \<or> lec_type = LEC_NO_ERROR then (0, s)
        else
          (let cf = cf\<lparr>can_id := can_id cf OR (CAN_ERR_PROT OR CAN_ERR_BUSERROR)\<rparr>;
               cf = cf\<lparr>data := (data cf)(2 := data cf 2 OR CAN_ERR_PROT_UNSPEC)\<rparr>;
               cf = (if lec_type = LEC_STUFF_ERROR
                       then cf\<lparr>data := (data cf)(2 := data cf 2 OR CAN_ERR_PROT_STUFF)\<rparr>
                     else if lec_type = LEC_FORM_ERROR
                       then cf\<lparr>data := (data cf)(2 := data cf 2 OR CAN_ERR_PROT_FORM)\<rparr>
                     else if lec_type = LEC_ACK_ERROR
                       then cf\<lparr>data := (data cf)(3 := data cf 3 OR
                              (CAN_ERR_PROT_LOC_ACK OR CAN_ERR_PROT_LOC_ACK_DEL))\<rparr>
                     else if lec_type = LEC_BIT1_ERROR
                       then cf\<lparr>data := (data cf)(2 := data cf 2 OR CAN_ERR_PROT_BIT1)\<rparr>
                     else if lec_type = LEC_BIT0_ERROR
                       then cf\<lparr>data := (data cf)(2 := data cf 2 OR CAN_ERR_PROT_BIT0)\<rparr>
                     else if lec_type = LEC_CRC_ERROR
                       then cf\<lparr>data := (data cf)(3 := data cf 3 OR
                              (CAN_ERR_PROT_LOC_CRC_SEQ OR CAN_ERR_PROT_LOC_CRC_DEL))\<rparr>
                     else cf);
               s = write_reg C_CAN_STS_REG (ucast LEC_UNUSED) s
           in (1, emit (Rcv \<lparr>rb_frame = cf,
                             rb_frame_size = EMPTY_RB_FRAME_SIZE + CAN_ERR_DLC\<rparr>) s)))"

subsection \<open>Interrupt handler\<close>

text \<open>The block \<^verbatim>\<open>if (recv_lock_free) { recv_lock_free = 0; rtdm_lock_get(...); rtdm_lock_get(...); }\<close>
  that \<^verbatim>\<open>c_can_interrupt\<close> repeats after each event source.\<close>

definition recv_lock :: "bool \<Rightarrow> c_can \<Rightarrow> bool \<times> c_can" where
  "recv_lock recv_lock_free s =
    (if recv_lock_free
     then (False, emit (Lock_get rtcan_socket_lock) (emit (Lock_get rtcan_recv_list_lock) s))
     else (recv_lock_free, s))"

text \<open>The branch of \<^verbatim>\<open>c_can_interrupt\<close> for \<^verbatim>\<open>priv->irqstatus == STATUS_INTERRUPT\<close>. It
  yields \<^verbatim>\<open>recv_lock_free\<close>, \<^verbatim>\<open>ret\<close> and the state. After the call of \<^verbatim>\<open>c_can_handle_bus_err\<close>,
  which alone depends on \<^verbatim>\<open>lec_type\<close>, the lock block and \<^verbatim>\<open>ret = RTDM_IRQ_HANDLED\<close> run
  unconditionally.\<close>

definition c_can_interrupt_status :: "c_can \<Rightarrow> bool \<times> irq_return \<times> c_can" where
  "c_can_interrupt_status s =
    (let s = s\<lparr>priv := (priv s)\<lparr>current_status := ucast (read_reg s C_CAN_STS_REG)\<rparr>\<rparr>;
         cur = current_status (priv s);
         s = (if cur AND STATUS_TXOK \<noteq> 0
              then write_reg C_CAN_STS_REG (ucast (cur AND NOT STATUS_TXOK)) s else s);
         s = (if cur AND STATUS_RXOK \<noteq> 0
              then write_reg C_CAN_STS_REG (ucast (cur AND NOT STATUS_RXOK)) s else s);
         last = last_status (priv s);
         (recv_lock_free, ret) = (True, RTDM_IRQ_NONE);
         (recv_lock_free, ret, s) =
           (if cur AND STATUS_EWARN \<noteq> 0 \<and> last AND STATUS_EWARN = 0 then
              (let s = c_can_handle_state_change C_CAN_ERROR_WARNING s;
                   (recv_lock_free, s) = recv_lock recv_lock_free s
               in (recv_lock_free, RTDM_IRQ_HANDLED, s))
            else (recv_lock_free, ret, s));
         (recv_lock_free, ret, s) =
           (if cur AND STATUS_EPASS \<noteq> 0 \<and> last AND STATUS_EPASS = 0 then
              (let s = c_can_handle_state_change C_CAN_ERROR_PASSIVE s;
                   (recv_lock_free, s) = recv_lock recv_lock_free s
               in (recv_lock_free, RTDM_IRQ_HANDLED, s))
            else (recv_lock_free, ret, s));
         (recv_lock_free, ret, s) =
           (if cur AND STATUS_BOFF \<noteq> 0 \<and> last AND STATUS_BOFF = 0 then
              (let s = c_can_handle_state_change C_CAN_BUS_OFF s;
                   (recv_lock_free, s) = recv_lock recv_lock_free s
               in (recv_lock_free, RTDM_IRQ_HANDLED, s))
            else (recv_lock_free, ret, s));
         (ret, s) =
           (if cur AND STATUS_BOFF = 0 \<and> last AND STATUS_BOFF \<noteq> 0
            then (RTDM_IRQ_HANDLED, s\<lparr>dev := (dev s)\<lparr>state := CAN_STATE_ERROR_ACTIVE\<rparr>\<rparr>)
            else (ret, s));
         (ret, s) =
           (if cur AND STATUS_EPASS = 0 \<and> last AND STATUS_EPASS \<noteq> 0
            then (RTDM_IRQ_HANDLED, s\<lparr>dev := (dev s)\<lparr>state := CAN_STATE_ERROR_ACTIVE\<rparr>\<rparr>)
            else (ret, s));
         s = s\<lparr>priv := (priv s)\<lparr>last_status := current_status (priv s)\<rparr>\<rparr>;
         lec_type = current_status (priv s) AND LEC_UNUSED;
         s = (if lec_type \<noteq> 0 then snd (c_can_handle_bus_err lec_type s) else s);
         (recv_lock_free, s) = recv_lock recv_lock_free s
     in (recv_lock_free, RTDM_IRQ_HANDLED, s))"

text \<open>\<^verbatim>\<open>c_can_interrupt\<close>: the value read from the interrupt register is stored in
  \<^verbatim>\<open>priv->irqstatus\<close> before it is tested.\<close>

definition c_can_interrupt :: "c_can \<Rightarrow> irq_return \<times> c_can" where
  "c_can_interrupt s =
    (let s = s\<lparr>priv := (priv s)\<lparr>irqstatus := read_reg s C_CAN_INT_REG\<rparr>\<rparr>
     in if irqstatus (priv s) = 0 then (RTDM_IRQ_NONE, s)
        else
          (let s = c_can_enable_all_interrupts DISABLE_ALL_INTERRUPTS s;
               s = emit (Lock_get device_lock) s;
               (recv_lock_free, ret, s) =
                 (if irqstatus (priv s) = STATUS_INTERRUPT then c_can_interrupt_status s
                  else if C_CAN_MSG_OBJ_RX_FIRST \<le> unat (irqstatus (priv s)) \<and>
                          unat (irqstatus (priv s)) \<le> C_CAN_MSG_OBJ_RX_LAST then
                    (let s = snd (c_can_do_rx_poll s);
                         (recv_lock_free, s) = recv_lock True s
                     in (recv_lock_free, RTDM_IRQ_HANDLED, s))
                  else if C_CAN_MSG_OBJ_TX_FIRST \<le> unat (irqstatus (priv s)) \<and>
                          unat (irqstatus (priv s)) \<le> C_CAN_MSG_OBJ_TX_LAST then
                    (let s = c_can_do_tx s;
                         (recv_lock_free, s) =
                           (if loopback_pending s then
                              (let (recv_lock_free, s) = recv_lock True s
                               in (recv_lock_free, emit Loopback s))
                            else (True, s))
                     in (recv_lock_free, RTDM_IRQ_HANDLED, s))
                  else (True, RTDM_IRQ_NONE, s));
               s = (if \<not> recv_lock_free
                    then emit (Lock_put rtcan_recv_list_lock) (emit (Lock_put rtcan_socket_lock) s)
                    else s);
               s = emit (Lock_put device_lock) s;
               s = c_can_enable_all_interrupts ENABLE_ALL_INTERRUPTS s
           in (ret, s)))"

section \<open>Concrete states used to instantiate the theorems\<close>

definition frame0 :: can_frame where
  "frame0 = \<lparr>can_id = 0, can_dlc = 0, data = (\<lambda>_. 0)\<rparr>"

definition skb0 :: rtcan_skb where
  "skb0 = \<lparr>rb_frame = frame0, rb_frame_size = 0\<rparr>"

definition mo0 :: msg_object where
  "mo0 = \<lparr>mo_mask1 = 0, mo_mask2 = 0, mo_arb1 = 0, mo_arb2 = 0, mo_mctrl = 0,
          mo_data1 = 0, mo_data2 = 0, mo_data3 = 0, mo_data4 = 0\<rparr>"

text \<open>The timing of the end-to-end scenario: sjw 2, prop_seg + phase_seg1 = 8,
  phase_seg2 4, prescaler 10.\<close>

definition bt0 :: can_bittime_std where
  "bt0 = \<lparr>brp = 10, prop_seg = 5, phase_seg1 = 3, phase_seg2 = 4, sjw = 2\<rparr>"

definition priv0 :: c_can_priv where
  "priv0 = \<lparr>device = False, bit_time = bt0, current_status = 0, last_status = 0,
            tx_next = 0, tx_echo = 0, irqstatus = 0, raminit = False\<rparr>"

definition sys0 :: c_can where
  "sys0 = \<lparr>regs = (\<lambda>_. 0), msg_ram = (\<lambda>_. mo0), usec = 0, busy_until = (\<lambda>_. 0),
           xfer_usec = 0, priv = priv0,
           dev = \<lparr>state = CAN_STATE_STOPPED, ctrl_mode = 0\<rparr>,
           irq_request_result = 0, loopback_pending = False, stack_skb = skb0, trace = []\<rparr>"

section \<open>Bit timing: the register fields are lossless\<close>

lemma bit_bound: "unat (w::'a::len word) < 2 ^ k \<Longrightarrow> bit w n \<Longrightarrow> n < k"
proof -
  assume a: "unat w < 2 ^ k" and b: "bit w n"
  have "take_bit k (unat w) = unat w" using a by (rule take_bit_nat_eq_self)
  moreover have "bit (unat w) n" using b by (simp add: bit_unsigned_iff bit_imp_possible_bit)
  ultimately have "bit (take_bit k (unat w)) n" by simp
  then show ?thesis by (simp add: bit_take_bit_iff)
qed

lemma mask_numerals:
  "(0x3f::u32) = mask 6" "(0x3::u32) = mask 2" "(0xf::u32) = mask 4" "(0x7::u32) = mask 3"
  by (simp_all add: mask_eq_exp_minus_1)

lemma pack_fields:
  fixes a b c d :: u8
  assumes "unat a < 2 ^ 6" "unat b < 2 ^ 2" "unat c < 2 ^ 4" "unat d < 2 ^ 3"
  defines "r \<equiv> (ucast (ucast a OR push_bit 6 (ucast b) OR push_bit 8 (ucast c) OR push_bit 12 (ucast d) :: u32) :: u16)"
  shows "drop_bit 0 ((ucast r :: u32) AND 0x3f) = ucast a"
    and "drop_bit 6 ((ucast r :: u32) AND push_bit 6 0x3) = ucast b"
    and "drop_bit 8 ((ucast r :: u32) AND push_bit 8 0xf) = ucast c"
    and "drop_bit 12 ((ucast r :: u32) AND push_bit 12 0x7) = ucast d"
proof -
  have A: "\<And>n. bit a n \<Longrightarrow> n < 6" using assms(1) by (rule bit_bound)
  have B: "\<And>n. bit b n \<Longrightarrow> n < 2" using assms(2) by (rule bit_bound)
  have C: "\<And>n. bit c n \<Longrightarrow> n < 4" using assms(3) by (rule bit_bound)
  have D: "\<And>n. bit d n \<Longrightarrow> n < 3" using assms(4) by (rule bit_bound)
  show "drop_bit 0 ((ucast r :: u32) AND 0x3f) = ucast a"
    unfolding r_def mask_numerals
    by (rule bit_word_eqI) (auto simp add: bit_simps dest: A B C D)
  show "drop_bit 6 ((ucast r :: u32) AND push_bit 6 0x3) = ucast b"
    unfolding r_def mask_numerals
    by (rule bit_word_eqI) (auto simp add: bit_simps dest: A B C D)
  show "drop_bit 8 ((ucast r :: u32) AND push_bit 8 0xf) = ucast c"
    unfolding r_def mask_numerals
    by (rule bit_word_eqI) (auto simp add: bit_simps dest: A B C D)
  show "drop_bit 12 ((ucast r :: u32) AND push_bit 12 0x7) = ucast d"
    unfolding r_def mask_numerals
    by (rule bit_word_eqI) (auto simp add: bit_simps dest: A B C D)
qed

lemma set_bittiming_regs:
  "read_reg (c_can_set_bittiming s) C_CAN_BTR_REG = ucast (bittiming_btr (bit_time (priv s)))"
  "read_reg (c_can_set_bittiming s) C_CAN_BRPEXT_REG = ucast (bittiming_brpe (bit_time (priv s)))"
  by (simp_all add: c_can_set_bittiming_def write_reg_def read_reg_def emit_def reg_defs Let_def)

lemma brp_split:
  fixes t :: u32
  assumes "unat t < 1024"
  shows "unat (ucast (ucast (t AND 0x3f) :: u8) :: u32)
         + 64 * unat ((ucast (ucast (ucast (ucast (drop_bit 6 t) :: u8) AND (0xf::u32)) :: u16) :: u32) AND 0xf) = unat t"
proof -
  have T: "\<And>n. bit t n \<Longrightarrow> n < 10" using assms bit_bound[of t 10] by simp
  have 1: "(ucast (ucast (t AND 0x3f) :: u8) :: u32) = take_bit 6 t"
    unfolding mask_numerals
    by (rule bit_word_eqI) (auto simp add: bit_simps)
  have 2: "(ucast (ucast (ucast (ucast (drop_bit 6 t) :: u8) AND (0xf::u32)) :: u16) :: u32) AND 0xf = drop_bit 6 t"
    unfolding mask_numerals
    by (rule bit_word_eqI) (auto simp add: bit_simps dest: T)
  have "unat (take_bit 6 t) + 64 * unat (drop_bit 6 t) = unat t"
    by (simp add: unat_drop_bit_eq unsigned_take_bit_eq take_bit_eq_mod drop_bit_eq_div unat_mod unat_div)
  then show ?thesis by (simp only: 1 2)
qed

text \<open>
  Claim C6. For valid bit-timing parameters (sjw 1..4, prop_seg + phase_seg1 2..16,
  phase_seg2 1..8, prescaler 1..1024), the bit-timing and prescaler-extension registers
  written by \<^verbatim>\<open>c_can_set_bittiming\<close> unpack, with the masks and shifts of the source, to
  the same effective prescaler, sjw, tseg1 and tseg2.
\<close>

theorem c_can_set_bittiming_lossless:
  assumes bt: "bit_time (priv s) = bt"
    and sjw: "1 \<le> unat (sjw bt)" "unat (sjw bt) \<le> 4"
    and tseg1: "2 \<le> unat (prop_seg bt) + unat (phase_seg1 bt)"
               "unat (prop_seg bt) + unat (phase_seg1 bt) \<le> 16"
    and tseg2: "1 \<le> unat (phase_seg2 bt)" "unat (phase_seg2 bt) \<le> 8"
    and brp: "1 \<le> unat (brp bt)" "unat (brp bt) \<le> 1024"
  shows "bittiming_decode (read_reg (c_can_set_bittiming s) C_CAN_BTR_REG)
           (read_reg (c_can_set_bittiming s) C_CAN_BRPEXT_REG) =
         (unat (brp bt), unat (sjw bt), unat (prop_seg bt) + unat (phase_seg1 bt),
          unat (phase_seg2 bt))"
proof -
  define t where "t = brp bt - 1"
  define a where "a = (ucast (t AND 0x3f) :: u8)"
  define b where "b = sjw bt - 1"
  define c where "c = prop_seg bt + phase_seg1 bt - 1"
  define d where "d = phase_seg2 bt - 1"
  have t: "unat t = unat (brp bt) - 1" unfolding t_def using brp by (simp add: unat_dec)
  have ub: "unat b = unat (sjw bt) - 1" unfolding b_def using sjw by (simp add: unat_dec)
  have sum: "unat (prop_seg bt + phase_seg1 bt) = unat (prop_seg bt) + unat (phase_seg1 bt)"
    using tseg1 by (simp add: unat_word_ariths)
  have uc: "unat c = unat (prop_seg bt) + unat (phase_seg1 bt) - 1"
    unfolding c_def using tseg1 sum by (simp add: unat_dec)
  have ud: "unat d = unat (phase_seg2 bt) - 1" unfolding d_def using tseg2 by (simp add: unat_dec)
  have "unat (t AND 0x3f) \<le> unat (0x3f :: u32)"
    by (rule word_and_le1 [THEN word_le_nat_alt [THEN iffD1]])
  moreover have "unat a \<le> unat (t AND 0x3f)"
    unfolding a_def by (simp add: unsigned_ucast_eq take_bit_nat_less_eq_self)
  ultimately have ba: "unat a < 2 ^ 6" by simp
  have bb: "unat b < 2 ^ 2" using ub sjw by simp
  have bc: "unat c < 2 ^ 4" using uc tseg1 by simp
  have bd: "unat d < 2 ^ 3" using ud tseg2 by simp
  have btr: "bittiming_btr bt =
      ucast a OR push_bit 6 (ucast b) OR push_bit 8 (ucast c) OR push_bit 12 (ucast d)"
    by (simp add: bittiming_btr_def Let_def btr_defs a_def b_def c_def d_def t_def)
  have brpe: "bittiming_brpe bt = ucast (ucast (drop_bit 6 t) :: u8) AND 0xf"
    by (simp add: bittiming_brpe_def Let_def btr_defs t_def)
  have f1: "btr_field BTR_BRP_MASK BTR_BRP_SHIFT (ucast (bittiming_btr bt)) +
            64 * btr_field BRP_EXT_BRPE_MASK BRP_EXT_BRPE_SHIFT (ucast (bittiming_brpe bt)) = unat t"
    using brp_split [of t] t brp pack_fields(1) [OF ba bb bc bd]
    by (simp add: btr_field_def btr_defs btr brpe a_def)
  have f2: "btr_field BTR_SJW_MASK BTR_SJW_SHIFT (ucast (bittiming_btr bt)) = unat b"
    unfolding btr_field_def btr_defs btr
    by (simp only: pack_fields(2) [OF ba bb bc bd]) (simp add: unsigned_ucast_eq take_bit_nat_eq_self_iff order_less_trans [OF unsigned_less])
  have f3: "btr_field BTR_TSEG1_MASK BTR_TSEG1_SHIFT (ucast (bittiming_btr bt)) = unat c"
    unfolding btr_field_def btr_defs btr
    by (simp only: pack_fields(3) [OF ba bb bc bd]) (simp add: unsigned_ucast_eq take_bit_nat_eq_self_iff order_less_trans [OF unsigned_less])
  have f4: "btr_field BTR_TSEG2_MASK BTR_TSEG2_SHIFT (ucast (bittiming_btr bt)) = unat d"
    unfolding btr_field_def btr_defs btr
    by (simp only: pack_fields(4) [OF ba bb bc bd]) (simp add: unsigned_ucast_eq take_bit_nat_eq_self_iff order_less_trans [OF unsigned_less])
  show ?thesis
    using f1 f2 f3 f4 t ub uc ud sjw tseg1 tseg2 brp
    by (simp add: bittiming_decode_def set_bittiming_regs bt)
qed

theorem c_can_set_bittiming_lossless_witness:
  "bit_time (priv sys0) = bt0 \<and> unat (sjw bt0) = 2 \<and>
   unat (prop_seg bt0) + unat (phase_seg1 bt0) = 8 \<and> unat (phase_seg2 bt0) = 4 \<and>
   unat (brp bt0) = 10 \<and>
   bittiming_decode (read_reg (c_can_set_bittiming sys0) C_CAN_BTR_REG)
     (read_reg (c_can_set_bittiming sys0) C_CAN_BRPEXT_REG) = (10, 2, 8, 4)"
  using c_can_set_bittiming_lossless [of sys0 bt0]
  by (simp add: sys0_def priv0_def bt0_def)

section \<open>Polling the busy flag\<close>

lemma busy_wait_trace:
  "\<exists>k\<le>n. fst (busy_wait n iface s) = n - k \<and>
          trace (snd (busy_wait n iface s)) = trace s @ replicate k (Udelay 1) \<and>
          usec (snd (busy_wait n iface s)) = usec s + k"
proof (induction n arbitrary: s)
  case 0
  then show ?case by simp
next
  case (Suc n)
  show ?case
  proof (cases "read_reg s (C_CAN_IFACE C_CAN_IF1_COMREQ_REG iface) AND IF_COMR_BUSY \<noteq> 0")
    case True
    from Suc.IH [of "udelay 1 s"] obtain k where k: "k \<le> n"
      "fst (busy_wait n iface (udelay 1 s)) = n - k"
      "trace (snd (busy_wait n iface (udelay 1 s))) = trace (udelay 1 s) @ replicate k (Udelay 1)"
      "usec (snd (busy_wait n iface (udelay 1 s))) = usec (udelay 1 s) + k"
      by blast
    have "Suc k \<le> Suc n \<and> fst (busy_wait (Suc n) iface s) = Suc n - Suc k \<and>
          trace (snd (busy_wait (Suc n) iface s)) = trace s @ replicate (Suc k) (Udelay 1) \<and>
          usec (snd (busy_wait (Suc n) iface s)) = usec s + Suc k"
      using True k by simp
    then show ?thesis by blast
  next
    case False
    then have "0 \<le> Suc n \<and> fst (busy_wait (Suc n) iface s) = Suc n - 0 \<and>
          trace (snd (busy_wait (Suc n) iface s)) = trace s @ replicate 0 (Udelay 1) \<and>
          usec (snd (busy_wait (Suc n) iface s)) = usec s + 0"
      by simp
    then show ?thesis by blast
  qed
qed

lemma c_can_msg_obj_is_busy_trace:
  "\<exists>k\<le>MIN_TIMEOUT_VALUE.
     fst (c_can_msg_obj_is_busy iface s) = (if k = MIN_TIMEOUT_VALUE then 1 else 0) \<and>
     trace (snd (c_can_msg_obj_is_busy iface s)) = trace s @ replicate k (Udelay 1) \<and>
     usec (snd (c_can_msg_obj_is_busy iface s)) = usec s + k"
proof -
  from busy_wait_trace [of MIN_TIMEOUT_VALUE iface s] obtain k where k:
    "k \<le> MIN_TIMEOUT_VALUE"
    "fst (busy_wait MIN_TIMEOUT_VALUE iface s) = MIN_TIMEOUT_VALUE - k"
    "trace (snd (busy_wait MIN_TIMEOUT_VALUE iface s)) = trace s @ replicate k (Udelay 1)"
    "usec (snd (busy_wait MIN_TIMEOUT_VALUE iface s)) = usec s + k"
    by blast
  have "fst (c_can_msg_obj_is_busy iface s) = (if k = MIN_TIMEOUT_VALUE then 1 else 0)"
    using k(1,2) by (auto simp add: c_can_msg_obj_is_busy_def split: prod.split)
  moreover have "snd (c_can_msg_obj_is_busy iface s) = snd (busy_wait MIN_TIMEOUT_VALUE iface s)"
    by (simp add: c_can_msg_obj_is_busy_def split: prod.split)
  ultimately show ?thesis using k by auto
qed

lemma c_can_object_get_trace:
  "\<exists>k\<le>MIN_TIMEOUT_VALUE.
      trace (c_can_object_get iface objno msk s) =
        trace s @ [Reg_write (C_CAN_IFACE C_CAN_IF1_COMMSK_REG iface) msk,
                   Reg_write (C_CAN_IFACE C_CAN_IF1_COMREQ_REG iface) (of_nat objno)] @
        replicate k (Udelay 1) @
        (if k = MIN_TIMEOUT_VALUE then [Dev_err ''timed out in object get''] else []) \<and>
      usec (c_can_object_get iface objno msk s) = usec s + k"
proof -
  define g where "g = write_reg (C_CAN_IFACE C_CAN_IF1_COMREQ_REG iface) (of_nat objno)
    (write_reg (C_CAN_IFACE C_CAN_IF1_COMMSK_REG iface) msk s)"
  from c_can_msg_obj_is_busy_trace [of iface g] obtain k where k:
    "k \<le> MIN_TIMEOUT_VALUE"
    "fst (c_can_msg_obj_is_busy iface g) = (if k = MIN_TIMEOUT_VALUE then 1 else 0)"
    "trace (snd (c_can_msg_obj_is_busy iface g)) = trace g @ replicate k (Udelay 1)"
    "usec (snd (c_can_msg_obj_is_busy iface g)) = usec g + k"
    by blast
  have get: "c_can_object_get iface objno msk s =
      (if fst (c_can_msg_obj_is_busy iface g) \<noteq> 0
       then emit (Dev_err ''timed out in object get'') (snd (c_can_msg_obj_is_busy iface g))
       else snd (c_can_msg_obj_is_busy iface g))"
    by (simp add: c_can_object_get_def g_def Let_def split: prod.split)
  have "trace (c_can_object_get iface objno msk s) =
        trace s @ [Reg_write (C_CAN_IFACE C_CAN_IF1_COMMSK_REG iface) msk,
                   Reg_write (C_CAN_IFACE C_CAN_IF1_COMREQ_REG iface) (of_nat objno)] @
        replicate k (Udelay 1) @
        (if k = MIN_TIMEOUT_VALUE then [Dev_err ''timed out in object get''] else []) \<and>
      usec (c_can_object_get iface objno msk s) = usec s + k"
    using k by (simp add: get g_def)
  then show ?thesis using k(1) by blast
qed

lemma c_can_object_put_trace:
  "\<exists>k\<le>MIN_TIMEOUT_VALUE.
      trace (c_can_object_put iface objno msk s) =
        trace s @ [Reg_write (C_CAN_IFACE C_CAN_IF1_COMMSK_REG iface) (IF_COMM_WR OR msk),
                   Reg_write (C_CAN_IFACE C_CAN_IF1_COMREQ_REG iface) (of_nat objno)] @
        replicate k (Udelay 1) @
        (if k = MIN_TIMEOUT_VALUE then [Dev_err ''timed out in object put''] else []) \<and>
      usec (c_can_object_put iface objno msk s) = usec s + k"
proof -
  define p where "p = write_reg (C_CAN_IFACE C_CAN_IF1_COMREQ_REG iface) (of_nat objno)
    (write_reg (C_CAN_IFACE C_CAN_IF1_COMMSK_REG iface) (IF_COMM_WR OR msk) s)"
  from c_can_msg_obj_is_busy_trace [of iface p] obtain j where j:
    "j \<le> MIN_TIMEOUT_VALUE"
    "fst (c_can_msg_obj_is_busy iface p) = (if j = MIN_TIMEOUT_VALUE then 1 else 0)"
    "trace (snd (c_can_msg_obj_is_busy iface p)) = trace p @ replicate j (Udelay 1)"
    "usec (snd (c_can_msg_obj_is_busy iface p)) = usec p + j"
    by blast
  have put: "c_can_object_put iface objno msk s =
      (if fst (c_can_msg_obj_is_busy iface p) \<noteq> 0
       then emit (Dev_err ''timed out in object put'') (snd (c_can_msg_obj_is_busy iface p))
       else snd (c_can_msg_obj_is_busy iface p))"
    by (simp add: c_can_object_put_def p_def Let_def split: prod.split)
  have "trace (c_can_object_put iface objno msk s) =
        trace s @ [Reg_write (C_CAN_IFACE C_CAN_IF1_COMMSK_REG iface) (IF_COMM_WR OR msk),
                   Reg_write (C_CAN_IFACE C_CAN_IF1_COMREQ_REG iface) (of_nat objno)] @
        replicate j (Udelay 1) @
        (if j = MIN_TIMEOUT_VALUE then [Dev_err ''timed out in object put''] else []) \<and>
      usec (c_can_object_put iface objno msk s) = usec s + j"
    using j by (simp add: put p_def)
  then show ?thesis using j(1) by blast
qed

section \<open>Register and transfer lemmas\<close>

fun is_sem_up :: "event \<Rightarrow> bool" where
  "is_sem_up Sem_up = True"
| "is_sem_up _ = False"

fun is_rcv :: "event \<Rightarrow> bool" where
  "is_rcv (Rcv skb) = True"
| "is_rcv _ = False"

definition sem_ups :: "event list \<Rightarrow> nat" where
  "sem_ups tr = length (filter is_sem_up tr)"

definition rcvs :: "event list \<Rightarrow> rtcan_skb list" where
  "rcvs tr = concat (map (\<lambda>e. case e of Rcv skb \<Rightarrow> [skb] | _ \<Rightarrow> []) tr)"

lemma sem_ups_simps [simp]:
  "sem_ups [] = 0" "sem_ups (tr @ tr') = sem_ups tr + sem_ups tr'"
  "sem_ups (e # tr) = (if is_sem_up e then 1 else 0) + sem_ups tr"
  "sem_ups (replicate k (Udelay n)) = 0"
  by (simp_all add: sem_ups_def)

lemma rcvs_simps [simp]:
  "rcvs [] = []" "rcvs (tr @ tr') = rcvs tr @ rcvs tr'"
  "rcvs (e # tr) = (case e of Rcv skb \<Rightarrow> [skb] | _ \<Rightarrow> []) @ rcvs tr"
  "rcvs (replicate k (Udelay n)) = []"
  by (simp_all add: rcvs_def)

lemma iface0 [simp]: "C_CAN_IFACE r 0 = r"
  by (simp add: C_CAN_IFACE_def)

lemma read_reg_plain:
  assumes "i \<noteq> C_CAN_IF1_COMREQ_REG" "i \<noteq> C_CAN_IF2_COMREQ_REG" "i < C_CAN_TXRQST1_REG"
  shows "read_reg s i = regs s i"
  using assms by (simp add: read_reg_def reg_defs)

lemma write_reg_plain:
  assumes "i \<noteq> C_CAN_IF1_COMREQ_REG" "i \<noteq> C_CAN_IF2_COMREQ_REG" "i < C_CAN_TXRQST1_REG"
  shows "regs (write_reg i v s) = (regs s)(i := v)"
    and "msg_ram (write_reg i v s) = msg_ram s"
    and "busy_until (write_reg i v s) = busy_until s"
  using assms by (simp_all add: write_reg_def reg_defs Let_def)

lemma unat_objno: "objno \<le> 32 \<Longrightarrow> unat (of_nat objno :: u16) = objno"
  by (simp add: unsigned_of_nat take_bit_nat_eq_self)

lemma wr_set: "(IF_COMM_WR OR msk) AND IF_COMM_WR \<noteq> 0"
proof -
  have "bit ((IF_COMM_WR OR msk) AND IF_COMM_WR) 7"
    by (simp add: bit_simps IF_COMM_WR_def)
  then show ?thesis by (auto simp del: bit_and_iff)
qed

lemma wr_nonzero: "IF_COMM_WR \<noteq> 0"
  by (simp add: IF_COMM_WR_def)

lemma obj_store_upd:
  "i < C_CAN_IF1_MASK1_REG \<Longrightarrow> obj_store cmd (r(i := v)) m = obj_store cmd r m"
  by (simp add: obj_store_def reg_defs)

lemma c_can_object_put0:
  "regs (c_can_object_put 0 objno msk s) =
     (regs s)(C_CAN_IF1_COMMSK_REG := IF_COMM_WR OR msk, C_CAN_IF1_COMREQ_REG := of_nat objno)"
  "1 \<le> objno \<Longrightarrow> objno \<le> 32 \<Longrightarrow> msg_ram (c_can_object_put 0 objno msk s) =
     (msg_ram s)(objno := obj_store (IF_COMM_WR OR msk) (regs s) (msg_ram s objno))"
proof -
  define s1 where "s1 = write_reg C_CAN_IF1_COMMSK_REG (IF_COMM_WR OR msk) s"
  define s2 where "s2 = write_reg C_CAN_IF1_COMREQ_REG (of_nat objno) s1"
  have r1: "regs s1 = (regs s)(C_CAN_IF1_COMMSK_REG := IF_COMM_WR OR msk)" "msg_ram s1 = msg_ram s"
    unfolding s1_def by (simp_all add: write_reg_plain reg_defs)
  have cmd: "regs s1 C_CAN_IF1_COMMSK_REG = IF_COMM_WR OR msk" by (simp add: r1)
  have put: "c_can_object_put 0 objno msk s =
      (if fst (c_can_msg_obj_is_busy 0 s2) \<noteq> 0
       then emit (Dev_err ''timed out in object put'') (snd (c_can_msg_obj_is_busy 0 s2))
       else snd (c_can_msg_obj_is_busy 0 s2))"
    by (simp add: c_can_object_put_def s1_def s2_def Let_def split: prod.split)
  have "regs s2 = (regs s1)(C_CAN_IF1_COMREQ_REG := of_nat objno)"
    unfolding s2_def
    by (simp add: write_reg_def hw_transfer_def Let_def cmd wr_set wr_nonzero)
  then show "regs (c_can_object_put 0 objno msk s) =
     (regs s)(C_CAN_IF1_COMMSK_REG := IF_COMM_WR OR msk, C_CAN_IF1_COMREQ_REG := of_nat objno)"
    by (simp add: put r1)
  assume o: "1 \<le> objno" "objno \<le> 32"
  have "msg_ram s2 = (msg_ram s1)(objno := obj_store (IF_COMM_WR OR msk) (regs s1) (msg_ram s1 objno))"
    unfolding s2_def using o
    by (simp add: write_reg_def hw_transfer_def Let_def cmd wr_set wr_nonzero unat_objno)
  then show "msg_ram (c_can_object_put 0 objno msk s) =
     (msg_ram s)(objno := obj_store (IF_COMM_WR OR msk) (regs s) (msg_ram s objno))"
    by (simp add: put r1 obj_store_upd reg_defs)
qed

lemma c_can_object_get0:
  assumes "1 \<le> objno" "objno \<le> 32" "msk AND IF_COMM_WR = 0"
  shows "regs (c_can_object_get 0 objno msk s) =
     obj_load msk 0 (msg_ram s objno)
       ((regs s)(C_CAN_IF1_COMMSK_REG := msk, C_CAN_IF1_COMREQ_REG := of_nat objno))"
    and "msg_ram (c_can_object_get 0 objno msk s) = msg_ram s"
proof -
  define s1 where "s1 = write_reg C_CAN_IF1_COMMSK_REG msk s"
  define s2 where "s2 = write_reg C_CAN_IF1_COMREQ_REG (of_nat objno) s1"
  have r1: "regs s1 = (regs s)(C_CAN_IF1_COMMSK_REG := msk)" "msg_ram s1 = msg_ram s"
    unfolding s1_def by (simp_all add: write_reg_plain reg_defs)
  have cmd: "regs s1 C_CAN_IF1_COMMSK_REG = msk" by (simp add: r1)
  have get: "c_can_object_get 0 objno msk s =
      (if fst (c_can_msg_obj_is_busy 0 s2) \<noteq> 0
       then emit (Dev_err ''timed out in object get'') (snd (c_can_msg_obj_is_busy 0 s2))
       else snd (c_can_msg_obj_is_busy 0 s2))"
    by (simp add: c_can_object_get_def s1_def s2_def Let_def split: prod.split)
  have "regs s2 = obj_load msk 0 (msg_ram s1 objno) ((regs s1)(C_CAN_IF1_COMREQ_REG := of_nat objno))"
     and "msg_ram s2 = msg_ram s1"
    unfolding s2_def using assms
    by (simp_all add: write_reg_def hw_transfer_def Let_def cmd unat_objno)
  then show "regs (c_can_object_get 0 objno msk s) =
     obj_load msk 0 (msg_ram s objno)
       ((regs s)(C_CAN_IF1_COMMSK_REG := msk, C_CAN_IF1_COMREQ_REG := of_nat objno))"
    and "msg_ram (c_can_object_get 0 objno msk s) = msg_ram s"
    by (simp_all add: get r1)
qed

lemma trace_put_obtain:
  obtains tr where "trace (c_can_object_put iface objno msk s) = trace s @ tr"
    "sem_ups tr = 0" "rcvs tr = []"
proof -
  from c_can_object_put_trace [of iface objno msk s] obtain k where
    "trace (c_can_object_put iface objno msk s) =
        trace s @ [Reg_write (C_CAN_IFACE C_CAN_IF1_COMMSK_REG iface) (IF_COMM_WR OR msk),
                   Reg_write (C_CAN_IFACE C_CAN_IF1_COMREQ_REG iface) (of_nat objno)] @
        replicate k (Udelay 1) @
        (if k = MIN_TIMEOUT_VALUE then [Dev_err ''timed out in object put''] else [])"
    by blast
  then show ?thesis by (rule that) simp_all
qed

lemma trace_get_obtain:
  obtains tr where "trace (c_can_object_get iface objno msk s) = trace s @ tr"
    "sem_ups tr = 0" "rcvs tr = []"
proof -
  from c_can_object_get_trace [of iface objno msk s] obtain k where
    "trace (c_can_object_get iface objno msk s) =
        trace s @ [Reg_write (C_CAN_IFACE C_CAN_IF1_COMMSK_REG iface) msk,
                   Reg_write (C_CAN_IFACE C_CAN_IF1_COMREQ_REG iface) (of_nat objno)] @
        replicate k (Udelay 1) @
        (if k = MIN_TIMEOUT_VALUE then [Dev_err ''timed out in object get''] else [])"
    by blast
  then show ?thesis by (rule that) simp_all
qed

lemma sem_ups_put [simp]: "sem_ups (trace (c_can_object_put iface objno msk s)) = sem_ups (trace s)"
proof -
  obtain tr where tr: "trace (c_can_object_put iface objno msk s) = trace s @ tr"
    "sem_ups tr = 0" "rcvs tr = []"
    by (rule trace_put_obtain)
  show ?thesis by (simp add: tr)
qed

lemma sem_ups_get [simp]: "sem_ups (trace (c_can_object_get iface objno msk s)) = sem_ups (trace s)"
proof -
  obtain tr where tr: "trace (c_can_object_get iface objno msk s) = trace s @ tr"
    "sem_ups tr = 0" "rcvs tr = []"
    by (rule trace_get_obtain)
  show ?thesis by (simp add: tr)
qed

lemma rcvs_put [simp]: "rcvs (trace (c_can_object_put iface objno msk s)) = rcvs (trace s)"
proof -
  obtain tr where tr: "trace (c_can_object_put iface objno msk s) = trace s @ tr"
    "sem_ups tr = 0" "rcvs tr = []"
    by (rule trace_put_obtain)
  show ?thesis by (simp add: tr)
qed

lemma rcvs_get [simp]: "rcvs (trace (c_can_object_get iface objno msk s)) = rcvs (trace s)"
proof -
  obtain tr where tr: "trace (c_can_object_get iface objno msk s) = trace s @ tr"
    "sem_ups tr = 0" "rcvs tr = []"
    by (rule trace_get_obtain)
  show ?thesis by (simp add: tr)
qed

lemma sem_ups_inval [simp]:
  "sem_ups (trace (c_can_inval_msg_object iface objno s)) = sem_ups (trace s)"
  by (simp add: c_can_inval_msg_object_def Let_def)

lemma read_reg_emit [simp]: "read_reg (emit e s) i = read_reg s i"
  by (simp only: read_reg_def emit_fields)

lemma read_reg32_emit [simp]: "c_can_read_reg32 (emit e s) i = c_can_read_reg32 s i"
  by (simp only: c_can_read_reg32_def read_reg_emit)

text \<open>The transmit slot the scan stands at still has its transmit request set.\<close>

definition tx_head_busy :: "c_can \<Rightarrow> bool" where
  "tx_head_busy s =
    (c_can_read_reg32 s C_CAN_TXRQST1_REG AND push_bit (get_tx_echo_msg_obj (priv s) - 1) 1 \<noteq> 0)"

section \<open>Transmit completion: released admission units\<close>

lemma do_tx_loop_props:
  "tx_next (priv (do_tx_loop s)) = tx_next (priv s) \<and>
   sem_ups (trace (do_tx_loop s)) =
     sem_ups (trace s) + (if tx_echo (priv (do_tx_loop s)) = tx_next (priv s) then 0 else 1) \<and>
   (tx_echo (priv (do_tx_loop s)) = tx_next (priv s) \<or> tx_head_busy (do_tx_loop s))"
proof (induction s rule: do_tx_loop.induct)
  case (1 s)
  show ?case
  proof (cases "0 < tx_next (priv s) - tx_echo (priv s)")
    case False
    then have eq: "tx_echo (priv s) = tx_next (priv s)" by (simp add: word_greater_zero_iff)
    have step: "do_tx_loop s = s"
      using False by (subst do_tx_loop.simps) simp
    show ?thesis unfolding step using eq by simp
  next
    case pos: True
    then have ne: "tx_echo (priv s) \<noteq> tx_next (priv s)" by auto
    show ?thesis
    proof (cases "c_can_read_reg32 s C_CAN_TXRQST1_REG AND
                    push_bit (get_tx_echo_msg_obj (priv s) - 1) 1 = 0")
      case True
      define s1 where "s1 = c_can_inval_msg_object 0 (get_tx_echo_msg_obj (priv s)) s"
      define s2 where "s2 = s1\<lparr>priv := (priv s1)\<lparr>tx_echo := tx_echo (priv s1) + 1\<rparr>\<rparr>"
      have step: "do_tx_loop s = do_tx_loop s2"
        using pos True by (subst do_tx_loop.simps) (simp add: Let_def s1_def s2_def)
      have ih: "tx_next (priv (do_tx_loop s2)) = tx_next (priv s2) \<and>
         sem_ups (trace (do_tx_loop s2)) =
           sem_ups (trace s2) + (if tx_echo (priv (do_tx_loop s2)) = tx_next (priv s2) then 0 else 1) \<and>
         (tx_echo (priv (do_tx_loop s2)) = tx_next (priv s2) \<or> tx_head_busy (do_tx_loop s2))"
        unfolding s2_def using "1.IH" [OF pos refl refl True s1_def] .
      have p2: "tx_next (priv s2) = tx_next (priv s)" by (simp add: s2_def s1_def)
      have t2: "sem_ups (trace s2) = sem_ups (trace s)" by (simp add: s2_def s1_def)
      show ?thesis unfolding step using ih by (simp only: p2 t2) 
    next
      case False
      have step: "do_tx_loop s = emit Sem_up s"
        using pos False by (subst do_tx_loop.simps) (simp add: Let_def)
      have "tx_head_busy (emit Sem_up s)" using False by (simp add: tx_head_busy_def)
      then show ?thesis unfolding step using ne by simp
    qed
  qed
qed

lemma bit_obj_bits: "bit (obj_bits p ram base) n \<longleftrightarrow> n < 16 \<and> p (ram (base + n + 1))"
  by (auto simp add: obj_bits_def bit_horner_sum_bit_word_iff)

lemma bit_read_reg32_txrqst:
  "bit (c_can_read_reg32 s C_CAN_TXRQST1_REG) n \<longleftrightarrow> n < 32 \<and> mo_txrqst (msg_ram s (n + 1))"
proof -
  have r: "read_reg s C_CAN_TXRQST1_REG = obj_bits mo_txrqst (msg_ram s) 0"
          "read_reg s (C_CAN_TXRQST1_REG + 1) = obj_bits mo_txrqst (msg_ram s) 16"
    by (simp_all add: read_reg_def reg_defs)
  show ?thesis
    unfolding c_can_read_reg32_def Let_def r
    by (auto simp add: bit_simps bit_obj_bits)
qed

lemma bit_read_reg32_intpnd:
  "bit (c_can_read_reg32 s C_CAN_INTPND1_REG) n \<longleftrightarrow> n < 32 \<and> mo_intpnd (msg_ram s (n + 1))"
proof -
  have r: "read_reg s C_CAN_INTPND1_REG = obj_bits mo_intpnd (msg_ram s) 0"
          "read_reg s (C_CAN_INTPND1_REG + 1) = obj_bits mo_intpnd (msg_ram s) 16"
    by (simp_all add: read_reg_def reg_defs)
  show ?thesis
    unfolding c_can_read_reg32_def Let_def r
    by (auto simp add: bit_simps bit_obj_bits)
qed

lemma txrqst_test:
  "(c_can_read_reg32 s C_CAN_TXRQST1_REG AND push_bit k 1 = 0) =
     (\<not> (k < 32 \<and> mo_txrqst (msg_ram s (k + 1))))"
  using bit_read_reg32_txrqst [of s k]
        bit_iff_and_push_bit_not_eq_0 [of "c_can_read_reg32 s C_CAN_TXRQST1_REG" k]
  by blast

lemma intpnd_test:
  "(c_can_read_reg32 s C_CAN_INTPND1_REG AND push_bit k 1 \<noteq> 0) =
     (k < 32 \<and> mo_intpnd (msg_ram s (k + 1)))"
  using bit_read_reg32_intpnd [of s k]
        bit_iff_and_push_bit_not_eq_0 [of "c_can_read_reg32 s C_CAN_INTPND1_REG" k]
  by blast

lemma c_can_inval_msg_object0:
  assumes "1 \<le> n" "n \<le> 32"
  shows "msg_ram (c_can_inval_msg_object 0 n s) =
           (msg_ram s)(n := (msg_ram s n)\<lparr>mo_arb1 := 0, mo_arb2 := 0, mo_mctrl := 0\<rparr>)"
proof -
  define s3 where "s3 = write_reg C_CAN_IF1_MSGCTRL_REG 0
     (write_reg C_CAN_IF1_ARB2_REG 0 (write_reg C_CAN_IF1_ARB1_REG 0 s))"
  have r: "regs s3 = (regs s)(C_CAN_IF1_ARB1_REG := 0, C_CAN_IF1_ARB2_REG := 0,
              C_CAN_IF1_MSGCTRL_REG := 0)" "msg_ram s3 = msg_ram s"
    unfolding s3_def by (simp_all add: write_reg_plain reg_defs)
  have "c_can_inval_msg_object 0 n s = c_can_object_put 0 n (IF_COMM_ARB OR IF_COMM_CONTROL) s3"
    by (simp add: c_can_inval_msg_object_def s3_def Let_def)
  then show ?thesis
    using assms
    by (cases "msg_ram s n") (simp add: c_can_object_put0 r obj_store_def comm_defs reg_defs)
qed


lemma get_tx_echo_msg_obj_range:
  "17 \<le> get_tx_echo_msg_obj p" "get_tx_echo_msg_obj p \<le> 32"
proof -
  have "unat (tx_echo p AND 15) \<le> unat (15 :: u32)"
    by (rule word_and_le1 [THEN word_le_nat_alt [THEN iffD1]])
  then show "17 \<le> get_tx_echo_msg_obj p" "get_tx_echo_msg_obj p \<le> 32"
    by (simp_all add: get_tx_echo_msg_obj_def obj_defs)
qed

lemma get_tx_next_msg_obj_range:
  "17 \<le> get_tx_next_msg_obj p" "get_tx_next_msg_obj p \<le> 32"
proof -
  have "unat (tx_next p AND 15) \<le> unat (15 :: u32)"
    by (rule word_and_le1 [THEN word_le_nat_alt [THEN iffD1]])
  then show "17 \<le> get_tx_next_msg_obj p" "get_tx_next_msg_obj p \<le> 32"
    by (simp_all add: get_tx_next_msg_obj_def obj_defs)
qed

text \<open>The transmit scan in terms of the message RAM: the tested bit of the
  transmit-request registers is the transmit-request bit of the slot at \<open>tx_echo\<close>.\<close>

lemma do_tx_loop_unfold:
  "do_tx_loop s =
    (if tx_next (priv s) \<noteq> tx_echo (priv s) then
       if \<not> mo_txrqst (msg_ram s (get_tx_echo_msg_obj (priv s))) then
         do_tx_loop ((c_can_inval_msg_object 0 (get_tx_echo_msg_obj (priv s)) s)
           \<lparr>priv := (priv s)\<lparr>tx_echo := tx_echo (priv s) + 1\<rparr>\<rparr>)
       else emit Sem_up s
     else s)"
proof -
  have pos: "(0 < tx_next (priv s) - tx_echo (priv s)) = (tx_next (priv s) \<noteq> tx_echo (priv s))"
    by (simp add: word_greater_zero_iff)
  have k: "get_tx_echo_msg_obj (priv s) - 1 < 32"
          "get_tx_echo_msg_obj (priv s) - 1 + 1 = get_tx_echo_msg_obj (priv s)"
    using get_tx_echo_msg_obj_range [of "priv s"] by simp_all
  have tst: "(c_can_read_reg32 s C_CAN_TXRQST1_REG AND
               push_bit (get_tx_echo_msg_obj (priv s) - 1) 1 = 0) =
             (\<not> mo_txrqst (msg_ram s (get_tx_echo_msg_obj (priv s))))"
    by (simp only: txrqst_test k simp_thms)
  show ?thesis
    by (subst do_tx_loop.simps) (simp only: pos tst Let_def c_can_inval_msg_object_fields)
qed

definition sys_tx3 :: c_can where
  "sys_tx3 = sys0\<lparr>priv := priv0\<lparr>tx_next := 3\<rparr>\<rparr>"

lemma tx3_eval:
  "tx_echo (priv (do_tx_loop sys_tx3)) = 3"
  "sem_ups (trace (do_tx_loop sys_tx3)) = 0"
  by (simp_all add: do_tx_loop_unfold sys_tx3_def sys0_def priv0_def
     get_tx_echo_msg_obj_def obj_defs c_can_inval_msg_object0 mo_txrqst_def mo0_def)

section \<open>Encoding a frame into a message object\<close>

text \<open>The 16-bit word the encoder writes for the byte pair starting at index \<open>j\<close>.\<close>

definition data_pair :: "can_frame \<Rightarrow> nat \<Rightarrow> u16" where
  "data_pair frame j = ucast (data frame j) OR push_bit 8 (ucast (data frame (j + 1)))"

lemma write_msg_object_data0:
  assumes "unat (can_dlc f) \<le> 8" "even i"
  shows "regs (write_msg_object_data i 0 f s) r =
           (if C_CAN_IF1_DATA1_REG + i div 2 \<le> r \<and>
                    r < C_CAN_IF1_DATA1_REG + (unat (can_dlc f) + 1) div 2
                 then data_pair f (2 * (r - C_CAN_IF1_DATA1_REG)) else regs s r) \<and>
         msg_ram (write_msg_object_data i 0 f s) = msg_ram s \<and>
         busy_until (write_msg_object_data i 0 f s) = busy_until s"
  using assms
proof (induction i "0::nat" f s rule: write_msg_object_data.induct)
  case (1 i f s)
  show ?case
  proof (cases "i < unat (can_dlc f)")
    case False
    have step: "write_msg_object_data i 0 f s = s"
      using False by (subst write_msg_object_data.simps) simp
    have "\<not> (C_CAN_IF1_DATA1_REG + i div 2 \<le> r \<and>
              r < C_CAN_IF1_DATA1_REG + (unat (can_dlc f) + 1) div 2)"
      using False "1.prems"(2) by (auto elim!: evenE)
    then show ?thesis unfolding step by auto
  next
    case True
    define s1 where "s1 = write_reg (C_CAN_IFACE C_CAN_IF1_DATA1_REG 0 + i div 2)
            (ucast (data f i) OR push_bit 8 (ucast (data f (i + 1)))) s"
    have step: "write_msg_object_data i 0 f s = write_msg_object_data (i + 2) 0 f s1"
      using True by (subst write_msg_object_data.simps) (simp add: s1_def)
    have idx: "i div 2 \<le> 3" using True "1.prems"(1) by simp
    have s1: "regs s1 = (regs s)(C_CAN_IF1_DATA1_REG + i div 2 := data_pair f i)"
             "msg_ram s1 = msg_ram s" "busy_until s1 = busy_until s"
      unfolding s1_def using idx by (simp_all add: write_reg_plain reg_defs data_pair_def)
    have ih: "regs (write_msg_object_data (i + 2) 0 f s1) r =
           (if C_CAN_IF1_DATA1_REG + (i + 2) div 2 \<le> r \<and>
                    r < C_CAN_IF1_DATA1_REG + (unat (can_dlc f) + 1) div 2
                 then data_pair f (2 * (r - C_CAN_IF1_DATA1_REG)) else regs s1 r) \<and>
         msg_ram (write_msg_object_data (i + 2) 0 f s1) = msg_ram s1 \<and>
         busy_until (write_msg_object_data (i + 2) 0 f s1) = busy_until s1"
      unfolding s1_def using "1.hyps" [OF True] "1.prems" by simp
    have i2: "2 * (i div 2) = i" using "1.prems"(2) by simp
    have rng: "C_CAN_IF1_DATA1_REG + i div 2 < C_CAN_IF1_DATA1_REG + (unat (can_dlc f) + 1) div 2"
      using True "1.prems"(2) by (auto elim!: evenE)
    have "(if C_CAN_IF1_DATA1_REG + (i + 2) div 2 \<le> r \<and>
                    r < C_CAN_IF1_DATA1_REG + (unat (can_dlc f) + 1) div 2
                 then data_pair f (2 * (r - C_CAN_IF1_DATA1_REG)) else regs s1 r) =
          (if C_CAN_IF1_DATA1_REG + i div 2 \<le> r \<and>
                    r < C_CAN_IF1_DATA1_REG + (unat (can_dlc f) + 1) div 2
                 then data_pair f (2 * (r - C_CAN_IF1_DATA1_REG)) else regs s r)"
    proof (cases "r = C_CAN_IF1_DATA1_REG + i div 2")
      case True
      then show ?thesis using rng i2 by (simp add: s1)
    next
      case False
      then show ?thesis by (auto simp add: s1)
    qed
    then show ?thesis unfolding step using ih s1(2,3) by simp
  qed
qed


lemma write_msg_object_data_fields [simp]:
  "priv (write_msg_object_data i iface f s) = priv s \<and>
   dev (write_msg_object_data i iface f s) = dev s \<and>
   stack_skb (write_msg_object_data i iface f s) = stack_skb s \<and>
   loopback_pending (write_msg_object_data i iface f s) = loopback_pending s"
proof (induction i iface f s rule: write_msg_object_data.induct)
  case (1 i iface f s)
  show ?case
  proof (cases "i < unat (can_dlc f)")
    case True
    then show ?thesis
      using "1.IH" [OF True] by (subst (1 2 3 4) write_msg_object_data.simps) simp
  next
    case False
    then show ?thesis by (subst (1 2 3 4) write_msg_object_data.simps) simp
  qed
qed

text \<open>The interface registers as the encoder leaves them before the transfer.\<close>

definition wmo_regs :: "can_frame \<Rightarrow> (nat \<Rightarrow> u16) \<Rightarrow> nat \<Rightarrow> u16" where
  "wmo_regs f rg r =
    (if r = C_CAN_IF1_MSGCTRL_REG then
       IF_MCONT_TXIE OR IF_MCONT_TXRQST OR IF_MCONT_EOB OR ucast (can_dlc f)
     else if C_CAN_IF1_DATA1_REG \<le> r \<and> r < C_CAN_IF1_DATA1_REG + (unat (can_dlc f) + 1) div 2
       then data_pair f (2 * (r - C_CAN_IF1_DATA1_REG))
     else if r = C_CAN_IF1_ARB2_REG then
       write_msg_object_flags f OR IFX_WRITE_HIGH_16BIT (write_msg_object_id f)
     else if r = C_CAN_IF1_ARB1_REG then IFX_WRITE_LOW_16BIT (write_msg_object_id f)
     else rg r)"

lemma c_can_write_msg_object0:
  assumes "unat (can_dlc f) \<le> 8"
  shows "regs (c_can_write_msg_object 0 f objno s) =
           (wmo_regs f (regs s))(C_CAN_IF1_COMMSK_REG := IF_COMM_WR OR IF_COMM_ALL,
                                 C_CAN_IF1_COMREQ_REG := of_nat objno)"
    and "1 \<le> objno \<Longrightarrow> objno \<le> 32 \<Longrightarrow>
         msg_ram (c_can_write_msg_object 0 f objno s) =
           (msg_ram s)(objno := obj_store (IF_COMM_WR OR IF_COMM_ALL) (wmo_regs f (regs s))
                                  (msg_ram s objno))"
    and "priv (c_can_write_msg_object 0 f objno s) = priv s"
    and "dev (c_can_write_msg_object 0 f objno s) = dev s"
proof -
  define s2 where "s2 = write_reg C_CAN_IF1_ARB2_REG
       (write_msg_object_flags f OR IFX_WRITE_HIGH_16BIT (write_msg_object_id f))
       (write_reg C_CAN_IF1_ARB1_REG (IFX_WRITE_LOW_16BIT (write_msg_object_id f)) s)"
  define s3 where "s3 = write_msg_object_data 0 0 f s2"
  define s4 where "s4 = write_reg C_CAN_IF1_MSGCTRL_REG
       (IF_MCONT_TXIE OR IF_MCONT_TXRQST OR IF_MCONT_EOB OR ucast (can_dlc f)) s3"
  have w: "c_can_write_msg_object 0 f objno s = c_can_object_put 0 objno IF_COMM_ALL s4"
    by (simp add: c_can_write_msg_object_def Let_def s2_def s3_def s4_def)
  have r2: "regs s2 = (regs s)(C_CAN_IF1_ARB1_REG := IFX_WRITE_LOW_16BIT (write_msg_object_id f),
              C_CAN_IF1_ARB2_REG :=
                write_msg_object_flags f OR IFX_WRITE_HIGH_16BIT (write_msg_object_id f))"
           "msg_ram s2 = msg_ram s"
    unfolding s2_def by (simp_all add: write_reg_plain reg_defs)
  have r3: "regs s3 r =
           (if C_CAN_IF1_DATA1_REG \<le> r \<and>
                    r < C_CAN_IF1_DATA1_REG + (unat (can_dlc f) + 1) div 2
                 then data_pair f (2 * (r - C_CAN_IF1_DATA1_REG)) else regs s2 r)"
        and m3: "msg_ram s3 = msg_ram s2" for r
    unfolding s3_def using write_msg_object_data0 [OF assms, of 0 s2 r] by simp_all
  have r4: "regs s4 = (regs s3)(C_CAN_IF1_MSGCTRL_REG :=
              IF_MCONT_TXIE OR IF_MCONT_TXRQST OR IF_MCONT_EOB OR ucast (can_dlc f))"
           "msg_ram s4 = msg_ram s3"
    unfolding s4_def by (simp_all add: write_reg_plain reg_defs)
  have R: "regs s4 = wmo_regs f (regs s)"
  proof
    fix r
    show "regs s4 r = wmo_regs f (regs s) r"
      unfolding r4 wmo_regs_def fun_upd_apply r3 r2 by (simp add: reg_defs)
  qed
  show "regs (c_can_write_msg_object 0 f objno s) =
           (wmo_regs f (regs s))(C_CAN_IF1_COMMSK_REG := IF_COMM_WR OR IF_COMM_ALL,
                                 C_CAN_IF1_COMREQ_REG := of_nat objno)"
    unfolding w by (simp only: c_can_object_put0 R)
  show "priv (c_can_write_msg_object 0 f objno s) = priv s"
    unfolding w by (simp add: s4_def s3_def s2_def c_can_write_msg_object_def)
  show "dev (c_can_write_msg_object 0 f objno s) = dev s"
    unfolding w by (simp add: s4_def s3_def s2_def)
  assume "1 \<le> objno" "objno \<le> 32"
  then show "msg_ram (c_can_write_msg_object 0 f objno s) =
           (msg_ram s)(objno := obj_store (IF_COMM_WR OR IF_COMM_ALL) (wmo_regs f (regs s))
                                  (msg_ram s objno))"
    unfolding w by (simp only: c_can_object_put0 R r4 m3 r2)
qed

text \<open>The number of units the specification's wording of the transmit drain releases:
  one per drained slot, one when the scan stops at a slot still requesting transmission,
  and one more when \<open>tx_next\<close> or \<open>tx_echo\<close> is a multiple of the ring size.\<close>

definition spec_tx_released :: "nat \<Rightarrow> bool \<Rightarrow> u32 \<Rightarrow> u32 \<Rightarrow> nat" where
  "spec_tx_released drained stalled txn txe =
    drained + (if stalled then 1 else 0) +
    (if txn AND C_CAN_NEXT_MSG_OBJ_MASK = 0 \<or> txe AND C_CAN_NEXT_MSG_OBJ_MASK = 0 then 1 else 0)"

text \<open>
  Claim C3 as stated fails: with three frames submitted and all three transmit requests
  cleared, the drain advances \<open>tx_echo\<close> by three but releases one unit, not the three (one
  per drained slot) the claim counts.
\<close>

theorem c_can_do_tx_spec_count_counterexample:
  "sem_ups (trace (c_can_do_tx sys_tx3)) - sem_ups (trace sys_tx3) \<noteq>
   spec_tx_released
     (unat (tx_echo (priv (c_can_do_tx sys_tx3)) - tx_echo (priv sys_tx3)))
     (tx_head_busy (c_can_do_tx sys_tx3))
     (tx_next (priv (c_can_do_tx sys_tx3)))
     (tx_echo (priv (c_can_do_tx sys_tx3)))"
proof -
  have n: "tx_next (priv (do_tx_loop sys_tx3)) = 3"
    using do_tx_loop_props [of sys_tx3] by (simp add: sys_tx3_def sys0_def priv0_def)
  have "sem_ups (trace (c_can_do_tx sys_tx3)) = 1"
       "tx_echo (priv (c_can_do_tx sys_tx3)) = 3"
       "tx_next (priv (c_can_do_tx sys_tx3)) = 3"
    by (simp_all add: c_can_do_tx_def Let_def tx3_eval n obj_defs)
  moreover have "sem_ups (trace sys_tx3) = 0" "tx_echo (priv sys_tx3) = 0"
    by (simp_all add: sys_tx3_def sys0_def priv0_def)
  ultimately show ?thesis
    by (simp add: spec_tx_released_def obj_defs)
qed

text \<open>
  Claim C3, amended. A drain pass of \<^verbatim>\<open>c_can_do_tx\<close> releases no unit for a drained slot; it
  releases one unit when the scan stops before reaching \<open>tx_next\<close>, which happens exactly at a
  slot whose transmit request is still set, and one more unit exactly when, after the scan,
  \<open>tx_next\<close> is not a multiple of 16 or \<open>tx_echo\<close> is a multiple of 16. \<open>tx_next\<close> is unchanged.
\<close>

theorem c_can_do_tx_released:
  "tx_next (priv (c_can_do_tx s)) = tx_next (priv s) \<and>
   sem_ups (trace (c_can_do_tx s)) =
     sem_ups (trace s) +
     (if tx_echo (priv (c_can_do_tx s)) = tx_next (priv s) then 0 else 1) +
     (if tx_next (priv s) AND C_CAN_NEXT_MSG_OBJ_MASK \<noteq> 0 \<or>
         tx_echo (priv (c_can_do_tx s)) AND C_CAN_NEXT_MSG_OBJ_MASK = 0 then 1 else 0) \<and>
   (tx_echo (priv (c_can_do_tx s)) = tx_next (priv s) \<or> tx_head_busy (c_can_do_tx s))"
proof -
  define t where "t = do_tx_loop s"
  have t: "tx_next (priv t) = tx_next (priv s)"
    "sem_ups (trace t) = sem_ups (trace s) + (if tx_echo (priv t) = tx_next (priv s) then 0 else 1)"
    "tx_echo (priv t) = tx_next (priv s) \<or> tx_head_busy t"
    unfolding t_def using do_tx_loop_props [of s] by simp_all
  have hb: "tx_head_busy (emit Sem_up t) = tx_head_busy t"
    by (simp add: tx_head_busy_def)
  show ?thesis
  proof (cases "tx_next (priv t) AND C_CAN_NEXT_MSG_OBJ_MASK \<noteq> 0 \<or>
                tx_echo (priv t) AND C_CAN_NEXT_MSG_OBJ_MASK = 0")
    case True
    then have d: "c_can_do_tx s = emit Sem_up t"
      by (simp add: c_can_do_tx_def Let_def t_def)
    show ?thesis unfolding d using t True hb by simp
  next
    case False
    then have d: "c_can_do_tx s = t"
      by (simp add: c_can_do_tx_def Let_def t_def)
    show ?thesis unfolding d using t False by simp
  qed
qed

theorem c_can_do_tx_released_witness:
  "tx_next (priv sys_tx3) = 3 \<and> tx_echo (priv sys_tx3) = 0 \<and>
   tx_echo (priv (c_can_do_tx sys_tx3)) = 3 \<and>
   sem_ups (trace (c_can_do_tx sys_tx3)) = 1"
proof -
  have n: "tx_next (priv (do_tx_loop sys_tx3)) = 3"
    using do_tx_loop_props [of sys_tx3] by (simp add: sys_tx3_def sys0_def priv0_def)
  have e: "tx_echo (priv (c_can_do_tx sys_tx3)) = 3"
    by (simp add: c_can_do_tx_def Let_def tx3_eval n obj_defs)
  have s: "tx_next (priv sys_tx3) = 3" "tx_echo (priv sys_tx3) = 0" "sem_ups (trace sys_tx3) = 0"
    by (simp_all add: sys_tx3_def sys0_def priv0_def)
  show ?thesis
    using c_can_do_tx_released [of sys_tx3] by (simp add: e s obj_defs)
qed

lemma unat_and_15: "unat ((w :: u32) AND 15) = unat w mod 16"
proof -
  have "(w AND 15) = take_bit 4 w"
    by (simp add: take_bit_eq_mask mask_eq_exp_minus_1)
  then show ?thesis by (simp add: unsigned_take_bit_eq take_bit_eq_mod unat_mod)
qed

definition frame_a :: can_frame where
  "frame_a = \<lparr>can_id = 0x123, can_dlc = 0, data = (\<lambda>_. 0)\<rparr>"

section \<open>Submitting a transmit frame\<close>

text \<open>The \<open>j\<close>-th data register of a message object.\<close>

definition mo_data :: "msg_object \<Rightarrow> nat \<Rightarrow> u16" where
  "mo_data m j = (if j = 0 then mo_data1 m else if j = 1 then mo_data2 m
                  else if j = 2 then mo_data3 m else mo_data4 m)"

lemma wmo_regs_data:
  assumes "j < 4"
  shows "wmo_regs f rg (C_CAN_IF1_DATA1_REG + j) =
     (if 2 * j < unat (can_dlc f) then data_pair f (2 * j) else rg (C_CAN_IF1_DATA1_REG + j))"
proof -
  have "(j < (unat (can_dlc f) + 1) div 2) = (2 * j < unat (can_dlc f))" by auto
  then show ?thesis using assms by (simp add: wmo_regs_def reg_defs)
qed

lemma obj_store_all:
  "obj_store (IF_COMM_WR OR IF_COMM_ALL) rg m =
     \<lparr>mo_mask1 = rg C_CAN_IF1_MASK1_REG, mo_mask2 = rg C_CAN_IF1_MASK2_REG,
      mo_arb1 = rg C_CAN_IF1_ARB1_REG, mo_arb2 = rg C_CAN_IF1_ARB2_REG,
      mo_mctrl = rg C_CAN_IF1_MSGCTRL_REG,
      mo_data1 = rg C_CAN_IF1_DATA1_REG, mo_data2 = rg C_CAN_IF1_DATA2_REG,
      mo_data3 = rg C_CAN_IF1_DATA3_REG, mo_data4 = rg C_CAN_IF1_DATA4_REG\<rparr>"
  by (simp add: obj_store_def comm_defs)

text \<open>
  Claim C4, amended. For every value of \<open>tx_next\<close>, \<^verbatim>\<open>c_can_start_xmit\<close> writes the frame
  (DLC at most 8) into message object \<open>(tx_next mod 16) + 17\<close>, a slot in 17..32, leaves every
  other message object as it was, and increments \<open>tx_next\<close> by one.
\<close>

theorem c_can_start_xmit_slot:
  assumes "unat (can_dlc cf) \<le> 8"
  shows "get_tx_next_msg_obj (priv s) = unat (tx_next (priv s)) mod 16 + 17 \<and>
    17 \<le> get_tx_next_msg_obj (priv s) \<and> get_tx_next_msg_obj (priv s) \<le> 32 \<and>
    fst (c_can_start_xmit cf s) = 0 \<and>
    tx_next (priv (snd (c_can_start_xmit cf s))) = tx_next (priv s) + 1 \<and>
    tx_echo (priv (snd (c_can_start_xmit cf s))) = tx_echo (priv s) \<and>
    (\<forall>m. m \<noteq> get_tx_next_msg_obj (priv s) \<longrightarrow>
         msg_ram (snd (c_can_start_xmit cf s)) m = msg_ram s m) \<and>
    mo_arb1 (msg_ram (snd (c_can_start_xmit cf s)) (get_tx_next_msg_obj (priv s))) =
      IFX_WRITE_LOW_16BIT (write_msg_object_id cf) \<and>
    mo_arb2 (msg_ram (snd (c_can_start_xmit cf s)) (get_tx_next_msg_obj (priv s))) =
      write_msg_object_flags cf OR IFX_WRITE_HIGH_16BIT (write_msg_object_id cf) \<and>
    mo_mctrl (msg_ram (snd (c_can_start_xmit cf s)) (get_tx_next_msg_obj (priv s))) =
      IF_MCONT_TXIE OR IF_MCONT_TXRQST OR IF_MCONT_EOB OR ucast (can_dlc cf) \<and>
    (\<forall>j. 2 * j < unat (can_dlc cf) \<longrightarrow>
         mo_data (msg_ram (snd (c_can_start_xmit cf s)) (get_tx_next_msg_obj (priv s))) j =
         data_pair cf (2 * j))"
proof -
  define n where "n = get_tx_next_msg_obj (priv s)"
  define w where "w = c_can_write_msg_object 0 cf n s"
  have rng: "17 \<le> n" "n \<le> 32" "1 \<le> n"
    using get_tx_next_msg_obj_range [of "priv s"] by (simp_all add: n_def)
  have n_eq: "n = unat (tx_next (priv s)) mod 16 + 17"
    by (simp add: n_def get_tx_next_msg_obj_def obj_defs unat_and_15)
  have x: "c_can_start_xmit cf s = (0, w\<lparr>priv := (priv w)\<lparr>tx_next := tx_next (priv w) + 1\<rparr>\<rparr>)"
    by (simp add: c_can_start_xmit_def Let_def w_def n_def)
  have pw: "priv w = priv s"
    unfolding w_def by (rule c_can_write_msg_object0(3) [OF assms])
  have ram: "msg_ram w = (msg_ram s)(n := obj_store (IF_COMM_WR OR IF_COMM_ALL)
                 (wmo_regs cf (regs s)) (msg_ram s n))"
    unfolding w_def by (rule c_can_write_msg_object0(2) [OF assms rng(3) rng(2)])
  have others: "\<forall>m. m \<noteq> n \<longrightarrow> msg_ram w m = msg_ram s m"
    by (simp add: ram)
  have slot: "msg_ram w n = obj_store (IF_COMM_WR OR IF_COMM_ALL) (wmo_regs cf (regs s)) (msg_ram s n)"
    by (simp add: ram)
  have a1: "mo_arb1 (msg_ram w n) = IFX_WRITE_LOW_16BIT (write_msg_object_id cf)"
    by (simp add: slot obj_store_all) (simp add: wmo_regs_def reg_defs)
  have a2: "mo_arb2 (msg_ram w n) =
      write_msg_object_flags cf OR IFX_WRITE_HIGH_16BIT (write_msg_object_id cf)"
    by (simp add: slot obj_store_all) (simp add: wmo_regs_def reg_defs)
  have mc: "mo_mctrl (msg_ram w n) =
      IF_MCONT_TXIE OR IF_MCONT_TXRQST OR IF_MCONT_EOB OR ucast (can_dlc cf)"
    by (simp add: slot obj_store_all) (simp add: wmo_regs_def reg_defs)
  have d: "mo_data (msg_ram w n) j = data_pair cf (2 * j)" if "2 * j < unat (can_dlc cf)" for j
  proof -
    have j4: "j < 4" using that assms by simp
    have regs_j: "wmo_regs cf (regs s) (C_CAN_IF1_DATA1_REG + j) = data_pair cf (2 * j)"
      using wmo_regs_data [OF j4, of cf "regs s"] that by simp
    have "j = 0 \<or> j = 1 \<or> j = 2 \<or> j = 3" using j4 by arith
    then show ?thesis
      using regs_j by (auto simp add: slot obj_store_all mo_data_def reg_defs)
  qed
  show ?thesis
    unfolding n_def [symmetric]
    using n_eq rng others a1 a2 mc d by (simp add: x pw)
qed

theorem c_can_start_xmit_slot_witness:
  "unat (can_dlc frame_a) \<le> 8 \<and>
   get_tx_next_msg_obj (priv sys0) = 17 \<and>
   tx_next (priv (snd (c_can_start_xmit frame_a sys0))) = 1 \<and>
   mo_mctrl (msg_ram (snd (c_can_start_xmit frame_a sys0)) 17) = 0x0980"
proof -
  have h: "unat (can_dlc frame_a) \<le> 8" by (simp add: frame_a_def)
  have t: "tx_next (priv sys0) = 0" by (simp add: sys0_def priv0_def)
  note T = c_can_start_xmit_slot [OF h, of sys0]
  have n: "get_tx_next_msg_obj (priv sys0) = 17" using T t by simp
  have tx: "tx_next (priv (snd (c_can_start_xmit frame_a sys0))) = 1" using T t by simp
  have "mo_mctrl (msg_ram (snd (c_can_start_xmit frame_a sys0)) (get_tx_next_msg_obj (priv sys0))) =
      IF_MCONT_TXIE OR IF_MCONT_TXRQST OR IF_MCONT_EOB OR ucast (can_dlc frame_a)"
    using T by blast
  moreover have "IF_MCONT_TXIE OR IF_MCONT_TXRQST OR IF_MCONT_EOB OR ucast (can_dlc frame_a) = 0x0980"
    by (simp add: mcont_defs frame_a_def)
  ultimately have mc: "mo_mctrl (msg_ram (snd (c_can_start_xmit frame_a sys0)) 17) = 0x0980"
    by (simp only: n)
  show ?thesis using h n tx mc by blast
qed

text \<open>
  Claim C4 as stated fails: with \<open>tx_next = 0\<close> the frame is not written to slot
  \<open>(0 mod 16) + 16 = 16\<close>, which stays as it was, but to slot 17.
\<close>

theorem c_can_start_xmit_slot16_counterexample:
  "unat (tx_next (priv sys0)) mod 16 + 16 = 16 \<and>
   msg_ram (snd (c_can_start_xmit frame_a sys0)) 16 = msg_ram sys0 16 \<and>
   mo_arb2 (msg_ram (snd (c_can_start_xmit frame_a sys0)) 17) = 0xA48C \<and>
   mo_arb2 (msg_ram sys0 17) = 0"
proof -
  have h: "unat (can_dlc frame_a) \<le> 8" by (simp add: frame_a_def)
  have t: "tx_next (priv sys0) = 0" by (simp add: sys0_def priv0_def)
  have n: "get_tx_next_msg_obj (priv sys0) = 17"
    by (simp add: get_tx_next_msg_obj_def obj_defs t)
  have w: "snd (c_can_start_xmit frame_a sys0) =
     (c_can_write_msg_object 0 frame_a 17 sys0)
       \<lparr>priv := (priv (c_can_write_msg_object 0 frame_a 17 sys0))
          \<lparr>tx_next := tx_next (priv (c_can_write_msg_object 0 frame_a 17 sys0)) + 1\<rparr>\<rparr>"
    by (simp add: c_can_start_xmit_def Let_def n)
  have ram: "msg_ram (snd (c_can_start_xmit frame_a sys0)) =
     (msg_ram sys0)(17 := obj_store (IF_COMM_WR OR IF_COMM_ALL)
                 (wmo_regs frame_a (regs sys0)) (msg_ram sys0 17))"
    unfolding w using c_can_write_msg_object0(2) [OF h, of 17 sys0] by simp
  have a2: "wmo_regs frame_a (regs sys0) C_CAN_IF1_ARB2_REG = 0xA48C"
    by (simp add: wmo_regs_def reg_defs write_msg_object_flags_def write_msg_object_id_def
        IFX_WRITE_HIGH_16BIT_def frame_a_def can_defs arb_defs)
  show ?thesis
    by (simp add: ram obj_store_all a2 t) (simp add: sys0_def mo0_def)
qed

section \<open>Interrupt handler: sources that are not ours\<close>

definition sys_stale :: c_can where
  "sys_stale = sys0\<lparr>priv := priv0\<lparr>irqstatus := 5\<rparr>\<rparr>"

text \<open>
  Claim C9 as stated fails: the handler stores the value it read in \<^verbatim>\<open>priv->irqstatus\<close> before
  testing it, so a state whose \<open>irqstatus\<close> field held 5 is changed by a call that reads 0.
\<close>

theorem c_can_interrupt_none_changes_irqstatus:
  "read_reg sys_stale C_CAN_INT_REG = 0 \<and> snd (c_can_interrupt sys_stale) \<noteq> sys_stale"
proof -
  have "irqstatus (priv (snd (c_can_interrupt sys_stale))) = 0"
    by (simp add: c_can_interrupt_def sys_stale_def sys0_def read_reg_def reg_defs)
  moreover have "irqstatus (priv sys_stale) = 5"
    by (simp add: sys_stale_def sys0_def)
  ultimately have "snd (c_can_interrupt sys_stale) \<noteq> sys_stale" by auto
  moreover have "read_reg sys_stale C_CAN_INT_REG = 0"
    by (simp add: sys_stale_def sys0_def read_reg_def reg_defs)
  ultimately show ?thesis by simp
qed

text \<open>
  Claim C9, amended. When the interrupt register reads zero the handler returns
  \<open>RTDM_IRQ_NONE\<close> at once: no register is written, no lock is taken and no event is delivered
  (the trace is unchanged), and every field of the driver state is unchanged except
  \<^verbatim>\<open>priv->irqstatus\<close>, which holds the zero just read.
\<close>

theorem c_can_interrupt_not_ours:
  assumes "read_reg s C_CAN_INT_REG = 0"
  shows "c_can_interrupt s = (RTDM_IRQ_NONE, s\<lparr>priv := (priv s)\<lparr>irqstatus := 0\<rparr>\<rparr>)"
  using assms by (simp add: c_can_interrupt_def)

theorem c_can_interrupt_not_ours_witness:
  "read_reg sys_stale C_CAN_INT_REG = 0 \<and>
   c_can_interrupt sys_stale = (RTDM_IRQ_NONE, sys_stale\<lparr>priv := (priv sys_stale)\<lparr>irqstatus := 0\<rparr>\<rparr>)"
proof -
  have h: "read_reg sys_stale C_CAN_INT_REG = 0"
    by (simp add: sys_stale_def sys0_def read_reg_def reg_defs)
  show ?thesis using h c_can_interrupt_not_ours [OF h] by simp
qed

lemma read_ctrl: "read_reg s C_CAN_CTRL_REG = regs s C_CAN_CTRL_REG"
  by (simp add: read_reg_def reg_defs)

lemma write_ctrl:
  "write_reg C_CAN_CTRL_REG v s =
     s\<lparr>regs := (regs s)(C_CAN_CTRL_REG := v), trace := trace s @ [Reg_write C_CAN_CTRL_REG v]\<rparr>"
  by (simp add: write_reg_def emit_def reg_defs Let_def)

text \<open>
  Claim C10. For an interrupt status that is not zero, not \<open>STATUS_INTERRUPT\<close> and not a
  message object number 1..32, the handler returns \<open>RTDM_IRQ_NONE\<close>; it stores the status,
  disables the three interrupt enables at entry, takes and releases the device lock, and
  sets the three enables again at exit, and does nothing else: no receive poll, no transmit
  drain, no state change and no event.
\<close>

theorem c_can_interrupt_unknown_source:
  assumes "read_reg s C_CAN_INT_REG = v"
    and "v \<noteq> 0" and "v \<noteq> STATUS_INTERRUPT"
    and "\<not> (C_CAN_MSG_OBJ_RX_FIRST \<le> unat v \<and> unat v \<le> C_CAN_MSG_OBJ_TX_LAST)"
  shows "c_can_interrupt s =
    (RTDM_IRQ_NONE,
     s\<lparr>priv := (priv s)\<lparr>irqstatus := v\<rparr>,
       regs := (regs s)(C_CAN_CTRL_REG :=
                 (regs s C_CAN_CTRL_REG AND NOT (CONTROL_EIE OR CONTROL_IE OR CONTROL_SIE)) OR
                 (CONTROL_SIE OR CONTROL_EIE OR CONTROL_IE)),
       trace := trace s @
         [Reg_write C_CAN_CTRL_REG
            (regs s C_CAN_CTRL_REG AND NOT (CONTROL_EIE OR CONTROL_IE OR CONTROL_SIE)),
          Lock_get device_lock,
          Lock_put device_lock,
          Reg_write C_CAN_CTRL_REG
            ((regs s C_CAN_CTRL_REG AND NOT (CONTROL_EIE OR CONTROL_IE OR CONTROL_SIE)) OR
             (CONTROL_SIE OR CONTROL_EIE OR CONTROL_IE))]\<rparr>)"
proof -
  have rng: "(C_CAN_MSG_OBJ_RX_FIRST \<le> unat v \<and> unat v \<le> C_CAN_MSG_OBJ_RX_LAST) = False"
            "(C_CAN_MSG_OBJ_TX_FIRST \<le> unat v \<and> unat v \<le> C_CAN_MSG_OBJ_TX_LAST) = False"
    using assms(4) by (auto simp add: obj_defs)
  have v: "(v = 0) = False" "(v = STATUS_INTERRUPT) = False" using assms(2,3) by simp_all
  show ?thesis
    unfolding c_can_interrupt_def assms(1) Let_def
    by (simp add: rng v c_can_enable_all_interrupts_def read_ctrl write_ctrl
        emit_def ENABLE_ALL_INTERRUPTS_def DISABLE_ALL_INTERRUPTS_def Let_def)
qed

definition sys_int33 :: c_can where
  "sys_int33 = sys0\<lparr>regs := (\<lambda>_. 0)(C_CAN_INT_REG := 33)\<rparr>"

theorem c_can_interrupt_unknown_source_witness:
  "read_reg sys_int33 C_CAN_INT_REG = 33 \<and>
   fst (c_can_interrupt sys_int33) = RTDM_IRQ_NONE \<and>
   trace (snd (c_can_interrupt sys_int33)) =
     [Reg_write C_CAN_CTRL_REG 0, Lock_get device_lock, Lock_put device_lock,
      Reg_write C_CAN_CTRL_REG 0x0E] \<and>
   dev (snd (c_can_interrupt sys_int33)) = dev sys_int33"
proof -
  have r: "read_reg sys_int33 C_CAN_INT_REG = 33"
    by (simp add: sys_int33_def sys0_def read_reg_def reg_defs)
  have c: "regs sys_int33 C_CAN_CTRL_REG = 0" "trace sys_int33 = []"
    by (simp_all add: sys_int33_def sys0_def reg_defs)
  have h: "(33 :: u16) \<noteq> 0" "(33 :: u16) \<noteq> STATUS_INTERRUPT"
    "\<not> (C_CAN_MSG_OBJ_RX_FIRST \<le> unat (33 :: u16) \<and> unat (33 :: u16) \<le> C_CAN_MSG_OBJ_TX_LAST)"
    by (simp_all add: STATUS_INTERRUPT_def obj_defs)
  show ?thesis
    using c_can_interrupt_unknown_source [OF r h] r
    by (simp add: c ctrl_defs)
qed

section \<open>Polling: when the interface stays busy\<close>

lemma read_comreq_busy:
  "(read_reg s C_CAN_IF1_COMREQ_REG AND IF_COMR_BUSY \<noteq> 0) =
     (usec s < busy_until s C_CAN_IF1_COMREQ_REG)"
proof -
  have a: "((w AND NOT IF_COMR_BUSY) OR IF_COMR_BUSY) AND IF_COMR_BUSY = IF_COMR_BUSY" for w
    by (simp add: bit_eq_iff bit_simps)
  have b: "((w AND NOT IF_COMR_BUSY) OR 0) AND IF_COMR_BUSY = 0" for w
    by (simp add: bit_eq_iff bit_simps)
  have c: "IF_COMR_BUSY \<noteq> 0" by (simp add: IF_COMR_BUSY_def)
  have r: "read_reg s C_CAN_IF1_COMREQ_REG =
      (regs s C_CAN_IF1_COMREQ_REG AND NOT IF_COMR_BUSY) OR
      (if usec s < busy_until s C_CAN_IF1_COMREQ_REG then IF_COMR_BUSY else 0)"
    by (simp add: read_reg_def)
  show ?thesis
    unfolding r using a b c by (cases "usec s < busy_until s C_CAN_IF1_COMREQ_REG") simp_all
qed

lemma busy_wait_all_busy:
  "usec s + n \<le> busy_until s C_CAN_IF1_COMREQ_REG \<Longrightarrow>
   fst (busy_wait n 0 s) = 0 \<and>
   trace (snd (busy_wait n 0 s)) = trace s @ replicate n (Udelay 1)"
proof (induction n arbitrary: s)
  case 0
  then show ?case by simp
next
  case (Suc n)
  have busy: "read_reg s (C_CAN_IFACE C_CAN_IF1_COMREQ_REG 0) AND IF_COMR_BUSY \<noteq> 0"
    using Suc.prems by (simp add: read_comreq_busy)
  have "usec (udelay 1 s) + n \<le> busy_until (udelay 1 s) C_CAN_IF1_COMREQ_REG"
    using Suc.prems by simp
  from Suc.IH [OF this] show ?case
    using busy by (simp add: replicate_app_Cons_same)
qed

lemma busy_wait_idle:
  "busy_until s C_CAN_IF1_COMREQ_REG \<le> usec s \<Longrightarrow> busy_wait n 0 s = (n, s)"
  by (cases n) (simp_all add: read_comreq_busy)

lemma comreq_busy_until:
  assumes "1 \<le> unat v" "unat v \<le> 32"
  shows "busy_until (write_reg C_CAN_IF1_COMREQ_REG v s) C_CAN_IF1_COMREQ_REG =
           usec s + xfer_usec s"
  using assms by (simp add: write_reg_def hw_transfer_def Let_def)

lemma c_can_msg_obj_is_busy_alt:
  "c_can_msg_obj_is_busy iface s =
     (if fst (busy_wait MIN_TIMEOUT_VALUE iface s) = 0 then 1 else 0,
      snd (busy_wait MIN_TIMEOUT_VALUE iface s))"
  by (simp add: c_can_msg_obj_is_busy_def split: prod.split)

definition sys_slow :: c_can where
  "sys_slow = sys0\<lparr>xfer_usec := 10\<rparr>"

section \<open>Frame codec: decoding an encoded frame\<close>

text \<open>The byte the decoder stores at payload index \<open>j\<close>.\<close>

definition rd_byte :: "c_can \<Rightarrow> nat \<Rightarrow> u8" where
  "rd_byte s j =
    (let d = read_reg s (C_CAN_IF1_DATA1_REG + j div 2)
     in if even j then ucast d else ucast (drop_bit 8 d))"

lemma read_msg_object_data0:
  assumes "even i"
  shows "can_id (read_msg_object_data i 0 s fr) = can_id fr \<and>
         can_dlc (read_msg_object_data i 0 s fr) = can_dlc fr \<and>
         data (read_msg_object_data i 0 s fr) j =
           (if i \<le> j \<and> j < 2 * ((unat (can_dlc fr) + 1) div 2) then rd_byte s j
            else data fr j)"
  using assms
proof (induction i "0::nat" s fr rule: read_msg_object_data.induct)
  case (1 i s fr)
  show ?case
  proof (cases "i < unat (can_dlc fr)")
    case False
    have step: "read_msg_object_data i 0 s fr = fr"
      using False by (subst read_msg_object_data.simps) simp
    have "2 * ((unat (can_dlc fr) + 1) div 2) \<le> i"
      using False "1.prems" by presburger
    then have "\<not> (i \<le> j \<and> j < 2 * ((unat (can_dlc fr) + 1) div 2))" by arith
    then show ?thesis unfolding step by auto
  next
    case True
    define d where "d = read_reg s (C_CAN_IFACE C_CAN_IF1_DATA1_REG 0 + i div 2)"
    define fr1 where "fr1 = fr\<lparr>data := (data fr)(i := ucast d, i + 1 := ucast (drop_bit 8 d))\<rparr>"
    have step: "read_msg_object_data i 0 s fr = read_msg_object_data (i + 2) 0 s fr1"
      using True by (subst read_msg_object_data.simps) (simp add: Let_def d_def fr1_def)
    have f1: "can_id fr1 = can_id fr" "can_dlc fr1 = can_dlc fr" by (simp_all add: fr1_def)
    have ih: "can_id (read_msg_object_data (i + 2) 0 s fr1) = can_id fr1 \<and>
         can_dlc (read_msg_object_data (i + 2) 0 s fr1) = can_dlc fr1 \<and>
         data (read_msg_object_data (i + 2) 0 s fr1) j =
           (if i + 2 \<le> j \<and> j < 2 * ((unat (can_dlc fr1) + 1) div 2) then rd_byte s j
            else data fr1 j)"
      unfolding fr1_def using "1.hyps" [OF True d_def] "1.prems" by simp
    have bi: "rd_byte s i = ucast d" using "1.prems" by (simp add: rd_byte_def d_def Let_def)
    have bi1: "rd_byte s (i + 1) = ucast (drop_bit 8 d)"
      using "1.prems" by (simp add: rd_byte_def d_def Let_def)
    have li: "i + 1 < 2 * ((unat (can_dlc fr) + 1) div 2)"
      using True "1.prems" by presburger
    have "(if i + 2 \<le> j \<and> j < 2 * ((unat (can_dlc fr1) + 1) div 2) then rd_byte s j
            else data fr1 j) =
          (if i \<le> j \<and> j < 2 * ((unat (can_dlc fr) + 1) div 2) then rd_byte s j
            else data fr j)"
    proof -
      consider "j = i" | "j = i + 1" | "j < i" | "i + 2 \<le> j" by arith
      then show ?thesis
      proof cases
        case 1
        then show ?thesis using li bi by (simp add: f1 fr1_def)
      next
        case 2
        then show ?thesis using li bi1 by (simp add: f1 fr1_def)
      next
        case 3
        then show ?thesis by (simp add: f1 fr1_def)
      next
        case 4
        then show ?thesis by (simp add: f1 fr1_def)
      qed
    qed
    then show ?thesis unfolding step using ih f1 by simp
  qed
qed

lemma mask_consts:
  "(0xFFFF :: u32) = mask 16" "(0xFFFF0000 :: u32) = push_bit 16 (mask 16)"
  "(0x1FFFFFFF :: u32) = mask 29" "(0x7FF :: u32) = mask 11"
  by (simp_all add: mask_eq_exp_minus_1)

lemma high_bits_only:
  "(w :: u16) AND mask 13 = 0 \<Longrightarrow> bit w n \<Longrightarrow> 13 \<le> n"
proof -
  assume a: "w AND mask 13 = 0" and b: "bit w n"
  have "\<not> bit (w AND mask 13) n" by (simp only: a bit_0_eq) simp
  then show ?thesis using b bit_imp_le_length [OF b] by (auto simp add: bit_simps)
qed

text \<open>The arbitration registers of an encoded frame, read back as the decoder does:
  \<open>fl\<close> are the flag bits (13 and above), \<open>t\<close> is a flag to test.\<close>

lemma arb_roundtrip_eff:
  fixes c :: u32 and fl t :: u16
  assumes fl: "fl AND mask 13 = 0" and t: "t AND mask 13 = 0"
  defines "idv \<equiv> c AND mask 29"
  defines "arb1 \<equiv> (ucast (idv AND mask 16) :: u16)"
  defines "arb2 \<equiv> fl OR (ucast (drop_bit 16 (idv AND push_bit 16 (mask 16))) :: u16)"
  defines "val \<equiv> (ucast arb1 :: u32) OR push_bit 16 (ucast arb2)"
  shows "arb2 AND t = fl AND t" "val AND mask 29 = c AND mask 29"
proof -
  note F = high_bits_only [OF fl] and T = high_bits_only [OF t]
  show "arb2 AND t = fl AND t"
    unfolding arb2_def idv_def
    by (intro bit_word_eqI) (auto simp add: bit_simps dest: T)
  show "val AND mask 29 = c AND mask 29"
    unfolding val_def arb1_def arb2_def idv_def
    by (intro bit_word_eqI) (auto simp add: bit_simps dest: F)
qed

lemma arb_roundtrip_sff:
  fixes c :: u32 and fl t :: u16
  assumes fl: "fl AND mask 13 = 0" and t: "t AND mask 13 = 0"
  defines "idv \<equiv> push_bit 18 (c AND mask 11)"
  defines "arb1 \<equiv> (ucast (idv AND mask 16) :: u16)"
  defines "arb2 \<equiv> fl OR (ucast (drop_bit 16 (idv AND push_bit 16 (mask 16))) :: u16)"
  defines "val \<equiv> (ucast arb1 :: u32) OR push_bit 16 (ucast arb2)"
  shows "arb2 AND t = fl AND t" "drop_bit 18 val AND mask 11 = c AND mask 11"
proof -
  note F = high_bits_only [OF fl] and T = high_bits_only [OF t]
  show "arb2 AND t = fl AND t"
    unfolding arb2_def idv_def
    by (intro bit_word_eqI) (auto simp add: bit_simps dest: T)
  show "drop_bit 18 val AND mask 11 = c AND mask 11"
    unfolding val_def arb1_def arb2_def idv_def
    by (intro bit_word_eqI) (auto simp add: bit_simps dest: F)
qed

lemma data_pair_bytes:
  "(ucast (data_pair f j) :: u8) = data f j"
  "(ucast (drop_bit 8 (data_pair f j)) :: u8) = data f (j + 1)"
  unfolding data_pair_def
  by (intro bit_word_eqI; auto simp add: bit_simps dest: bit_imp_le_length)+

lemma ctrl_dlc:
  fixes d :: u8
  assumes "unat d \<le> 8"
  shows "get_can_dlc ((IF_MCONT_TXIE OR IF_MCONT_TXRQST OR IF_MCONT_EOB OR ucast d) AND 0x0F) = d"
proof -
  have D: "\<And>n. bit d n \<Longrightarrow> n < 4" using assms bit_bound [of d 4] by simp
  have m: "(0x0F :: u16) = mask 4" by (simp add: mask_eq_exp_minus_1)
  have c: "IF_MCONT_TXIE = push_bit 11 1" "IF_MCONT_TXRQST = push_bit 8 1"
          "IF_MCONT_EOB = push_bit 7 1"
    by (simp_all add: mcont_defs)
  have g: "(ucast ((push_bit 11 x OR push_bit 8 y OR push_bit 7 z OR ucast d) AND mask 4 :: u16) :: u8) = d"
    for x y z :: u16
    by (intro bit_word_eqI) (auto simp add: bit_simps dest: D)
  have u: "(ucast ((IF_MCONT_TXIE OR IF_MCONT_TXRQST OR IF_MCONT_EOB OR ucast d) AND 0x0F) :: u8) = d"
    by (simp only: c m g)
  have "d \<le> 8" using assms by (simp add: word_le_nat_alt)
  then show ?thesis
    unfolding get_can_dlc_def u by (simp add: CAN_MAX_DLC_def min_def)
qed

lemma flags_high: "write_msg_object_flags f AND mask 13 = 0"
  by (simp add: write_msg_object_flags_def arb_defs mask_eq_exp_minus_1 Let_def)

lemma flags_tests:
  "(write_msg_object_flags f AND IF_ARB_MSGXTD \<noteq> 0) = (can_id f AND CAN_EFF_FLAG \<noteq> 0)"
  "(write_msg_object_flags f AND IF_ARB_TRANSMIT \<noteq> 0) = (can_id f AND CAN_RTR_FLAG = 0)"
  by (simp_all add: write_msg_object_flags_def arb_defs Let_def)

lemma arb_consts_high: "IF_ARB_MSGXTD AND mask 13 = 0" "IF_ARB_TRANSMIT AND mask 13 = 0"
  by (simp_all add: arb_defs mask_eq_exp_minus_1)

text \<open>What the decoder computes from the arbitration registers of an encoded frame.\<close>

lemma arb_decoded:
  defines "arb1 \<equiv> \<lambda>f. IFX_WRITE_LOW_16BIT (write_msg_object_id f)"
  defines "arb2 \<equiv> \<lambda>f. write_msg_object_flags f OR IFX_WRITE_HIGH_16BIT (write_msg_object_id f)"
  defines "val \<equiv> \<lambda>f. (ucast (arb1 f) :: u32) OR push_bit 16 (ucast (arb2 f))"
  shows "(arb2 f AND IF_ARB_MSGXTD \<noteq> 0) = (can_id f AND CAN_EFF_FLAG \<noteq> 0)"
    and "(arb2 f AND IF_ARB_TRANSMIT \<noteq> 0) = (can_id f AND CAN_RTR_FLAG = 0)"
    and "can_id f AND CAN_EFF_FLAG \<noteq> 0 \<Longrightarrow> val f AND CAN_EFF_MASK = can_id f AND CAN_EFF_MASK"
    and "can_id f AND CAN_EFF_FLAG = 0 \<Longrightarrow>
           drop_bit 18 (val f) AND CAN_SFF_MASK = can_id f AND CAN_SFF_MASK"
proof -
  have eff: "arb2 f AND t = write_msg_object_flags f AND t \<and>
             val f AND CAN_EFF_MASK = can_id f AND CAN_EFF_MASK"
    if "can_id f AND CAN_EFF_FLAG \<noteq> 0" "t AND mask 13 = 0" for t
    using that(1) arb_roundtrip_eff [OF flags_high that(2), where c = "can_id f" and f1 = f]
    unfolding arb1_def arb2_def val_def IFX_WRITE_LOW_16BIT_def IFX_WRITE_HIGH_16BIT_def
      write_msg_object_id_def CAN_EFF_MASK_def CAN_SFF_MASK_def mask_consts
    by simp
  have sff: "arb2 f AND t = write_msg_object_flags f AND t \<and>
             drop_bit 18 (val f) AND CAN_SFF_MASK = can_id f AND CAN_SFF_MASK"
    if "can_id f AND CAN_EFF_FLAG = 0" "t AND mask 13 = 0" for t
    using that(1) arb_roundtrip_sff [OF flags_high that(2), where c = "can_id f" and f1 = f]
    unfolding arb1_def arb2_def val_def IFX_WRITE_LOW_16BIT_def IFX_WRITE_HIGH_16BIT_def
      write_msg_object_id_def CAN_EFF_MASK_def CAN_SFF_MASK_def mask_consts
    by simp
  have tst: "arb2 f AND t = write_msg_object_flags f AND t" if "t AND mask 13 = 0" for t
    using eff [OF _ that] sff [OF _ that] by (cases "can_id f AND CAN_EFF_FLAG = 0") simp_all
  show "(arb2 f AND IF_ARB_MSGXTD \<noteq> 0) = (can_id f AND CAN_EFF_FLAG \<noteq> 0)"
    by (simp only: tst [OF arb_consts_high(1)] flags_tests)
  show "(arb2 f AND IF_ARB_TRANSMIT \<noteq> 0) = (can_id f AND CAN_RTR_FLAG = 0)"
    by (simp only: tst [OF arb_consts_high(2)] flags_tests)
  show "can_id f AND CAN_EFF_FLAG \<noteq> 0 \<Longrightarrow> val f AND CAN_EFF_MASK = can_id f AND CAN_EFF_MASK"
    using eff [OF _ arb_consts_high(1)] by simp
  show "can_id f AND CAN_EFF_FLAG = 0 \<Longrightarrow>
           drop_bit 18 (val f) AND CAN_SFF_MASK = can_id f AND CAN_SFF_MASK"
    using sff [OF _ arb_consts_high(1)] by simp
qed

lemma codec_roundtrip0:
  assumes dlc: "unat (can_dlc f) \<le> 8"
  shows "can_dlc (codec_roundtrip 0 f objno skb s) = can_dlc f"
    and "can_id (codec_roundtrip 0 f objno skb s) =
          (if can_id f AND CAN_EFF_FLAG \<noteq> 0 then (can_id f AND CAN_EFF_MASK) OR CAN_EFF_FLAG
           else can_id f AND CAN_SFF_MASK) OR
          (if can_id f AND CAN_RTR_FLAG = 0 then CAN_RTR_FLAG else 0)"
    and "data (codec_roundtrip 0 f objno skb s) j =
          (if can_id f AND CAN_RTR_FLAG \<noteq> 0 \<and> j < 2 * ((unat (can_dlc f) + 1) div 2)
           then data f j else data (rb_frame skb) j)"
proof -
  define s' where "s' = c_can_write_msg_object 0 f objno s"
  define arb1 where "arb1 = IFX_WRITE_LOW_16BIT (write_msg_object_id f)"
  define arb2 where "arb2 = write_msg_object_flags f OR IFX_WRITE_HIGH_16BIT (write_msg_object_id f)"
  define val where "val = (ucast arb1 :: u32) OR push_bit 16 (ucast arb2)"
  define ctrl where "ctrl = IF_MCONT_TXIE OR IF_MCONT_TXRQST OR IF_MCONT_EOB OR ucast (can_dlc f)"
  have regs': "regs s' = (wmo_regs f (regs s))(C_CAN_IF1_COMMSK_REG := IF_COMM_WR OR IF_COMM_ALL,
                                 C_CAN_IF1_COMREQ_REG := of_nat objno)"
    unfolding s'_def by (rule c_can_write_msg_object0(1) [OF dlc])
  have r1: "read_reg s' C_CAN_IF1_ARB1_REG = arb1"
    by (simp add: read_reg_plain regs' reg_defs) (simp add: wmo_regs_def reg_defs arb1_def)
  have r2: "read_reg s' C_CAN_IF1_ARB2_REG = arb2"
    by (simp add: read_reg_plain regs' reg_defs) (simp add: wmo_regs_def reg_defs arb2_def)
  have rc: "read_reg s' C_CAN_IF1_MSGCTRL_REG = ctrl"
    by (simp add: read_reg_plain regs' reg_defs) (simp add: wmo_regs_def reg_defs ctrl_def)
  have dl: "get_can_dlc (ctrl AND 0x0F) = can_dlc f"
    unfolding ctrl_def by (rule ctrl_dlc [OF dlc])
  have xtd: "(arb2 AND IF_ARB_MSGXTD \<noteq> 0) = (can_id f AND CAN_EFF_FLAG \<noteq> 0)"
    unfolding arb2_def by (rule arb_decoded(1))
  have tr: "(arb2 AND IF_ARB_TRANSMIT \<noteq> 0) = (can_id f AND CAN_RTR_FLAG = 0)"
    unfolding arb2_def by (rule arb_decoded(2))
  have eff: "val AND CAN_EFF_MASK = can_id f AND CAN_EFF_MASK" if "can_id f AND CAN_EFF_FLAG \<noteq> 0"
    unfolding arb2_def val_def arb1_def using that by (rule arb_decoded(3))
  have sff: "drop_bit 18 val AND CAN_SFF_MASK = can_id f AND CAN_SFF_MASK"
    if "can_id f AND CAN_EFF_FLAG = 0"
    unfolding arb2_def val_def arb1_def using that by (rule arb_decoded(4))
  define idv where "idv = (if can_id f AND CAN_EFF_FLAG \<noteq> 0
      then (can_id f AND CAN_EFF_MASK) OR CAN_EFF_FLAG else can_id f AND CAN_SFF_MASK)"
  define fr1 where "fr1 = (rb_frame skb)\<lparr>can_dlc := can_dlc f, can_id := idv\<rparr>"
  have rt: "codec_roundtrip 0 f objno skb s =
      (if can_id f AND CAN_RTR_FLAG = 0 then fr1\<lparr>can_id := can_id fr1 OR CAN_RTR_FLAG\<rparr>
       else read_msg_object_data 0 0 s' fr1)"
    unfolding codec_roundtrip_def c_can_read_msg_object_def Let_def s'_def [symmetric] iface0
      rc r1 r2 dl val_def [symmetric]
    using eff sff by (simp add: xtd tr fr1_def idv_def)
  have rd: "can_id (read_msg_object_data 0 0 s' fr1) = can_id fr1"
           "can_dlc (read_msg_object_data 0 0 s' fr1) = can_dlc fr1"
           "data (read_msg_object_data 0 0 s' fr1) j =
              (if j < 2 * ((unat (can_dlc fr1) + 1) div 2) then rd_byte s' j else data fr1 j)"
    using read_msg_object_data0 [of 0 s' fr1 j] by simp_all
  have f1: "can_dlc fr1 = can_dlc f" "can_id fr1 = idv" "data fr1 = data (rb_frame skb)"
    by (simp_all add: fr1_def)
  show "can_dlc (codec_roundtrip 0 f objno skb s) = can_dlc f"
    by (simp add: rt rd f1)
  show "can_id (codec_roundtrip 0 f objno skb s) =
          (if can_id f AND CAN_EFF_FLAG \<noteq> 0 then (can_id f AND CAN_EFF_MASK) OR CAN_EFF_FLAG
           else can_id f AND CAN_SFF_MASK) OR
          (if can_id f AND CAN_RTR_FLAG = 0 then CAN_RTR_FLAG else 0)"
    by (simp add: rt rd f1 idv_def)
  have byte: "rd_byte s' j = data f j" if l: "j < 2 * ((unat (can_dlc f) + 1) div 2)"
  proof -
    have j4: "j div 2 < 4" using l dlc by arith
    have w: "2 * (j div 2) < unat (can_dlc f)" using l by presburger
    have "read_reg s' (C_CAN_IF1_DATA1_REG + j div 2) = regs s' (C_CAN_IF1_DATA1_REG + j div 2)"
      using j4 by (simp add: read_reg_plain reg_defs)
    also have "\<dots> = wmo_regs f (regs s) (C_CAN_IF1_DATA1_REG + j div 2)"
      using j4 by (simp add: regs' reg_defs)
    also have "\<dots> = data_pair f (2 * (j div 2))"
      using wmo_regs_data [OF j4, of f "regs s"] w by simp
    finally have r: "read_reg s' (C_CAN_IF1_DATA1_REG + j div 2) = data_pair f (2 * (j div 2))" .
    show ?thesis
    proof (cases "even j")
      case True
      then have "2 * (j div 2) = j" by simp
      then show ?thesis using True by (simp add: rd_byte_def Let_def r data_pair_bytes)
    next
      case False
      then have "2 * (j div 2) + 1 = j" by presburger
      then show ?thesis
        using False data_pair_bytes(2) [of f "2 * (j div 2)"]
        by (simp add: rd_byte_def Let_def r)
    qed
  qed
  show "data (codec_roundtrip 0 f objno skb s) j =
          (if can_id f AND CAN_RTR_FLAG \<noteq> 0 \<and> j < 2 * ((unat (can_dlc f) + 1) div 2)
           then data f j else data (rb_frame skb) j)"
    using byte by (simp add: rt rd f1)
qed

text \<open>A remote-request frame with two payload bytes.\<close>

definition frame_rtr :: can_frame where
  "frame_rtr = \<lparr>can_id = 0x40000123, can_dlc = 2, data = (\<lambda>_. 0)(0 := 0xAB, 1 := 0xCD)\<rparr>"

text \<open>
  Claim C1 as stated fails: the standard data frame with identifier 0x123 and DLC 0,
  encoded and decoded, comes back with the remote-request flag set, so the decoded frame is
  not the original one. The encoder sets the transmit-direction bit for a frame that is not
  a remote request, and the decoder sets the remote-request flag when that bit is set.
\<close>

theorem codec_roundtrip_data_frame_counterexample:
  "unat (can_dlc frame_a) \<le> 8 \<and> can_id frame_a = 0x123 \<and>
   can_id (codec_roundtrip 0 frame_a 17 skb0 sys0) = 0x40000123 \<and>
   codec_roundtrip 0 frame_a 17 skb0 sys0 \<noteq> frame_a"
proof -
  have h: "unat (can_dlc frame_a) \<le> 8" by (simp add: frame_a_def)
  have a: "can_id frame_a = 0x123" by (simp add: frame_a_def)
  have "can_id (codec_roundtrip 0 frame_a 17 skb0 sys0) = 0x40000123"
    unfolding codec_roundtrip0(2) [OF h] by (simp add: a can_defs)
  then show ?thesis using h a by auto
qed

text \<open>
  Claim C1, amended. For every frame with DLC in 0..8, standard or extended, data or remote
  request, decoding the register fields produced by encoding it through interface 0 gives
  a frame with the same DLC, the same extended flag and the same identifier (11 bits of a
  standard, 29 bits of an extended identifier), and with the remote-request flag inverted:
  the decoded flag is the encoded transmit-direction bit, which is set exactly for frames
  that were not remote requests. The payload is read back, equal to the encoded bytes,
  exactly when the direction bit is clear, that is for a frame given as a remote request;
  a frame given as a data frame decodes as a remote request whose payload bytes are the
  ones the receive buffer held before.
\<close>

theorem codec_roundtrip_fields:
  assumes "unat (can_dlc f) \<le> 8"
  shows "can_dlc (codec_roundtrip 0 f objno skb s) = can_dlc f \<and>
     can_id (codec_roundtrip 0 f objno skb s) =
       ((if can_id f AND CAN_EFF_FLAG \<noteq> 0 then (can_id f AND CAN_EFF_MASK) OR CAN_EFF_FLAG
         else can_id f AND CAN_SFF_MASK) OR
        (if can_id f AND CAN_RTR_FLAG = 0 then CAN_RTR_FLAG else 0)) \<and>
     (\<forall>j. data (codec_roundtrip 0 f objno skb s) j =
          (if can_id f AND CAN_RTR_FLAG \<noteq> 0 \<and> j < 2 * ((unat (can_dlc f) + 1) div 2)
           then data f j else data (rb_frame skb) j))"
  using codec_roundtrip0 [OF assms, of objno skb s] by blast

theorem codec_roundtrip_fields_witness:
  "unat (can_dlc frame_rtr) \<le> 8 \<and> can_id frame_rtr = 0x40000123 \<and>
   can_dlc (codec_roundtrip 0 frame_rtr 17 skb0 sys0) = 2 \<and>
   can_id (codec_roundtrip 0 frame_rtr 17 skb0 sys0) = 0x123 \<and>
   data (codec_roundtrip 0 frame_rtr 17 skb0 sys0) 0 = 0xAB \<and>
   data (codec_roundtrip 0 frame_rtr 17 skb0 sys0) 1 = 0xCD"
proof -
  have h: "unat (can_dlc frame_rtr) \<le> 8" by (simp add: frame_rtr_def)
  have a: "can_id frame_rtr = 0x40000123" "can_dlc frame_rtr = 2"
    "data frame_rtr 0 = 0xAB" "data frame_rtr 1 = 0xCD" "data frame_rtr (Suc 0) = 0xCD"
    by (simp_all add: frame_rtr_def)
  note T = codec_roundtrip_fields [OF h, of 17 skb0 sys0]
  have d: "can_dlc (codec_roundtrip 0 frame_rtr 17 skb0 sys0) = 2" using T a by simp
  have i: "can_id (codec_roundtrip 0 frame_rtr 17 skb0 sys0) = 0x123"
    using T by (simp add: a can_defs)
  have "\<forall>j. data (codec_roundtrip 0 frame_rtr 17 skb0 sys0) j =
          (if can_id frame_rtr AND CAN_RTR_FLAG \<noteq> 0 \<and> j < 2 * ((unat (can_dlc frame_rtr) + 1) div 2)
           then data frame_rtr j else data (rb_frame skb0) j)"
    using T by blast
  then have p: "data (codec_roundtrip 0 frame_rtr 17 skb0 sys0) 0 = 0xAB"
    "data (codec_roundtrip 0 frame_rtr 17 skb0 sys0) 1 = 0xCD"
    by (simp_all add: a can_defs)
  show ?thesis using h a d i p by blast
qed

section \<open>Get and put: the poll count follows the busy bit\<close>

text \<open>The busy bit of an interface's command request register as a poll reads it \<open>i\<close>
  microseconds after the state \<open>s\<close>.\<close>

definition busy_after :: "nat \<Rightarrow> nat \<Rightarrow> c_can \<Rightarrow> bool" where
  "busy_after iface i s =
    (read_reg (s\<lparr>usec := usec s + i\<rparr>) (C_CAN_IFACE C_CAN_IF1_COMREQ_REG iface) AND
       IF_COMR_BUSY \<noteq> 0)"

text \<open>The state right after a get or put has written the command mask \<open>cmd\<close> and the
  message number: the point from which the busy bit is polled.\<close>

definition if_request :: "nat \<Rightarrow> nat \<Rightarrow> u16 \<Rightarrow> c_can \<Rightarrow> c_can" where
  "if_request iface objno cmd s =
    write_reg (C_CAN_IFACE C_CAN_IF1_COMREQ_REG iface) (of_nat objno)
      (write_reg (C_CAN_IFACE C_CAN_IF1_COMMSK_REG iface) cmd s)"

lemma read_reg_cong:
  assumes "regs s = regs t" "msg_ram s = msg_ram t" "usec s = usec t" "busy_until s = busy_until t"
  shows "read_reg s i = read_reg t i"
  by (simp only: read_reg_def assms)

lemma busy_after_0:
  "busy_after iface 0 s =
     (read_reg s (C_CAN_IFACE C_CAN_IF1_COMREQ_REG iface) AND IF_COMR_BUSY \<noteq> 0)"
proof -
  have "read_reg (s\<lparr>usec := usec s + 0\<rparr>) (C_CAN_IFACE C_CAN_IF1_COMREQ_REG iface) =
        read_reg s (C_CAN_IFACE C_CAN_IF1_COMREQ_REG iface)"
    by (rule read_reg_cong) simp_all
  then show ?thesis by (simp only: busy_after_def)
qed

lemma busy_after_udelay:
  "busy_after iface i (udelay 1 s) = busy_after iface (Suc i) s"
proof -
  have "read_reg ((udelay 1 s)\<lparr>usec := usec (udelay 1 s) + i\<rparr>)
          (C_CAN_IFACE C_CAN_IF1_COMREQ_REG iface) =
        read_reg (s\<lparr>usec := usec s + Suc i\<rparr>) (C_CAN_IFACE C_CAN_IF1_COMREQ_REG iface)"
    by (rule read_reg_cong) simp_all
  then show ?thesis by (simp only: busy_after_def)
qed

lemma busy_wait_polls:
  "\<exists>k\<le>n. (\<forall>i<k. busy_after iface i s) \<and> (k < n \<longrightarrow> \<not> busy_after iface k s) \<and>
          fst (busy_wait n iface s) = n - k \<and>
          trace (snd (busy_wait n iface s)) = trace s @ replicate k (Udelay 1) \<and>
          usec (snd (busy_wait n iface s)) = usec s + k"
proof (induction n arbitrary: s)
  case 0
  then show ?case by simp
next
  case (Suc n)
  show ?case
  proof (cases "busy_after iface 0 s")
    case True
    then have rd: "read_reg s (C_CAN_IFACE C_CAN_IF1_COMREQ_REG iface) AND IF_COMR_BUSY \<noteq> 0"
      by (simp add: busy_after_0)
    from Suc.IH [of "udelay 1 s"] obtain k where k: "k \<le> n"
      "\<forall>i<k. busy_after iface i (udelay 1 s)"
      "k < n \<longrightarrow> \<not> busy_after iface k (udelay 1 s)"
      "fst (busy_wait n iface (udelay 1 s)) = n - k"
      "trace (snd (busy_wait n iface (udelay 1 s))) = trace (udelay 1 s) @ replicate k (Udelay 1)"
      "usec (snd (busy_wait n iface (udelay 1 s))) = usec (udelay 1 s) + k"
      by blast
    have all: "\<forall>i<Suc k. busy_after iface i s"
    proof (intro allI impI)
      fix i assume "i < Suc k"
      show "busy_after iface i s"
      proof (cases i)
        case 0
        then show ?thesis using True by simp
      next
        case (Suc j)
        then have "j < k" using \<open>i < Suc k\<close> by simp
        then have "busy_after iface j (udelay 1 s)" using k(2) by blast
        then show ?thesis by (simp only: busy_after_udelay Suc)
      qed
    qed
    have stop: "Suc k < Suc n \<longrightarrow> \<not> busy_after iface (Suc k) s"
      using k(3) unfolding busy_after_udelay by simp
    have "Suc k \<le> Suc n \<and> (\<forall>i<Suc k. busy_after iface i s) \<and>
          (Suc k < Suc n \<longrightarrow> \<not> busy_after iface (Suc k) s) \<and>
          fst (busy_wait (Suc n) iface s) = Suc n - Suc k \<and>
          trace (snd (busy_wait (Suc n) iface s)) = trace s @ replicate (Suc k) (Udelay 1) \<and>
          usec (snd (busy_wait (Suc n) iface s)) = usec s + Suc k"
      using rd k(1,4,5,6) all stop by simp
    then show ?thesis by blast
  next
    case False
    then have rd: "\<not> (read_reg s (C_CAN_IFACE C_CAN_IF1_COMREQ_REG iface) AND IF_COMR_BUSY \<noteq> 0)"
      by (simp add: busy_after_0)
    have "0 \<le> Suc n \<and> (\<forall>i<0. busy_after iface i s) \<and>
          (0 < Suc n \<longrightarrow> \<not> busy_after iface 0 s) \<and>
          fst (busy_wait (Suc n) iface s) = Suc n - 0 \<and>
          trace (snd (busy_wait (Suc n) iface s)) = trace s @ replicate 0 (Udelay 1) \<and>
          usec (snd (busy_wait (Suc n) iface s)) = usec s + 0"
      using rd False by simp
    then show ?thesis by blast
  qed
qed

lemma c_can_msg_obj_is_busy_polls:
  "\<exists>k\<le>MIN_TIMEOUT_VALUE.
     (\<forall>i<k. busy_after iface i s) \<and> (k < MIN_TIMEOUT_VALUE \<longrightarrow> \<not> busy_after iface k s) \<and>
     fst (c_can_msg_obj_is_busy iface s) = (if k = MIN_TIMEOUT_VALUE then 1 else 0) \<and>
     trace (snd (c_can_msg_obj_is_busy iface s)) = trace s @ replicate k (Udelay 1) \<and>
     usec (snd (c_can_msg_obj_is_busy iface s)) = usec s + k"
proof -
  from busy_wait_polls [of MIN_TIMEOUT_VALUE iface s] obtain k where k:
    "k \<le> MIN_TIMEOUT_VALUE"
    "\<forall>i<k. busy_after iface i s" "k < MIN_TIMEOUT_VALUE \<longrightarrow> \<not> busy_after iface k s"
    "fst (busy_wait MIN_TIMEOUT_VALUE iface s) = MIN_TIMEOUT_VALUE - k"
    "trace (snd (busy_wait MIN_TIMEOUT_VALUE iface s)) = trace s @ replicate k (Udelay 1)"
    "usec (snd (busy_wait MIN_TIMEOUT_VALUE iface s)) = usec s + k"
    by blast
  have "fst (c_can_msg_obj_is_busy iface s) = (if k = MIN_TIMEOUT_VALUE then 1 else 0)"
    using k(1,4) by (auto simp add: c_can_msg_obj_is_busy_alt)
  moreover have "snd (c_can_msg_obj_is_busy iface s) = snd (busy_wait MIN_TIMEOUT_VALUE iface s)"
    by (simp add: c_can_msg_obj_is_busy_alt)
  ultimately have "k \<le> MIN_TIMEOUT_VALUE \<and>
     (\<forall>i<k. busy_after iface i s) \<and> (k < MIN_TIMEOUT_VALUE \<longrightarrow> \<not> busy_after iface k s) \<and>
     fst (c_can_msg_obj_is_busy iface s) = (if k = MIN_TIMEOUT_VALUE then 1 else 0) \<and>
     trace (snd (c_can_msg_obj_is_busy iface s)) = trace s @ replicate k (Udelay 1) \<and>
     usec (snd (c_can_msg_obj_is_busy iface s)) = usec s + k"
    using k by simp
  then show ?thesis by blast
qed

lemma c_can_object_get_polls:
  "\<exists>k\<le>MIN_TIMEOUT_VALUE.
      (\<forall>i<k. busy_after iface i (if_request iface objno msk s)) \<and>
      (k < MIN_TIMEOUT_VALUE \<longrightarrow> \<not> busy_after iface k (if_request iface objno msk s)) \<and>
      trace (c_can_object_get iface objno msk s) =
        trace s @ [Reg_write (C_CAN_IFACE C_CAN_IF1_COMMSK_REG iface) msk,
                   Reg_write (C_CAN_IFACE C_CAN_IF1_COMREQ_REG iface) (of_nat objno)] @
        replicate k (Udelay 1) @
        (if k = MIN_TIMEOUT_VALUE then [Dev_err ''timed out in object get''] else []) \<and>
      usec (c_can_object_get iface objno msk s) = usec s + k"
proof -
  define g where "g = if_request iface objno msk s"
  from c_can_msg_obj_is_busy_polls [of iface g] obtain k where k:
    "k \<le> MIN_TIMEOUT_VALUE"
    "\<forall>i<k. busy_after iface i g" "k < MIN_TIMEOUT_VALUE \<longrightarrow> \<not> busy_after iface k g"
    "fst (c_can_msg_obj_is_busy iface g) = (if k = MIN_TIMEOUT_VALUE then 1 else 0)"
    "trace (snd (c_can_msg_obj_is_busy iface g)) = trace g @ replicate k (Udelay 1)"
    "usec (snd (c_can_msg_obj_is_busy iface g)) = usec g + k"
    by blast
  have get: "c_can_object_get iface objno msk s =
      (if fst (c_can_msg_obj_is_busy iface g) \<noteq> 0
       then emit (Dev_err ''timed out in object get'') (snd (c_can_msg_obj_is_busy iface g))
       else snd (c_can_msg_obj_is_busy iface g))"
    by (simp add: c_can_object_get_def g_def if_request_def Let_def split: prod.split)
  have "trace (c_can_object_get iface objno msk s) =
        trace s @ [Reg_write (C_CAN_IFACE C_CAN_IF1_COMMSK_REG iface) msk,
                   Reg_write (C_CAN_IFACE C_CAN_IF1_COMREQ_REG iface) (of_nat objno)] @
        replicate k (Udelay 1) @
        (if k = MIN_TIMEOUT_VALUE then [Dev_err ''timed out in object get''] else []) \<and>
      usec (c_can_object_get iface objno msk s) = usec s + k"
    using k(4,5,6) by (simp add: get g_def if_request_def)
  then show ?thesis using k(1,2,3) unfolding g_def by blast
qed

lemma c_can_object_put_polls:
  "\<exists>k\<le>MIN_TIMEOUT_VALUE.
      (\<forall>i<k. busy_after iface i (if_request iface objno (IF_COMM_WR OR msk) s)) \<and>
      (k < MIN_TIMEOUT_VALUE \<longrightarrow>
         \<not> busy_after iface k (if_request iface objno (IF_COMM_WR OR msk) s)) \<and>
      trace (c_can_object_put iface objno msk s) =
        trace s @ [Reg_write (C_CAN_IFACE C_CAN_IF1_COMMSK_REG iface) (IF_COMM_WR OR msk),
                   Reg_write (C_CAN_IFACE C_CAN_IF1_COMREQ_REG iface) (of_nat objno)] @
        replicate k (Udelay 1) @
        (if k = MIN_TIMEOUT_VALUE then [Dev_err ''timed out in object put''] else []) \<and>
      usec (c_can_object_put iface objno msk s) = usec s + k"
proof -
  define p where "p = if_request iface objno (IF_COMM_WR OR msk) s"
  from c_can_msg_obj_is_busy_polls [of iface p] obtain k where k:
    "k \<le> MIN_TIMEOUT_VALUE"
    "\<forall>i<k. busy_after iface i p" "k < MIN_TIMEOUT_VALUE \<longrightarrow> \<not> busy_after iface k p"
    "fst (c_can_msg_obj_is_busy iface p) = (if k = MIN_TIMEOUT_VALUE then 1 else 0)"
    "trace (snd (c_can_msg_obj_is_busy iface p)) = trace p @ replicate k (Udelay 1)"
    "usec (snd (c_can_msg_obj_is_busy iface p)) = usec p + k"
    by blast
  have put: "c_can_object_put iface objno msk s =
      (if fst (c_can_msg_obj_is_busy iface p) \<noteq> 0
       then emit (Dev_err ''timed out in object put'') (snd (c_can_msg_obj_is_busy iface p))
       else snd (c_can_msg_obj_is_busy iface p))"
    by (simp add: c_can_object_put_def p_def if_request_def Let_def split: prod.split)
  have "trace (c_can_object_put iface objno msk s) =
        trace s @ [Reg_write (C_CAN_IFACE C_CAN_IF1_COMMSK_REG iface) (IF_COMM_WR OR msk),
                   Reg_write (C_CAN_IFACE C_CAN_IF1_COMREQ_REG iface) (of_nat objno)] @
        replicate k (Udelay 1) @
        (if k = MIN_TIMEOUT_VALUE then [Dev_err ''timed out in object put''] else []) \<and>
      usec (c_can_object_put iface objno msk s) = usec s + k"
    using k(4,5,6) by (simp add: put p_def if_request_def)
  then show ?thesis using k(1,2,3) unfolding p_def by blast
qed

lemma c_can_object_get_put_state:
  "regs (c_can_object_get iface objno msk s) = regs (if_request iface objno msk s)"
  "msg_ram (c_can_object_get iface objno msk s) = msg_ram (if_request iface objno msk s)"
  "regs (c_can_object_put iface objno msk s) =
     regs (if_request iface objno (IF_COMM_WR OR msk) s)"
  "msg_ram (c_can_object_put iface objno msk s) =
     msg_ram (if_request iface objno (IF_COMM_WR OR msk) s)"
proof -
  have get: "c_can_object_get iface objno msk s =
      (if fst (c_can_msg_obj_is_busy iface (if_request iface objno msk s)) \<noteq> 0
       then emit (Dev_err ''timed out in object get'')
              (snd (c_can_msg_obj_is_busy iface (if_request iface objno msk s)))
       else snd (c_can_msg_obj_is_busy iface (if_request iface objno msk s)))"
    by (simp add: c_can_object_get_def if_request_def Let_def split: prod.split)
  have put: "c_can_object_put iface objno msk s =
      (if fst (c_can_msg_obj_is_busy iface (if_request iface objno (IF_COMM_WR OR msk) s)) \<noteq> 0
       then emit (Dev_err ''timed out in object put'')
              (snd (c_can_msg_obj_is_busy iface (if_request iface objno (IF_COMM_WR OR msk) s)))
       else snd (c_can_msg_obj_is_busy iface (if_request iface objno (IF_COMM_WR OR msk) s)))"
    by (simp add: c_can_object_put_def if_request_def Let_def split: prod.split)
  show "regs (c_can_object_get iface objno msk s) = regs (if_request iface objno msk s)"
       "msg_ram (c_can_object_get iface objno msk s) = msg_ram (if_request iface objno msk s)"
    unfolding get by simp_all
  show "regs (c_can_object_put iface objno msk s) =
          regs (if_request iface objno (IF_COMM_WR OR msk) s)"
       "msg_ram (c_can_object_put iface objno msk s) =
          msg_ram (if_request iface objno (IF_COMM_WR OR msk) s)"
    unfolding put by simp_all
qed

text \<open>
  Claim C7. Every get and every put writes the command mask and the message number and
  then polls the busy bit of the command request register, one microsecond apart, for
  at most \<open>MIN_TIMEOUT_VALUE = 6\<close> iterations: the number \<open>k\<close> of delays is the number of
  consecutive polls that read the bit set, so every one of the first \<open>k\<close> polls found the
  interface busy and, when \<open>k\<close> is below the budget, poll \<open>k\<close> found it idle. Exactly when
  all six polls read busy the operation logs one error line; in every case it returns
  with the registers and the message RAM as the transfer left them. The functions have no
  error result and change neither the driver's private data nor the device state.
\<close>

theorem c_can_object_get_put_polls_busy_bit:
  "(\<exists>k\<le>MIN_TIMEOUT_VALUE.
      (\<forall>i<k. busy_after iface i (if_request iface objno msk s)) \<and>
      (k < MIN_TIMEOUT_VALUE \<longrightarrow> \<not> busy_after iface k (if_request iface objno msk s)) \<and>
      trace (c_can_object_get iface objno msk s) =
        trace s @ [Reg_write (C_CAN_IFACE C_CAN_IF1_COMMSK_REG iface) msk,
                   Reg_write (C_CAN_IFACE C_CAN_IF1_COMREQ_REG iface) (of_nat objno)] @
        replicate k (Udelay 1) @
        (if k = MIN_TIMEOUT_VALUE then [Dev_err ''timed out in object get''] else []) \<and>
      usec (c_can_object_get iface objno msk s) = usec s + k) \<and>
   (\<exists>k\<le>MIN_TIMEOUT_VALUE.
      (\<forall>i<k. busy_after iface i (if_request iface objno (IF_COMM_WR OR msk) s)) \<and>
      (k < MIN_TIMEOUT_VALUE \<longrightarrow>
         \<not> busy_after iface k (if_request iface objno (IF_COMM_WR OR msk) s)) \<and>
      trace (c_can_object_put iface objno msk s) =
        trace s @ [Reg_write (C_CAN_IFACE C_CAN_IF1_COMMSK_REG iface) (IF_COMM_WR OR msk),
                   Reg_write (C_CAN_IFACE C_CAN_IF1_COMREQ_REG iface) (of_nat objno)] @
        replicate k (Udelay 1) @
        (if k = MIN_TIMEOUT_VALUE then [Dev_err ''timed out in object put''] else []) \<and>
      usec (c_can_object_put iface objno msk s) = usec s + k) \<and>
   MIN_TIMEOUT_VALUE = 6 \<and>
   regs (c_can_object_get iface objno msk s) = regs (if_request iface objno msk s) \<and>
   msg_ram (c_can_object_get iface objno msk s) = msg_ram (if_request iface objno msk s) \<and>
   regs (c_can_object_put iface objno msk s) =
     regs (if_request iface objno (IF_COMM_WR OR msk) s) \<and>
   msg_ram (c_can_object_put iface objno msk s) =
     msg_ram (if_request iface objno (IF_COMM_WR OR msk) s) \<and>
   priv (c_can_object_get iface objno msk s) = priv s \<and>
   dev (c_can_object_get iface objno msk s) = dev s \<and>
   priv (c_can_object_put iface objno msk s) = priv s \<and>
   dev (c_can_object_put iface objno msk s) = dev s"
  using c_can_object_get_polls [of iface objno msk s] c_can_object_put_polls [of iface objno msk s]
    c_can_object_get_put_state [of iface objno msk s]
  by (simp add: MIN_TIMEOUT_VALUE_def)

lemma busy_after_port0:
  "busy_after 0 i s = (usec s + i < busy_until s C_CAN_IF1_COMREQ_REG)"
  unfolding busy_after_def iface0 read_comreq_busy by simp

theorem c_can_object_get_put_polls_busy_bit_witness:
  "busy_until (if_request 0 5 0x73 sys_slow) C_CAN_IF1_COMREQ_REG = 10 \<and>
   usec (if_request 0 5 0x73 sys_slow) = 0 \<and>
   trace (c_can_object_get 0 5 0x73 sys_slow) =
     [Reg_write C_CAN_IF1_COMMSK_REG 0x73, Reg_write C_CAN_IF1_COMREQ_REG 5] @
     replicate 6 (Udelay 1) @ [Dev_err ''timed out in object get''] \<and>
   busy_until (if_request 0 5 (IF_COMM_WR OR 0x10) sys0) C_CAN_IF1_COMREQ_REG = 0 \<and>
   trace (c_can_object_put 0 5 0x10 sys0) =
     [Reg_write C_CAN_IF1_COMMSK_REG 0x90, Reg_write C_CAN_IF1_COMREQ_REG 5] \<and>
   dev (c_can_object_get 0 5 0x73 sys_slow) = dev sys_slow"
proof -
  define g where "g = if_request 0 5 0x73 sys_slow"
  define p where "p = if_request 0 5 (IF_COMM_WR OR 0x10) sys0"
  have gb: "busy_until g C_CAN_IF1_COMREQ_REG = 10" "usec g = 0"
    unfolding g_def if_request_def iface0
    by (simp_all add: comreq_busy_until) (simp_all add: sys_slow_def sys0_def)
  have pb: "busy_until p C_CAN_IF1_COMREQ_REG = 0" "usec p = 0"
    unfolding p_def if_request_def iface0
    by (simp_all add: comreq_busy_until) (simp_all add: sys0_def)
  have bg: "busy_after 0 i g = (i < 10)" for i by (simp add: busy_after_port0 gb)
  have bp: "\<not> busy_after 0 i p" for i by (simp add: busy_after_port0 pb)
  have ts: "trace sys_slow = []" "trace sys0 = []" by (simp_all add: sys_slow_def sys0_def)
  note T = c_can_object_get_put_polls_busy_bit [of 0 5 "0x73" sys_slow, folded g_def]
  note U = c_can_object_get_put_polls_busy_bit [of 0 5 "0x10" sys0, folded p_def]
  from T obtain k where k: "k \<le> MIN_TIMEOUT_VALUE"
    "k < MIN_TIMEOUT_VALUE \<longrightarrow> \<not> busy_after 0 k g"
    "trace (c_can_object_get 0 5 0x73 sys_slow) =
        trace sys_slow @ [Reg_write (C_CAN_IFACE C_CAN_IF1_COMMSK_REG 0) 0x73,
                   Reg_write (C_CAN_IFACE C_CAN_IF1_COMREQ_REG 0) (of_nat 5)] @
        replicate k (Udelay 1) @
        (if k = MIN_TIMEOUT_VALUE then [Dev_err ''timed out in object get''] else [])"
    by blast
  have "k = 6" using k(1,2) by (simp add: bg MIN_TIMEOUT_VALUE_def)
  then have tg: "trace (c_can_object_get 0 5 0x73 sys_slow) =
     [Reg_write C_CAN_IF1_COMMSK_REG 0x73, Reg_write C_CAN_IF1_COMREQ_REG 5] @
     replicate 6 (Udelay 1) @ [Dev_err ''timed out in object get'']"
    using k(3) by (simp add: ts MIN_TIMEOUT_VALUE_def)
  from U obtain j where j: "\<forall>i<j. busy_after 0 i p"
    "trace (c_can_object_put 0 5 0x10 sys0) =
        trace sys0 @ [Reg_write (C_CAN_IFACE C_CAN_IF1_COMMSK_REG 0) (IF_COMM_WR OR 0x10),
                   Reg_write (C_CAN_IFACE C_CAN_IF1_COMREQ_REG 0) (of_nat 5)] @
        replicate j (Udelay 1) @
        (if j = MIN_TIMEOUT_VALUE then [Dev_err ''timed out in object put''] else [])"
    by blast
  have "j = 0" using j(1) bp by (cases j) auto
  then have tp: "trace (c_can_object_put 0 5 0x10 sys0) =
     [Reg_write C_CAN_IF1_COMMSK_REG 0x90, Reg_write C_CAN_IF1_COMREQ_REG 5]"
    using j(2) by (simp add: ts MIN_TIMEOUT_VALUE_def IF_COMM_WR_def)
  have d: "dev (c_can_object_get 0 5 0x73 sys_slow) = dev sys_slow" using T by blast
  show ?thesis using gb pb tg tp d unfolding g_def p_def by blast
qed

section \<open>Receive drain: what a pass does to the message objects\<close>

text \<open>The control-only put the receive path uses, the get that starts the handling of a
  pending object, and the four ways the loop body leaves a message object.\<close>

lemma rx_mask_bits:
  "(IF_COMM_ALL AND NOT IF_COMM_TXRQST) AND IF_COMM_WR = 0"
  "(IF_COMM_ALL AND NOT IF_COMM_TXRQST) AND IF_COMM_CONTROL \<noteq> 0"
  by (simp_all add: comm_defs)

lemma c_can_object_put_control0:
  assumes "1 \<le> n" "n \<le> 32"
  shows "msg_ram (c_can_object_put 0 n IF_COMM_CONTROL (write_reg C_CAN_IF1_MSGCTRL_REG v s)) =
           (msg_ram s)(n := (msg_ram s n)\<lparr>mo_mctrl := v\<rparr>)"
proof -
  define s1 where "s1 = write_reg C_CAN_IF1_MSGCTRL_REG v s"
  have r: "regs s1 = (regs s)(C_CAN_IF1_MSGCTRL_REG := v)" "msg_ram s1 = msg_ram s"
    unfolding s1_def by (simp_all add: write_reg_plain reg_defs)
  show ?thesis
    unfolding s1_def [symmetric] using assms
    by (cases "msg_ram s n") (simp add: c_can_object_put0 r obj_store_def comm_defs reg_defs)
qed

lemma c_can_object_get_rx0:
  assumes "1 \<le> n" "n \<le> 32"
  shows "msg_ram (c_can_object_get 0 n (IF_COMM_ALL AND NOT IF_COMM_TXRQST) s) = msg_ram s"
    and "read_reg (c_can_object_get 0 n (IF_COMM_ALL AND NOT IF_COMM_TXRQST) s)
           C_CAN_IF1_MSGCTRL_REG = mo_mctrl (msg_ram s n)"
proof -
  show "msg_ram (c_can_object_get 0 n (IF_COMM_ALL AND NOT IF_COMM_TXRQST) s) = msg_ram s"
    using assms by (simp add: c_can_object_get0 rx_mask_bits)
  have "regs (c_can_object_get 0 n (IF_COMM_ALL AND NOT IF_COMM_TXRQST) s) C_CAN_IF1_MSGCTRL_REG =
      mo_mctrl (msg_ram s n)"
    using assms by (simp add: c_can_object_get0 rx_mask_bits obj_load_def reg_defs)
  then show "read_reg (c_can_object_get 0 n (IF_COMM_ALL AND NOT IF_COMM_TXRQST) s)
           C_CAN_IF1_MSGCTRL_REG = mo_mctrl (msg_ram s n)"
    by (simp add: read_reg_plain reg_defs)
qed

lemma c_can_handle_lost_msg_obj0:
  assumes "1 \<le> n" "n \<le> 32"
  shows "msg_ram (c_can_handle_lost_msg_obj 0 n s) = (msg_ram s)(n := (msg_ram s n)\<lparr>mo_mctrl := 0\<rparr>)"
    and "rcvs (trace (c_can_handle_lost_msg_obj 0 n s)) =
           rcvs (trace s) @
             [(stack_skb s)\<lparr>rb_frame := (rb_frame (stack_skb s))
                \<lparr>can_id := can_id (rb_frame (stack_skb s)) OR CAN_ERR_CRTL,
                 data := (data (rb_frame (stack_skb s)))(1 := CAN_ERR_CRTL_RX_OVERFLOW)\<rparr>\<rparr>]"
    and "priv (c_can_handle_lost_msg_obj 0 n s) = priv s"
    and "dev (c_can_handle_lost_msg_obj 0 n s) = dev s"
    and "stack_skb (c_can_handle_lost_msg_obj 0 n s) = stack_skb s"
proof -
  define s1 where "s1 = c_can_object_get 0 n (IF_COMM_ALL AND NOT IF_COMM_TXRQST)
      (emit (Dev_err ''msg lost in buffer %d'') s)"
  have m1: "msg_ram s1 = msg_ram s" unfolding s1_def using assms by (simp add: c_can_object_get_rx0)
  show "msg_ram (c_can_handle_lost_msg_obj 0 n s) = (msg_ram s)(n := (msg_ram s n)\<lparr>mo_mctrl := 0\<rparr>)"
    using assms
    by (simp add: c_can_handle_lost_msg_obj_def Let_def s1_def [symmetric] c_can_object_put_control0 m1
        IF_MCONT_CLR_MSGLST_def)
  show "rcvs (trace (c_can_handle_lost_msg_obj 0 n s)) =
           rcvs (trace s) @
             [(stack_skb s)\<lparr>rb_frame := (rb_frame (stack_skb s))
                \<lparr>can_id := can_id (rb_frame (stack_skb s)) OR CAN_ERR_CRTL,
                 data := (data (rb_frame (stack_skb s)))(1 := CAN_ERR_CRTL_RX_OVERFLOW)\<rparr>\<rparr>]"
    by (simp add: c_can_handle_lost_msg_obj_def Let_def)
  show "priv (c_can_handle_lost_msg_obj 0 n s) = priv s"
    "dev (c_can_handle_lost_msg_obj 0 n s) = dev s"
    "stack_skb (c_can_handle_lost_msg_obj 0 n s) = stack_skb s"
    by (simp_all add: c_can_handle_lost_msg_obj_def Let_def)
qed

lemma c_can_mark_rx_msg_obj0:
  assumes "1 \<le> n" "n \<le> 32"
  shows "msg_ram (c_can_mark_rx_msg_obj 0 c n s) =
     (msg_ram s)(n := (msg_ram s n)\<lparr>mo_mctrl := c AND NOT (IF_MCONT_MSGLST OR IF_MCONT_INTPND)\<rparr>)"
  using assms by (simp add: c_can_mark_rx_msg_obj_def c_can_object_put_control0)

lemma c_can_activate_rx_msg_obj0:
  assumes "1 \<le> n" "n \<le> 32"
  shows "msg_ram (c_can_activate_rx_msg_obj 0 c n s) =
     (msg_ram s)(n := (msg_ram s n)
        \<lparr>mo_mctrl := c AND NOT (IF_MCONT_MSGLST OR IF_MCONT_INTPND OR IF_MCONT_NEWDAT)\<rparr>)"
  using assms by (simp add: c_can_activate_rx_msg_obj_def c_can_object_put_control0)

lemma fold_put_control:
  assumes "\<forall>i \<in> set xs. 1 \<le> i \<and> i \<le> 32"
  shows "msg_ram (fold (\<lambda>i s. c_can_object_put 0 i IF_COMM_CONTROL
                        (write_reg C_CAN_IF1_MSGCTRL_REG v s)) xs s) =
         (\<lambda>i. if i \<in> set xs then (msg_ram s i)\<lparr>mo_mctrl := v\<rparr> else msg_ram s i)"
  using assms
proof (induction xs arbitrary: s)
  case Nil
  show ?case by simp
next
  case (Cons a xs)
  have a: "1 \<le> a" "a \<le> 32" using Cons.prems by simp_all
  have xs: "\<forall>i \<in> set xs. 1 \<le> i \<and> i \<le> 32" using Cons.prems by simp
  show ?case
    by (simp add: Cons.IH [OF xs] c_can_object_put_control0 [OF a] fun_eq_iff)
qed

lemma c_can_activate_all_lower_rx_msg_obj0:
  "msg_ram (c_can_activate_all_lower_rx_msg_obj 0 c s) =
     (\<lambda>i. if 1 \<le> i \<and> i \<le> 8
          then (msg_ram s i)\<lparr>mo_mctrl := c AND NOT (IF_MCONT_MSGLST OR IF_MCONT_INTPND OR IF_MCONT_NEWDAT)\<rparr>
          else msg_ram s i)"
proof -
  have "\<forall>i \<in> set [C_CAN_MSG_OBJ_RX_FIRST ..< C_CAN_MSG_RX_LOW_LAST + 1]. 1 \<le> i \<and> i \<le> 32"
    by (simp add: obj_defs)
  from fold_put_control [OF this] show ?thesis
    by (simp add: c_can_activate_all_lower_rx_msg_obj_def obj_defs fun_eq_iff) 
qed

lemma fold_put_control_other:
  "rcvs (trace (fold (\<lambda>i s. c_can_object_put 0 i IF_COMM_CONTROL
                        (write_reg C_CAN_IF1_MSGCTRL_REG v s)) xs s)) = rcvs (trace s) \<and>
   priv (fold (\<lambda>i s. c_can_object_put 0 i IF_COMM_CONTROL
                        (write_reg C_CAN_IF1_MSGCTRL_REG v s)) xs s) = priv s \<and>
   dev (fold (\<lambda>i s. c_can_object_put 0 i IF_COMM_CONTROL
                        (write_reg C_CAN_IF1_MSGCTRL_REG v s)) xs s) = dev s \<and>
   stack_skb (fold (\<lambda>i s. c_can_object_put 0 i IF_COMM_CONTROL
                        (write_reg C_CAN_IF1_MSGCTRL_REG v s)) xs s) = stack_skb s"
  by (induction xs arbitrary: s) simp_all

lemma c_can_activate_all_lower_rx_msg_obj_other [simp]:
  "rcvs (trace (c_can_activate_all_lower_rx_msg_obj 0 c s)) = rcvs (trace s)"
  "priv (c_can_activate_all_lower_rx_msg_obj 0 c s) = priv s"
  "dev (c_can_activate_all_lower_rx_msg_obj 0 c s) = dev s"
  "stack_skb (c_can_activate_all_lower_rx_msg_obj 0 c s) = stack_skb s"
  by (simp_all add: c_can_activate_all_lower_rx_msg_obj_def fold_put_control_other)

lemma c_can_mark_rx_msg_obj_other [simp]:
  "rcvs (trace (c_can_mark_rx_msg_obj 0 c n s)) = rcvs (trace s)"
  "priv (c_can_mark_rx_msg_obj 0 c n s) = priv s"
  "dev (c_can_mark_rx_msg_obj 0 c n s) = dev s"
  "stack_skb (c_can_mark_rx_msg_obj 0 c n s) = stack_skb s"
  by (simp_all add: c_can_mark_rx_msg_obj_def)

lemma c_can_activate_rx_msg_obj_other [simp]:
  "rcvs (trace (c_can_activate_rx_msg_obj 0 c n s)) = rcvs (trace s)"
  "priv (c_can_activate_rx_msg_obj 0 c n s) = priv s"
  "dev (c_can_activate_rx_msg_obj 0 c n s) = dev s"
  "stack_skb (c_can_activate_rx_msg_obj 0 c n s) = stack_skb s"
  by (simp_all add: c_can_activate_rx_msg_obj_def)

lemma rx_poll_body_ram:
  assumes "1 \<le> m" "m \<le> 16"
  shows "fst (rx_poll_body m n skb s) = (mo_mctrl (msg_ram s m) AND IF_MCONT_EOB \<noteq> 0)"
    and "msg_ram (snd (snd (snd (rx_poll_body m n skb s)))) =
      (let c = mo_mctrl (msg_ram s m)
       in if c AND IF_MCONT_EOB \<noteq> 0 then msg_ram s
          else if c AND IF_MCONT_MSGLST \<noteq> 0 then (msg_ram s)(m := (msg_ram s m)\<lparr>mo_mctrl := 0\<rparr>)
          else if c AND IF_MCONT_NEWDAT = 0 then msg_ram s
          else if m < 8 then
            (msg_ram s)(m := (msg_ram s m)
               \<lparr>mo_mctrl := c AND NOT (IF_MCONT_MSGLST OR IF_MCONT_INTPND)\<rparr>)
          else if 8 < m then
            (msg_ram s)(m := (msg_ram s m)
               \<lparr>mo_mctrl := c AND NOT (IF_MCONT_MSGLST OR IF_MCONT_INTPND OR IF_MCONT_NEWDAT)\<rparr>)
          else
            (\<lambda>i. if 1 \<le> i \<and> i \<le> 8
                 then (msg_ram s i)
                   \<lparr>mo_mctrl := c AND NOT (IF_MCONT_MSGLST OR IF_MCONT_INTPND OR IF_MCONT_NEWDAT)\<rparr>
                 else msg_ram s i))"
proof -
  define s1 where "s1 = c_can_object_get 0 m (IF_COMM_ALL AND NOT IF_COMM_TXRQST) s"
  have m32: "m \<le> 32" using assms by simp
  have g: "msg_ram s1 = msg_ram s" "read_reg s1 C_CAN_IF1_MSGCTRL_REG = mo_mctrl (msg_ram s m)"
    unfolding s1_def using assms(1) m32 by (simp_all add: c_can_object_get_rx0)
  show "fst (rx_poll_body m n skb s) = (mo_mctrl (msg_ram s m) AND IF_MCONT_EOB \<noteq> 0)"
    by (simp add: rx_poll_body_def Let_def s1_def [symmetric] g)
  show "msg_ram (snd (snd (snd (rx_poll_body m n skb s)))) =
      (let c = mo_mctrl (msg_ram s m)
       in if c AND IF_MCONT_EOB \<noteq> 0 then msg_ram s
          else if c AND IF_MCONT_MSGLST \<noteq> 0 then (msg_ram s)(m := (msg_ram s m)\<lparr>mo_mctrl := 0\<rparr>)
          else if c AND IF_MCONT_NEWDAT = 0 then msg_ram s
          else if m < 8 then
            (msg_ram s)(m := (msg_ram s m)
               \<lparr>mo_mctrl := c AND NOT (IF_MCONT_MSGLST OR IF_MCONT_INTPND)\<rparr>)
          else if 8 < m then
            (msg_ram s)(m := (msg_ram s m)
               \<lparr>mo_mctrl := c AND NOT (IF_MCONT_MSGLST OR IF_MCONT_INTPND OR IF_MCONT_NEWDAT)\<rparr>)
          else
            (\<lambda>i. if 1 \<le> i \<and> i \<le> 8
                 then (msg_ram s i)
                   \<lparr>mo_mctrl := c AND NOT (IF_MCONT_MSGLST OR IF_MCONT_INTPND OR IF_MCONT_NEWDAT)\<rparr>
                 else msg_ram s i))"
    using assms(1) m32
    by (simp add: rx_poll_body_def Let_def s1_def [symmetric] g c_can_handle_lost_msg_obj0 c_can_mark_rx_msg_obj0 c_can_activate_rx_msg_obj0
        c_can_activate_all_lower_rx_msg_obj0 obj_defs cong: if_cong)
qed

lemma rx_poll_body_other:
  assumes "1 \<le> m" "m \<le> 16"
  shows "rcvs (trace (snd (snd (snd (rx_poll_body m n skb s))))) =
      rcvs (trace s) @
      (let c = mo_mctrl (msg_ram s m)
       in if c AND IF_MCONT_EOB \<noteq> 0 then []
          else if c AND IF_MCONT_MSGLST \<noteq> 0 then
             [(stack_skb s)\<lparr>rb_frame := (rb_frame (stack_skb s))
                \<lparr>can_id := can_id (rb_frame (stack_skb s)) OR CAN_ERR_CRTL,
                 data := (data (rb_frame (stack_skb s)))(1 := CAN_ERR_CRTL_RX_OVERFLOW)\<rparr>\<rparr>]
          else if c AND IF_MCONT_NEWDAT = 0 then []
          else [c_can_read_msg_object 0 c skb
                  (c_can_object_get 0 m (IF_COMM_ALL AND NOT IF_COMM_TXRQST) s)])"
    and "fst (snd (rx_poll_body m n skb s)) =
      (let c = mo_mctrl (msg_ram s m)
       in if c AND IF_MCONT_EOB \<noteq> 0 then n
          else if c AND IF_MCONT_MSGLST \<noteq> 0 then n + 1
          else if c AND IF_MCONT_NEWDAT = 0 then n else n + 1)"
    and "priv (snd (snd (snd (rx_poll_body m n skb s)))) = priv s"
    and "dev (snd (snd (snd (rx_poll_body m n skb s)))) = dev s"
    and "stack_skb (snd (snd (snd (rx_poll_body m n skb s)))) = stack_skb s"
proof -
  define s1 where "s1 = c_can_object_get 0 m (IF_COMM_ALL AND NOT IF_COMM_TXRQST) s"
  have m32: "m \<le> 32" using assms by simp
  have g: "msg_ram s1 = msg_ram s" "read_reg s1 C_CAN_IF1_MSGCTRL_REG = mo_mctrl (msg_ram s m)"
    unfolding s1_def using assms(1) m32 by (simp_all add: c_can_object_get_rx0)
  have o: "rcvs (trace s1) = rcvs (trace s)" "priv s1 = priv s" "dev s1 = dev s"
    "stack_skb s1 = stack_skb s"
    unfolding s1_def by simp_all
  show "rcvs (trace (snd (snd (snd (rx_poll_body m n skb s))))) =
      rcvs (trace s) @
      (let c = mo_mctrl (msg_ram s m)
       in if c AND IF_MCONT_EOB \<noteq> 0 then []
          else if c AND IF_MCONT_MSGLST \<noteq> 0 then
             [(stack_skb s)\<lparr>rb_frame := (rb_frame (stack_skb s))
                \<lparr>can_id := can_id (rb_frame (stack_skb s)) OR CAN_ERR_CRTL,
                 data := (data (rb_frame (stack_skb s)))(1 := CAN_ERR_CRTL_RX_OVERFLOW)\<rparr>\<rparr>]
          else if c AND IF_MCONT_NEWDAT = 0 then []
          else [c_can_read_msg_object 0 c skb
                  (c_can_object_get 0 m (IF_COMM_ALL AND NOT IF_COMM_TXRQST) s)])"
    using assms(1) m32
    by (simp add: rx_poll_body_def Let_def s1_def [symmetric] g o c_can_handle_lost_msg_obj0)
  show "fst (snd (rx_poll_body m n skb s)) =
      (let c = mo_mctrl (msg_ram s m)
       in if c AND IF_MCONT_EOB \<noteq> 0 then n
          else if c AND IF_MCONT_MSGLST \<noteq> 0 then n + 1
          else if c AND IF_MCONT_NEWDAT = 0 then n else n + 1)"
    by (simp add: rx_poll_body_def Let_def s1_def [symmetric] g)
  show "priv (snd (snd (snd (rx_poll_body m n skb s)))) = priv s"
    "dev (snd (snd (snd (rx_poll_body m n skb s)))) = dev s"
    "stack_skb (snd (snd (snd (rx_poll_body m n skb s)))) = stack_skb s"
    using assms(1) m32
    by (simp_all add: rx_poll_body_def Let_def s1_def [symmetric] g o c_can_handle_lost_msg_obj0)
qed

lemma rx_poll_loop_step:
  assumes "1 \<le> m" "m \<le> 16" "val = c_can_read_reg32 s C_CAN_INTPND1_REG"
  shows "rx_poll_loop m val n skb s =
    (if mo_intpnd (msg_ram s m) then
       (if fst (rx_poll_body m n skb s)
        then (fst (snd (rx_poll_body m n skb s)), snd (snd (snd (rx_poll_body m n skb s))))
        else rx_poll_loop (m + 1)
               (c_can_read_reg32 (snd (snd (snd (rx_poll_body m n skb s)))) C_CAN_INTPND1_REG)
               (fst (snd (rx_poll_body m n skb s))) (fst (snd (snd (rx_poll_body m n skb s))))
               (snd (snd (snd (rx_poll_body m n skb s)))))
     else rx_poll_loop (m + 1) val n skb s)"
proof -
  obtain k where k: "m = k + 1" using assms(1) by (metis add.commute le_Suc_ex)
  have "(c_can_read_reg32 s C_CAN_INTPND1_REG AND push_bit k 1 \<noteq> 0) =
      (k < 32 \<and> mo_intpnd (msg_ram s (k + 1)))"
    by (rule intpnd_test)
  then have t: "(val AND push_bit (m - 1) 1 \<noteq> 0) = mo_intpnd (msg_ram s m)"
    using assms(2) unfolding assms(3) k by simp
  show ?thesis
    apply (subst rx_poll_loop.simps)
    using assms(2) unfolding t
    by (simp add: obj_defs assms(3) split: prod.split)
qed

lemma rx_poll_loop_end: "16 < m \<Longrightarrow> rx_poll_loop m val n skb s = (n, s)"
  by (subst rx_poll_loop.simps) (simp add: obj_defs)

subsection \<open>The scan\<close>








subsection \<open>The boundary of the batch reactivation\<close>

text \<open>Receive objects as \<^verbatim>\<open>c_can_configure_msg_objects\<close> leaves them (valid, receive interrupt
  and mask enabled, end of block on object 16), with a given control word.\<close>

definition rx_obj :: "u16 \<Rightarrow> msg_object" where
  "rx_obj c = mo0\<lparr>mo_arb2 := IF_ARB_MSGVAL, mo_mctrl := c\<rparr>"







lemma rx_obj_bits [simp]:
  "mo_mctrl (rx_obj c) = c" "mo_arb2 (rx_obj c) = IF_ARB_MSGVAL"
  by (simp_all add: rx_obj_def)






section \<open>Receive drain: a lost message\<close>

text \<open>Object 5 pending with new data and message lost, receive interrupt and mask
  enabled.\<close>

definition sys_lost :: c_can where
  "sys_lost = sys0\<lparr>msg_ram := (\<lambda>_. rx_obj (IF_MCONT_UMASK OR IF_MCONT_RXIE))
     (5 := rx_obj (IF_MCONT_NEWDAT OR IF_MCONT_MSGLST OR IF_MCONT_INTPND OR IF_MCONT_UMASK OR
                   IF_MCONT_RXIE),
      16 := rx_obj (IF_MCONT_EOB OR IF_MCONT_UMASK OR IF_MCONT_RXIE))\<rparr>"


lemma msg_ram_lost:
  "msg_ram sys_lost = (\<lambda>_. rx_obj (IF_MCONT_UMASK OR IF_MCONT_RXIE))
     (5 := rx_obj (IF_MCONT_NEWDAT OR IF_MCONT_MSGLST OR IF_MCONT_INTPND OR IF_MCONT_UMASK OR
                   IF_MCONT_RXIE),
      16 := rx_obj (IF_MCONT_EOB OR IF_MCONT_UMASK OR IF_MCONT_RXIE))"
  "stack_skb sys_lost = skb0" "trace sys_lost = []"
  by (simp_all add: sys_lost_def sys0_def)

lemma rx_poll_loop_skip:
  assumes "1 \<le> m" "m \<le> 16" "\<not> mo_intpnd (msg_ram s m)"
  shows "rx_poll_loop m (c_can_read_reg32 s C_CAN_INTPND1_REG) n skb s =
         rx_poll_loop (m + 1) (c_can_read_reg32 s C_CAN_INTPND1_REG) n skb s"
  using assms by (simp add: rx_poll_loop_step [OF _ _ refl])

lemma rx_poll_loop_skip_to:
  assumes "1 \<le> m" "m \<le> m'" "m' \<le> 17"
    "\<forall>j. m \<le> j \<and> j < m' \<longrightarrow> \<not> mo_intpnd (msg_ram s j)"
  shows "rx_poll_loop m (c_can_read_reg32 s C_CAN_INTPND1_REG) n skb s =
         rx_poll_loop m' (c_can_read_reg32 s C_CAN_INTPND1_REG) n skb s"
  using assms
proof (induction k \<equiv> "m' - m" arbitrary: m)
  case 0
  then show ?case by simp
next
  case (Suc k)
  then have m: "1 \<le> m" "m \<le> 16" "\<not> mo_intpnd (msg_ram s m)" by simp_all
  have "rx_poll_loop (m + 1) (c_can_read_reg32 s C_CAN_INTPND1_REG) n skb s =
         rx_poll_loop m' (c_can_read_reg32 s C_CAN_INTPND1_REG) n skb s"
    using Suc.hyps(2) Suc.prems by (intro Suc.hyps(1)) simp_all
  then show ?case by (simp add: rx_poll_loop_skip [OF m])
qed

lemma rx_poll_loop_take:
  assumes "1 \<le> m" "m \<le> 16" "mo_intpnd (msg_ram s m)"
    "mo_mctrl (msg_ram s m) AND IF_MCONT_EOB = 0"
  shows "rx_poll_loop m (c_can_read_reg32 s C_CAN_INTPND1_REG) n skb s =
         rx_poll_loop (m + 1)
               (c_can_read_reg32 (snd (snd (snd (rx_poll_body m n skb s)))) C_CAN_INTPND1_REG)
               (fst (snd (rx_poll_body m n skb s))) (fst (snd (snd (rx_poll_body m n skb s))))
               (snd (snd (snd (rx_poll_body m n skb s))))"
  using assms by (simp add: rx_poll_loop_step [OF _ _ refl] rx_poll_body_ram)

lemma rx_lost_eval:
  "c_can_do_rx_poll sys_lost = (1, snd (snd (snd (rx_poll_body 5 0 skb0 sys_lost))))"
proof -
  define s1 where "s1 = snd (snd (snd (rx_poll_body 5 0 skb0 sys_lost)))"
  have p0: "\<And>m. m \<noteq> 5 \<Longrightarrow> \<not> mo_intpnd (msg_ram sys_lost m)"
    by (simp add: msg_ram_lost mo_intpnd_def mcont_defs)
  have p5: "mo_intpnd (msg_ram sys_lost 5)" "mo_mctrl (msg_ram sys_lost 5) AND IF_MCONT_EOB = 0"
    "mo_mctrl (msg_ram sys_lost 5) AND IF_MCONT_MSGLST \<noteq> 0"
    by (simp_all add: msg_ram_lost mo_intpnd_def mcont_defs)
  have r1: "msg_ram s1 = (msg_ram sys_lost)(5 := (msg_ram sys_lost 5)\<lparr>mo_mctrl := 0\<rparr>)"
    unfolding s1_def using p5 by (simp add: rx_poll_body_ram Let_def)
  have p1: "\<And>m. \<not> mo_intpnd (msg_ram s1 m)"
    by (simp add: r1 msg_ram_lost mo_intpnd_def mcont_defs)
  have n1: "fst (snd (rx_poll_body 5 0 skb0 sys_lost)) = 1"
    using p5 by (simp add: rx_poll_body_other Let_def)
  have "c_can_do_rx_poll sys_lost =
      rx_poll_loop 5 (c_can_read_reg32 sys_lost C_CAN_INTPND1_REG) 0 skb0 sys_lost"
    unfolding c_can_do_rx_poll_def C_CAN_MSG_OBJ_RX_FIRST_def msg_ram_lost(2)
    by (rule rx_poll_loop_skip_to) (simp_all add: p0)
  also have "\<dots> = rx_poll_loop 6 (c_can_read_reg32 s1 C_CAN_INTPND1_REG) 1
       (fst (snd (snd (rx_poll_body 5 0 skb0 sys_lost)))) s1"
    using p5 by (simp add: rx_poll_loop_take s1_def [symmetric] n1)
  also have "\<dots> = rx_poll_loop 17 (c_can_read_reg32 s1 C_CAN_INTPND1_REG) 1
       (fst (snd (snd (rx_poll_body 5 0 skb0 sys_lost)))) s1"
    by (rule rx_poll_loop_skip_to) (simp_all add: p1)
  also have "\<dots> = (1, s1)"
    by (simp add: rx_poll_loop_end)
  finally show ?thesis by (simp add: s1_def)
qed


text \<open>
  Claim C8, at the state \<open>sys_lost\<close>. The pass delivers exactly one event, the control error
  with the receive-overflow byte, and the object stays valid with its arbitration. But the
  value written to the message control register is \<^verbatim>\<open>IF_MCONT_CLR_MSGLST\<close>, which is
  \<^verbatim>\<open>(0 << 14)\<close>, zero: the put of the control field clears the whole control word of the
  object, the receive interrupt enable and the mask enable with it, and not only the
  message-lost bit.
\<close>

theorem c_can_do_rx_poll_lost_slot_control_cleared:
  "mo_mctrl (msg_ram sys_lost 5) =
     IF_MCONT_NEWDAT OR IF_MCONT_MSGLST OR IF_MCONT_INTPND OR IF_MCONT_UMASK OR IF_MCONT_RXIE \<and>
   mo_msgval (msg_ram sys_lost 5) \<and>
   fst (c_can_do_rx_poll sys_lost) = 1 \<and>
   rcvs (trace (snd (c_can_do_rx_poll sys_lost))) =
     [skb0\<lparr>rb_frame := frame0\<lparr>can_id := CAN_ERR_CRTL,
                                 data := (\<lambda>_. 0)(1 := CAN_ERR_CRTL_RX_OVERFLOW)\<rparr>\<rparr>] \<and>
   IF_MCONT_CLR_MSGLST = 0 \<and>
   msg_ram (snd (c_can_do_rx_poll sys_lost)) 5 = (msg_ram sys_lost 5)\<lparr>mo_mctrl := 0\<rparr> \<and>
   mo_mctrl (msg_ram (snd (c_can_do_rx_poll sys_lost)) 5) AND IF_MCONT_RXIE = 0 \<and>
   mo_mctrl (msg_ram (snd (c_can_do_rx_poll sys_lost)) 5) AND IF_MCONT_UMASK = 0 \<and>
   mo_msgval (msg_ram (snd (c_can_do_rx_poll sys_lost)) 5)"
proof -
  have p5: "mo_mctrl (msg_ram sys_lost 5) AND IF_MCONT_EOB = 0"
    "mo_mctrl (msg_ram sys_lost 5) AND IF_MCONT_MSGLST \<noteq> 0"
    by (simp_all add: msg_ram_lost mcont_defs)
  have r: "msg_ram (snd (c_can_do_rx_poll sys_lost)) =
      (msg_ram sys_lost)(5 := (msg_ram sys_lost 5)\<lparr>mo_mctrl := 0\<rparr>)"
    using p5 by (simp add: rx_lost_eval rx_poll_body_ram Let_def)
  have t: "rcvs (trace (snd (c_can_do_rx_poll sys_lost))) =
     [skb0\<lparr>rb_frame := frame0\<lparr>can_id := CAN_ERR_CRTL,
                                 data := (\<lambda>_. 0)(1 := CAN_ERR_CRTL_RX_OVERFLOW)\<rparr>\<rparr>]"
    using p5 by (simp add: rx_lost_eval rx_poll_body_other Let_def msg_ram_lost skb0_def frame0_def)
  show ?thesis
    unfolding t r
    by (simp add: rx_lost_eval msg_ram_lost mo_msgval_def mcont_defs arb_defs)
qed

end
